theory Spec2Isabelle
  imports Complex_Main
begin

section \<open>Values: doubles with the unset sentinel\<close>

text \<open>
  The loopback backend \<^verbatim>\<open>GenericSystem\<close> (generic_system.cpp) stores every interface
  value as a C++ \<^verbatim>\<open>double\<close>; \<^verbatim>\<open>quiet_NaN\<close> is the "unset" sentinel, tested with
  \<^verbatim>\<open>std::isnan\<close>. The model keeps the special values of IEEE arithmetic apart (NaN and
  the two infinities) and takes finite values as real numbers: rounding and overflow of
  finite results are abstracted, and the two zeros are identified. A zero divisor is
  treated as \<^verbatim>\<open>+0.0\<close>, which is the only zero the divisor of the program (the period, an
  integer count of milliseconds divided by 1000.0) can be.
\<close>

datatype double = NaN | PInf | MInf | Fin real

fun isnan :: "double \<Rightarrow> bool" where
  "isnan NaN = True"
| "isnan _ = False"

fun dneg :: "double \<Rightarrow> double" where
  "dneg NaN = NaN"
| "dneg PInf = MInf"
| "dneg MInf = PInf"
| "dneg (Fin a) = Fin (- a)"

fun dadd :: "double \<Rightarrow> double \<Rightarrow> double" where
  "dadd NaN _ = NaN"
| "dadd _ NaN = NaN"
| "dadd PInf MInf = NaN"
| "dadd MInf PInf = NaN"
| "dadd PInf _ = PInf"
| "dadd _ PInf = PInf"
| "dadd MInf _ = MInf"
| "dadd _ MInf = MInf"
| "dadd (Fin a) (Fin b) = Fin (a + b)"

definition dsub :: "double \<Rightarrow> double \<Rightarrow> double" where
  "dsub a b = dadd a (dneg b)"

fun dsgn :: "double \<Rightarrow> int" where
  "dsgn NaN = 0"
| "dsgn PInf = 1"
| "dsgn MInf = - 1"
| "dsgn (Fin a) = (if a < 0 then - 1 else if a = 0 then 0 else 1)"

definition signed_inf :: "int \<Rightarrow> double" where
  "signed_inf k = (if k = 0 then NaN else if 0 < k then PInf else MInf)"

fun dmul :: "double \<Rightarrow> double \<Rightarrow> double" where
  "dmul NaN _ = NaN"
| "dmul _ NaN = NaN"
| "dmul (Fin a) (Fin b) = Fin (a * b)"
| "dmul a b = signed_inf (dsgn a * dsgn b)"

fun ddiv :: "double \<Rightarrow> double \<Rightarrow> double" where
  "ddiv NaN _ = NaN"
| "ddiv _ NaN = NaN"
| "ddiv (Fin a) (Fin b) = (if b = 0 then signed_inf (dsgn (Fin a)) else Fin (a / b))"
| "ddiv (Fin a) _ = Fin 0"
| "ddiv a (Fin b) = signed_inf (dsgn a * (if b < 0 then - 1 else 1))"
| "ddiv _ _ = NaN"

section \<open>The resource description\<close>

text \<open>
  \<^verbatim>\<open>hardware_interface::HardwareInfo\<close> as the backend reads it: the hardware parameters,
  and the joints and sensors, each with a name, a parameter map and the names of its
  declared command and state interfaces.
\<close>

record ComponentInfo =
  name :: string
  command_interfaces :: "string list"
  state_interfaces :: "string list"
  parameters :: "string \<rightharpoonup> string"

record HardwareInfo =
  hardware_parameters :: "string \<rightharpoonup> string"
  joints :: "ComponentInfo list"
  sensors :: "ComponentInfo list"

datatype return_type = OK | ERROR

datatype StoppingInterface = NONE | STOP_POSITION | STOP_VELOCITY

datatype status = UNKNOWN | CONFIGURED

text \<open>
  Modelled from the spec: the header hardware_interface_type_values.hpp is not among the
  sources; the spec names the interfaces "position" and "velocity"
  (\<^verbatim>\<open>prepare(["J1/position"], [])\<close>).
\<close>

definition HW_IF_POSITION :: string where
  "HW_IF_POSITION = ''position''"

definition HW_IF_VELOCITY :: string where
  "HW_IF_VELOCITY = ''velocity''"

text \<open>
  Modelled from the spec: generic_system.hpp is not among the sources. The position row
  is row 0 (the source: "0 index is position interface") and the velocity row is row 1
  (the loopback of the remaining rows starts at row 2, and the velocity row is written
  only when there is more than one standard interface).
\<close>

definition POSITION_INTERFACE_INDEX :: nat where
  "POSITION_INTERFACE_INDEX = 0"

definition VELOCITY_INTERFACE_INDEX :: nat where
  "VELOCITY_INTERFACE_INDEX = 1"

text \<open>\<^verbatim>\<open>std::numeric_limits<size_t>::max()\<close> on a 64-bit platform.\<close>

definition SIZE_MAX :: nat where
  "SIZE_MAX = 2 ^ 64 - 1"

record MimicJoint =
  joint_index :: nat
  mimicked_joint_index :: nat
  multiplier :: double

section \<open>The state of the backend\<close>

text \<open>
  The members of \<^verbatim>\<open>GenericSystem\<close> (the trailing underscore of the C++ names is
  dropped; \<^verbatim>\<open>begin\<close> is \<open>begin_time\<close>, a time point of the system clock counted in
  nanoseconds). \<open>standard_interfaces\<close> is a constant of the missing header and is
  carried as a field.
\<close>

record GenericSystem =
  info :: HardwareInfo
  status_field :: status
  fake_sensor_command_interfaces :: bool
  command_propagation_disabled :: bool
  position_state_following_offset :: double
  custom_interface_with_following_offset :: string
  index_custom_interface_with_following_offset :: nat
  standard_interfaces :: "string list"
  other_interfaces :: "string list"
  sensor_interfaces :: "string list"
  joint_commands :: "double list list"
  joint_states :: "double list list"
  other_commands :: "double list list"
  other_states :: "double list list"
  sensor_fake_commands :: "double list list"
  sensor_states :: "double list list"
  joint_pos_commands_old :: "double list"
  mimic_joints :: "MimicJoint list"
  start_modes :: "string list"
  stop_modes :: "StoppingInterface list"
  position_controller_running :: bool
  velocity_controller_running :: bool
  begin_time :: int
  period :: double

text \<open>Writing one cell of a matrix: \<^verbatim>\<open>m[i][j] = v\<close>.\<close>

definition set_cell :: "'a list list \<Rightarrow> nat \<Rightarrow> nat \<Rightarrow> 'a \<Rightarrow> 'a list list" where
  "set_cell m i j v = m[i := (m ! i)[j := v]]"

text \<open>\<^verbatim>\<open>std::find\<close> / \<^verbatim>\<open>std::find_if\<close> followed by \<^verbatim>\<open>std::distance\<close>: the index of the
  first match, if there is one.\<close>

fun first_index :: "('a \<Rightarrow> bool) \<Rightarrow> 'a list \<Rightarrow> nat option" where
  "first_index P [] = None"
| "first_index P (x # xs) = (if P x then Some 0 else map_option Suc (first_index P xs))"

text \<open>\<^verbatim>\<open>std::vector::resize(n, v)\<close>: existing elements are kept, new ones are \<open>v\<close>.\<close>

definition resize :: "'a list \<Rightarrow> nat \<Rightarrow> 'a \<Rightarrow> 'a list" where
  "resize xs n v = take n xs @ replicate (n - length xs) v"

section \<open>Command-mode switching\<close>

text \<open>
  \<^verbatim>\<open>prepare_command_mode_switch\<close>: for every key and every joint, a start (stop) mode
  is pushed when the key is the joint's position or velocity interface
  (\<^verbatim>\<open>info_.joints[i].name + "/" + HW_IF_POSITION\<close>). The request is
  an error when the modes found are neither none nor one per joint, or are not all the
  same. \<^verbatim>\<open>std::equal(v.begin() + 1, v.end(), v.begin())\<close> compares every element but the
  first with its predecessor.
\<close>

definition interface_key :: "ComponentInfo \<Rightarrow> string \<Rightarrow> string" where
  "interface_key joint ifc = name joint @ ''/'' @ ifc"

definition push_modes :: "'a \<Rightarrow> 'a \<Rightarrow> string \<Rightarrow> ComponentInfo \<Rightarrow> 'a list \<Rightarrow> 'a list" where
  "push_modes p v key joint modes =
     (let m1 = (if key = interface_key joint HW_IF_POSITION then modes @ [p] else modes)
      in if key = interface_key joint HW_IF_VELOCITY then m1 @ [v] else m1)"

definition collect_modes :: "'a \<Rightarrow> 'a \<Rightarrow> ComponentInfo list \<Rightarrow> string list \<Rightarrow> 'a list" where
  "collect_modes p v js keys = fold (\<lambda>key. fold (push_modes p v key) js) keys []"

definition equal_to_predecessor :: "'a list \<Rightarrow> bool" where
  "equal_to_predecessor xs \<longleftrightarrow> tl xs = butlast xs"

definition prepare_command_mode_switch ::
  "string list \<Rightarrow> string list \<Rightarrow> GenericSystem \<Rightarrow> return_type \<times> GenericSystem" where
  "prepare_command_mode_switch start_ifs stop_ifs s =
     (let n = length (joints (info s));
          sm = collect_modes HW_IF_POSITION HW_IF_VELOCITY (joints (info s)) start_ifs;
          r1 = (if length sm \<noteq> 0 \<and> length sm \<noteq> n then ERROR else OK);
          r2 = (if length sm \<noteq> 0 \<and> \<not> equal_to_predecessor sm then ERROR else r1);
          tm = collect_modes STOP_POSITION STOP_VELOCITY (joints (info s)) stop_ifs;
          r3 = (if length tm \<noteq> 0 \<and> (length tm \<noteq> n \<or> \<not> equal_to_predecessor tm)
                then ERROR else r2)
      in (r3, s\<lparr>start_modes := sm, stop_modes := tm\<rparr>))"

text \<open>
  \<^verbatim>\<open>perform_command_mode_switch\<close> ignores its arguments and reads the start modes
  that the last prepare (or configure) left in \<open>start_modes\<close>. The first loop copies the
  position state row into the position command row, cell by cell, over the length of the
  command row; the second sets the velocity command row to zero.
\<close>

definition seed_position :: "double list list \<Rightarrow> double list list \<Rightarrow> double list list" where
  "seed_position st cmds =
     fold (\<lambda>i c. set_cell c POSITION_INTERFACE_INDEX i (st ! POSITION_INTERFACE_INDEX ! i))
       [0..<length (cmds ! POSITION_INTERFACE_INDEX)] cmds"

definition zero_velocity :: "double list list \<Rightarrow> double list list" where
  "zero_velocity cmds =
     fold (\<lambda>i c. set_cell c VELOCITY_INTERFACE_INDEX i (Fin 0))
       [0..<length (cmds ! VELOCITY_INTERFACE_INDEX)] cmds"

definition perform_command_mode_switch ::
  "string list \<Rightarrow> string list \<Rightarrow> GenericSystem \<Rightarrow> return_type \<times> GenericSystem" where
  "perform_command_mode_switch start_ifs stop_ifs s =
     (let s0 = s\<lparr>position_controller_running := False, velocity_controller_running := False\<rparr>
      in if length (start_modes s0) \<noteq> 0 \<and> HW_IF_POSITION \<in> set (start_modes s0)
         then (OK, s0\<lparr>joint_commands := seed_position (joint_states s0) (joint_commands s0),
                      position_controller_running := True\<rparr>)
         else if length (start_modes s0) \<noteq> 0 \<and> HW_IF_VELOCITY \<in> set (start_modes s0)
         then (OK, s0\<lparr>joint_commands := zero_velocity (joint_commands s0),
                      velocity_controller_running := True\<rparr>)
         else (OK, s0))"

section \<open>The simulation step\<close>

text \<open>
  \<^verbatim>\<open>duration_cast<milliseconds>\<close> of a difference of nanosecond time points: integer
  division that truncates towards zero.
\<close>

definition duration_cast_ms :: "int \<Rightarrow> int" where
  "duration_cast_ms d = (if 0 \<le> d then d div 1000000 else - ((- d) div 1000000))"

definition elapsed :: "int \<Rightarrow> int \<Rightarrow> double" where
  "elapsed begin_last now = Fin (real_of_int (duration_cast_ms (now - begin_last)) / 1000)"

text \<open>The first loop of \<^verbatim>\<open>read\<close> ("apply offset to positions only"), one joint \<open>j\<close>.\<close>

definition position_step :: "GenericSystem \<Rightarrow> double \<Rightarrow> nat \<Rightarrow> double list list \<Rightarrow> double list list" where
  "position_step s p j st =
     (if \<not> isnan (joint_commands s ! POSITION_INTERFACE_INDEX ! j) \<and>
         \<not> command_propagation_disabled s \<and> position_controller_running s
      then
        let st1 = set_cell st POSITION_INTERFACE_INDEX j
                    (dadd (joint_commands s ! POSITION_INTERFACE_INDEX ! j)
                       (if custom_interface_with_following_offset s = []
                        then position_state_following_offset s else Fin 0))
        in if length (standard_interfaces s) > 1
           then set_cell st1 VELOCITY_INTERFACE_INDEX j
                  (ddiv (dsub (joint_commands s ! POSITION_INTERFACE_INDEX ! j)
                           (joint_pos_commands_old s ! j)) p)
           else st1
      else st)"

definition position_loop :: "GenericSystem \<Rightarrow> double \<Rightarrow> double list list \<Rightarrow> double list list" where
  "position_loop s p st =
     fold (position_step s p) [0..<length (st ! POSITION_INTERFACE_INDEX)] st"

text \<open>The second loop ("velocity"), one joint \<open>j\<close>; it writes states and commands.\<close>

definition velocity_step ::
  "GenericSystem \<Rightarrow> double \<Rightarrow> nat \<Rightarrow> double list list \<times> double list list
     \<Rightarrow> double list list \<times> double list list" where
  "velocity_step s p j sc =
     (let st = fst sc; cmds = snd sc in
      if \<not> isnan (cmds ! VELOCITY_INTERFACE_INDEX ! j) \<and>
         \<not> command_propagation_disabled s \<and> velocity_controller_running s
      then
        let st1 = set_cell st POSITION_INTERFACE_INDEX j
                    (dadd (st ! POSITION_INTERFACE_INDEX ! j)
                       (dmul (cmds ! VELOCITY_INTERFACE_INDEX ! j) p));
            st2 = set_cell st1 VELOCITY_INTERFACE_INDEX j (cmds ! VELOCITY_INTERFACE_INDEX ! j);
            cmds1 = set_cell cmds POSITION_INTERFACE_INDEX j (st2 ! POSITION_INTERFACE_INDEX ! j)
        in (st2, cmds1)
      else (st, cmds))"

definition velocity_loop ::
  "GenericSystem \<Rightarrow> double \<Rightarrow> double list list \<times> double list list
     \<Rightarrow> double list list \<times> double list list" where
  "velocity_loop s p sc =
     fold (velocity_step s p) [0..<length (snd sc ! VELOCITY_INTERFACE_INDEX)] sc"

text \<open>Loopback of one row, and of the standard rows from row 2 on.\<close>

definition loopback_cell :: "double list list \<Rightarrow> nat \<Rightarrow> nat \<Rightarrow> double list list \<Rightarrow> double list list" where
  "loopback_cell cmds i j st =
     (if \<not> isnan (cmds ! i ! j) then set_cell st i j (cmds ! i ! j) else st)"

definition loopback_row :: "double list list \<Rightarrow> nat \<Rightarrow> double list list \<Rightarrow> double list list" where
  "loopback_row cmds i st = fold (loopback_cell cmds i) [0..<length (st ! i)] st"

definition loopback_loop :: "double list list \<Rightarrow> double list list \<Rightarrow> double list list" where
  "loopback_loop cmds st = fold (loopback_row cmds) [2..<length st] st"

text \<open>The mimic loop: every relation in turn, and for each of them every standard row.\<close>

definition mimic_row :: "MimicJoint \<Rightarrow> nat \<Rightarrow> double list list \<Rightarrow> double list list" where
  "mimic_row mj i st =
     set_cell st i (joint_index mj) (dmul (multiplier mj) (st ! i ! mimicked_joint_index mj))"

definition mimic_apply :: "MimicJoint \<Rightarrow> double list list \<Rightarrow> double list list" where
  "mimic_apply mj st = fold (mimic_row mj) [0..<length st] st"

definition mimic_loop :: "MimicJoint list \<Rightarrow> double list list \<Rightarrow> double list list" where
  "mimic_loop ms st = fold mimic_apply ms st"

text \<open>
  The loop over the other interfaces; \<open>cmds\<close> are the joint commands as the velocity
  loop left them.
\<close>

definition other_cell ::
  "GenericSystem \<Rightarrow> double list list \<Rightarrow> nat \<Rightarrow> nat \<Rightarrow> double list list \<Rightarrow> double list list" where
  "other_cell s cmds i j ost =
     (if i = index_custom_interface_with_following_offset s \<and>
         \<not> isnan (cmds ! POSITION_INTERFACE_INDEX ! j)
      then set_cell ost i j
             (dadd (cmds ! POSITION_INTERFACE_INDEX ! j) (position_state_following_offset s))
      else if \<not> isnan (other_commands s ! i ! j)
      then set_cell ost i j (other_commands s ! i ! j)
      else ost)"

definition other_row ::
  "GenericSystem \<Rightarrow> double list list \<Rightarrow> nat \<Rightarrow> double list list \<Rightarrow> double list list" where
  "other_row s cmds i ost = fold (other_cell s cmds i) [0..<length (ost ! i)] ost"

definition other_loop :: "GenericSystem \<Rightarrow> double list list \<Rightarrow> double list list \<Rightarrow> double list list" where
  "other_loop s cmds ost = fold (other_row s cmds) [0..<length ost] ost"

definition sensor_loop :: "double list list \<Rightarrow> double list list \<Rightarrow> double list list" where
  "sensor_loop cmds st = fold (loopback_row cmds) [0..<length st] st"

text \<open>
  \<^verbatim>\<open>GenericSystem::read\<close>. The reading of the system clock is the argument \<open>now\<close>.
\<close>

definition read :: "int \<Rightarrow> GenericSystem \<Rightarrow> return_type \<times> GenericSystem" where
  "read now s =
     (let begin_last = begin_time s;
          p = elapsed begin_last now;
          st1 = position_loop s p (joint_states s);
          sc = velocity_loop s p (st1, joint_commands s);
          st2 = fst sc;
          cmds = snd sc;
          st3 = loopback_loop cmds st2;
          st4 = mimic_loop (mimic_joints s) st3;
          ost = other_loop s cmds (other_states s);
          sst = (if fake_sensor_command_interfaces s
                 then sensor_loop (sensor_fake_commands s) (sensor_states s)
                 else sensor_states s)
      in (OK, s\<lparr>begin_time := now, period := p,
                joint_states := st4, joint_commands := cmds,
                joint_pos_commands_old := cmds ! POSITION_INTERFACE_INDEX,
                other_states := ost, sensor_states := sst\<rparr>))"

text \<open>
  The joint states of a cycle as the propagation loops leave them, before the mimic loop.
\<close>

definition propagated_states :: "int \<Rightarrow> GenericSystem \<Rightarrow> double list list" where
  "propagated_states now s =
     (let p = elapsed (begin_time s) now;
          sc = velocity_loop s p (position_loop s p (joint_states s), joint_commands s)
      in loopback_loop (snd sc) (fst sc))"

section \<open>Configuration\<close>

text \<open>
  What configure can end with other than a configured backend: the error return, and the
  exceptions of \<^verbatim>\<open>std::stod\<close> and of the mimic search. The two log statements of
  configure are recorded as events.
\<close>

datatype failure = ReturnedError | InvalidArgument | MimickedJointNotFound string

datatype log_event = LogInfoCustomFound string nat | LogWarnCustomMissing string

text \<open>
  \<^verbatim>\<open>initialize_storage_vectors\<close>. \<^verbatim>\<open>std::stod\<close> is the parameter \<open>stod\<close>, with \<open>None\<close> where
  it throws; an exception ends the loops, which the \<open>option\<close> carries.
\<close>

definition resize_rows :: "nat \<Rightarrow> nat \<Rightarrow> double list list \<Rightarrow> double list list" where
  "resize_rows n nj m =
     fold (\<lambda>i m'. m'[i := resize (m' ! i) nj NaN]) [0..<n] (resize m n [])"

definition initial_parameter :: "ComponentInfo \<Rightarrow> string \<Rightarrow> string option" where
  "initial_parameter joint ifc = parameters joint (''initial_'' @ ifc)"

definition initial_value_step ::
  "(string \<Rightarrow> double option) \<Rightarrow> ComponentInfo list \<Rightarrow> string list \<Rightarrow> nat \<Rightarrow> nat
     \<Rightarrow> double list list option \<Rightarrow> double list list option" where
  "initial_value_step stod js ifs i j sto =
     (case sto of
        None \<Rightarrow> None
      | Some st \<Rightarrow>
          (case initial_parameter (js ! i) (ifs ! j) of
             None \<Rightarrow> Some st
           | Some v \<Rightarrow>
               (case stod v of
                  None \<Rightarrow> None
                | Some x \<Rightarrow> Some (set_cell st j i x))))"

definition initialize_storage_vectors ::
  "(string \<Rightarrow> double option) \<Rightarrow> ComponentInfo list \<Rightarrow> string list
     \<Rightarrow> double list list \<Rightarrow> double list list
     \<Rightarrow> (double list list \<times> double list list) option" where
  "initialize_storage_vectors stod js ifs commands states =
     (let commands' = resize_rows (length ifs) (length js) commands;
          states' = resize_rows (length ifs) (length js) states
      in map_option (Pair commands')
           (fold (\<lambda>i. fold (initial_value_step stod js ifs i) [0..<length ifs])
              [0..<length js] (Some states')))"

text \<open>"set all values without initial values to 0"\<close>

definition zero_unset_cell :: "nat \<Rightarrow> nat \<Rightarrow> double list list \<Rightarrow> double list list" where
  "zero_unset_cell i j st = (if isnan (st ! j ! i) then set_cell st j i (Fin 0) else st)"

definition zero_unset :: "nat \<Rightarrow> nat \<Rightarrow> double list list \<Rightarrow> double list list" where
  "zero_unset nj nifs st = fold (\<lambda>i. fold (zero_unset_cell i) [0..<nifs]) [0..<nj] st"

text \<open>
  Modelled from the spec: the default multiplier of a \<^verbatim>\<open>MimicJoint\<close> is declared in
  generic_system.hpp, which is not among the sources; the spec gives "an optional
  multiplier (default 1.0)". The rest of the search for mimic joints follows the source.
\<close>

definition mimic_step ::
  "(string \<Rightarrow> double option) \<Rightarrow> ComponentInfo list \<Rightarrow> nat
     \<Rightarrow> failure + MimicJoint list \<Rightarrow> failure + MimicJoint list" where
  "mimic_step stod js i acc =
     (case acc of
        Inl e \<Rightarrow> Inl e
      | Inr ms \<Rightarrow>
          (case parameters (js ! i) ''mimic'' of
             None \<Rightarrow> Inr ms
           | Some leader \<Rightarrow>
               (case first_index (\<lambda>joint_info. name joint_info = leader) js of
                  None \<Rightarrow> Inl (MimickedJointNotFound leader)
                | Some k \<Rightarrow>
                    (case parameters (js ! i) ''multiplier'' of
                       None \<Rightarrow>
                         Inr (ms @ [\<lparr>joint_index = i, mimicked_joint_index = k,
                                     multiplier = Fin 1\<rparr>])
                     | Some v \<Rightarrow>
                         (case stod v of
                            None \<Rightarrow> Inl InvalidArgument
                          | Some x \<Rightarrow>
                              Inr (ms @ [\<lparr>joint_index = i, mimicked_joint_index = k,
                                          multiplier = x\<rparr>]))))))"

definition search_mimic_joints ::
  "(string \<Rightarrow> double option) \<Rightarrow> ComponentInfo list \<Rightarrow> MimicJoint list
     \<Rightarrow> failure + MimicJoint list" where
  "search_mimic_joints stod js ms0 = fold (mimic_step stod js) [0..<length js] (Inr ms0)"

text \<open>The search for non-standard joint interfaces, and for the sensor interfaces.\<close>

definition add_other_interface :: "string list \<Rightarrow> string \<Rightarrow> string list \<Rightarrow> string list" where
  "add_other_interface std ifc others =
     (if ifc \<notin> set std then (if ifc \<notin> set others then others @ [ifc] else others)
      else others)"

definition discover_other_interfaces ::
  "string list \<Rightarrow> ComponentInfo list \<Rightarrow> string list \<Rightarrow> string list" where
  "discover_other_interfaces std js others0 =
     fold (\<lambda>joint others.
             fold (add_other_interface std) (state_interfaces joint)
               (fold (add_other_interface std) (command_interfaces joint) others))
       js others0"

definition add_sensor_interface :: "string \<Rightarrow> string list \<Rightarrow> string list" where
  "add_sensor_interface ifc acc = (if ifc \<notin> set acc then acc @ [ifc] else acc)"

definition discover_sensor_interfaces :: "ComponentInfo list \<Rightarrow> string list \<Rightarrow> string list" where
  "discover_sensor_interfaces ss acc0 =
     fold (\<lambda>sensor. fold add_sensor_interface (state_interfaces sensor)) ss acc0"

text \<open>The boolean hardware parameters, and the parameters about state following.\<close>

definition flag_parameter :: "HardwareInfo \<Rightarrow> string \<Rightarrow> bool" where
  "flag_parameter hw key =
     (case hardware_parameters hw key of
        Some v \<Rightarrow> v = ''true'' \<or> v = ''True''
      | None \<Rightarrow> False)"

definition following_offset_parameters ::
  "(string \<Rightarrow> double option) \<Rightarrow> HardwareInfo \<Rightarrow> (double \<times> string) option" where
  "following_offset_parameters stod hw =
     (case hardware_parameters hw ''position_state_following_offset'' of
        None \<Rightarrow> Some (Fin 0, [])
      | Some v \<Rightarrow>
          (case stod v of
             None \<Rightarrow> None
           | Some x \<Rightarrow>
               Some (x, case hardware_parameters hw ''custom_interface_with_following_offset'' of
                          None \<Rightarrow> []
                        | Some c \<Rightarrow> c)))"

text \<open>"when following offset is used on custom interface then find its index"\<close>

definition find_custom_interface :: "string \<Rightarrow> string list \<Rightarrow> nat \<times> log_event list" where
  "find_custom_interface custom others =
     (if custom \<noteq> []
      then (case first_index (\<lambda>x. x = custom) others of
              Some k \<Rightarrow> (k, [LogInfoCustomFound custom k])
            | None \<Rightarrow> (SIZE_MAX, [LogWarnCustomMissing custom]))
      else (SIZE_MAX, []))"

text \<open>
  \<^verbatim>\<open>GenericSystem::configure\<close>, on the object \<open>s\<close> as it was constructed. The base
  class's \<^verbatim>\<open>configure_default\<close> is not among the sources: it is the parameter
  \<open>configure_default\<close>, and it is taken to store the description in \<open>info\<close>, which is what
  configure reads afterwards. The clock reading is \<open>now\<close>. The result is the error return
  or exception, or the log and the configured object.
\<close>

definition configure ::
  "(string \<Rightarrow> double option) \<Rightarrow> (HardwareInfo \<Rightarrow> return_type) \<Rightarrow> int \<Rightarrow> HardwareInfo
     \<Rightarrow> GenericSystem \<Rightarrow> failure + (log_event list \<times> GenericSystem)" where
  "configure stod configure_default now hw s =
     (if configure_default hw \<noteq> OK then Inl ReturnedError
      else
        case following_offset_parameters stod hw of
          None \<Rightarrow> Inl InvalidArgument
        | Some (offset, custom) \<Rightarrow>
        (case initialize_storage_vectors stod (joints hw) (standard_interfaces s)
                (joint_commands s) (joint_states s) of
          None \<Rightarrow> Inl InvalidArgument
        | Some (jc, js0) \<Rightarrow>
        (case search_mimic_joints stod (joints hw) (mimic_joints s) of
          Inl e \<Rightarrow> Inl e
        | Inr ms \<Rightarrow>
        (let others = discover_other_interfaces (standard_interfaces s) (joints hw)
                        (other_interfaces s)
         in
         case initialize_storage_vectors stod (joints hw) others
                (other_commands s) (other_states s) of
          None \<Rightarrow> Inl InvalidArgument
        | Some (oc, os) \<Rightarrow>
        (let found = find_custom_interface custom others;
             sifs = discover_sensor_interfaces (sensors hw) (sensor_interfaces s)
         in
         case initialize_storage_vectors stod (joints hw) sifs
                (sensor_fake_commands s) (sensor_states s) of
          None \<Rightarrow> Inl InvalidArgument
        | Some (sc, ss) \<Rightarrow>
            Inr (snd found,
              s\<lparr>info := hw,
                status_field := CONFIGURED,
                fake_sensor_command_interfaces := flag_parameter hw ''fake_sensor_commands'',
                command_propagation_disabled := flag_parameter hw ''disable_commands'',
                position_state_following_offset := offset,
                custom_interface_with_following_offset := custom,
                index_custom_interface_with_following_offset := fst found,
                other_interfaces := others,
                sensor_interfaces := sifs,
                joint_commands := zero_velocity jc,
                joint_states :=
                  zero_unset (length (joints hw)) (length (standard_interfaces s)) js0,
                other_commands := oc,
                other_states := os,
                sensor_fake_commands := sc,
                sensor_states := ss,
                joint_pos_commands_old := jc ! POSITION_INTERFACE_INDEX,
                mimic_joints := ms,
                start_modes := replicate 6 HW_IF_POSITION,
                stop_modes := replicate 6 NONE,
                position_controller_running := False,
                velocity_controller_running := False,
                begin_time := now\<rparr>))))))"

text \<open>
  Every step of configure that can fail, other than the parsing of the following offset,
  succeeds.
\<close>

definition other_steps_succeed ::
  "(string \<Rightarrow> double option) \<Rightarrow> (HardwareInfo \<Rightarrow> return_type) \<Rightarrow> HardwareInfo
     \<Rightarrow> GenericSystem \<Rightarrow> bool" where
  "other_steps_succeed stod configure_default hw s \<longleftrightarrow>
     configure_default hw = OK \<and>
     initialize_storage_vectors stod (joints hw) (standard_interfaces s)
       (joint_commands s) (joint_states s) \<noteq> None \<and>
     \<not> isl (search_mimic_joints stod (joints hw) (mimic_joints s)) \<and>
     initialize_storage_vectors stod (joints hw)
       (discover_other_interfaces (standard_interfaces s) (joints hw) (other_interfaces s))
       (other_commands s) (other_states s) \<noteq> None \<and>
     initialize_storage_vectors stod (joints hw)
       (discover_sensor_interfaces (sensors hw) (sensor_interfaces s))
       (sensor_fake_commands s) (sensor_states s) \<noteq> None"

text \<open>The backend as constructed: no storage, no discovered interface, no mimic joint.\<close>

definition constructed :: "GenericSystem \<Rightarrow> bool" where
  "constructed s \<longleftrightarrow>
     other_interfaces s = [] \<and> sensor_interfaces s = [] \<and> mimic_joints s = [] \<and>
     joint_commands s = [] \<and> joint_states s = [] \<and>
     other_commands s = [] \<and> other_states s = [] \<and>
     sensor_fake_commands s = [] \<and> sensor_states s = [] \<and>
     joint_pos_commands_old s = []"

text \<open>
  The declared initial value of an interface of a joint: whether its parsing fails, and
  the value it gives a cell that held \<open>x\<close> (\<open>x\<close> itself where none is declared).
\<close>

definition initial_value_fails ::
  "(string \<Rightarrow> double option) \<Rightarrow> ComponentInfo \<Rightarrow> string \<Rightarrow> bool" where
  "initial_value_fails stod joint ifc \<longleftrightarrow>
     (case initial_parameter joint ifc of None \<Rightarrow> False | Some v \<Rightarrow> stod v = None)"

definition initial_value_or ::
  "(string \<Rightarrow> double option) \<Rightarrow> ComponentInfo \<Rightarrow> string \<Rightarrow> double \<Rightarrow> double" where
  "initial_value_or stod joint ifc x =
     (case initial_parameter joint ifc of
        None \<Rightarrow> x
      | Some v \<Rightarrow> (case stod v of None \<Rightarrow> x | Some y \<Rightarrow> y))"

section \<open>Storage slots\<close>

text \<open>
  \<^verbatim>\<open>get_interface\<close> gives the handle of an interface of entity \<open>vector_index\<close>: the address
  of cell (row of the name in the list, \<open>vector_index\<close>). The export functions look a joint's
  interface up in the standard list first and in the other list next. A slot exists where
  the handle points into the matrix.
\<close>

datatype catalog = Standard | Other

definition get_interface :: "string list \<Rightarrow> string \<Rightarrow> nat \<Rightarrow> (nat \<times> nat) option" where
  "get_interface interface_list interface_name vector_index =
     map_option (\<lambda>j. (j, vector_index)) (first_index (\<lambda>x. x = interface_name) interface_list)"

definition joint_handle :: "GenericSystem \<Rightarrow> nat \<Rightarrow> string \<Rightarrow> (catalog \<times> nat \<times> nat) option" where
  "joint_handle s i ifc =
     (case get_interface (standard_interfaces s) ifc i of
        Some a \<Rightarrow> Some (Standard, a)
      | None \<Rightarrow> map_option (Pair Other) (get_interface (other_interfaces s) ifc i))"

definition cell_at :: "double list list \<Rightarrow> nat \<times> nat \<Rightarrow> double option" where
  "cell_at m a = (if fst a < length m \<and> snd a < length (m ! fst a)
                  then Some (m ! fst a ! snd a) else None)"

definition state_cell :: "GenericSystem \<Rightarrow> nat \<Rightarrow> string \<Rightarrow> double option" where
  "state_cell s i ifc =
     (case joint_handle s i ifc of
        None \<Rightarrow> None
      | Some (Standard, a) \<Rightarrow> cell_at (joint_states s) a
      | Some (Other, a) \<Rightarrow> cell_at (other_states s) a)"

definition command_cell :: "GenericSystem \<Rightarrow> nat \<Rightarrow> string \<Rightarrow> double option" where
  "command_cell s i ifc =
     (case joint_handle s i ifc of
        None \<Rightarrow> None
      | Some (Standard, a) \<Rightarrow> cell_at (joint_commands s) a
      | Some (Other, a) \<Rightarrow> cell_at (other_commands s) a)"

definition has_slot :: "GenericSystem \<Rightarrow> nat \<Rightarrow> string \<Rightarrow> bool" where
  "has_slot s i ifc \<longleftrightarrow> command_cell s i ifc \<noteq> None \<and> state_cell s i ifc \<noteq> None"

section \<open>Well-formed storage\<close>

text \<open>
  The shape that configure gives the storage and that no operation changes: one row per
  interface name of the vocabulary and one column per joint, the mimic relations between
  existing joints, and every joint the follower of at most one relation. Indexing outside
  this shape is undefined behaviour in the C++ source, so the properties below are stated
  for well-formed states.
\<close>

definition rect :: "'a list list \<Rightarrow> nat \<Rightarrow> nat \<Rightarrow> bool" where
  "rect m r c \<longleftrightarrow> length m = r \<and> (\<forall>row \<in> set m. length row = c)"

text \<open>Two matrices of the same shape.\<close>

definition same_shape :: "'a list list \<Rightarrow> 'a list list \<Rightarrow> bool" where
  "same_shape m m' \<longleftrightarrow> length m = length m' \<and> (\<forall>k. length (m ! k) = length (m' ! k))"

definition well_formed :: "GenericSystem \<Rightarrow> bool" where
  "well_formed s \<longleftrightarrow>
     (let n = length (joints (info s)) in
        2 \<le> length (standard_interfaces s) \<and>
        rect (joint_commands s) (length (standard_interfaces s)) n \<and>
        rect (joint_states s) (length (standard_interfaces s)) n \<and>
        length (joint_pos_commands_old s) = n \<and>
        rect (other_commands s) (length (other_interfaces s)) n \<and>
        rect (other_states s) (length (other_interfaces s)) n \<and>
        rect (sensor_fake_commands s) (length (sensor_interfaces s)) n \<and>
        rect (sensor_states s) (length (sensor_interfaces s)) n \<and>
        (\<forall>m \<in> set (mimic_joints s). joint_index m < n \<and> mimicked_joint_index m < n) \<and>
        distinct (map joint_index (mimic_joints s)))"

text \<open>At most one of the two control modes is active.\<close>

definition modes_exclusive :: "GenericSystem \<Rightarrow> bool" where
  "modes_exclusive s \<longleftrightarrow>
     \<not> (position_controller_running s \<and> velocity_controller_running s)"

text \<open>Joint \<open>j\<close> is the follower of some mimic relation.\<close>

definition is_follower :: "GenericSystem \<Rightarrow> nat \<Rightarrow> bool" where
  "is_follower s j \<longleftrightarrow> (\<exists>m \<in> set (mimic_joints s). joint_index m = j)"

text \<open>
  The leader of relation \<open>k\<close> is settled when relation \<open>k\<close> is applied: neither relation
  \<open>k\<close> itself nor a relation applied after it writes the leader's column.
\<close>

definition leader_settled :: "GenericSystem \<Rightarrow> nat \<Rightarrow> bool" where
  "leader_settled s k \<longleftrightarrow>
     (\<forall>m \<in> set (drop k (mimic_joints s)).
        joint_index m \<noteq> mimicked_joint_index (mimic_joints s ! k))"

text \<open>
  What a mode-switch request says about the joint group: it names a joint when it holds
  the joint's position or velocity interface; it mixes modes when it holds the position
  interface of one joint and the velocity interface of one joint; it names a proper
  nonempty subset when it names some joint and leaves some joint unnamed.
\<close>

definition names_joint :: "string list \<Rightarrow> ComponentInfo \<Rightarrow> bool" where
  "names_joint keys joint \<longleftrightarrow>
     interface_key joint HW_IF_POSITION \<in> set keys \<or>
     interface_key joint HW_IF_VELOCITY \<in> set keys"

definition mixes_modes :: "string list \<Rightarrow> ComponentInfo list \<Rightarrow> bool" where
  "mixes_modes keys js \<longleftrightarrow>
     (\<exists>joint \<in> set js. interface_key joint HW_IF_POSITION \<in> set keys) \<and>
     (\<exists>joint \<in> set js. interface_key joint HW_IF_VELOCITY \<in> set keys)"

definition names_partial_group :: "string list \<Rightarrow> ComponentInfo list \<Rightarrow> bool" where
  "names_partial_group keys js \<longleftrightarrow>
     (\<exists>joint \<in> set js. names_joint keys joint) \<and>
     (\<exists>joint \<in> set js. \<not> names_joint keys joint)"

section \<open>The double-buffered controller list\<close>
















section \<open>Example backends\<close>

text \<open>
  A backend with two joints, three standard interface rows and one other interface, in
  the shape configure gives it; the properties below are evaluated on variants of it.
\<close>

definition demo_joint :: "string \<Rightarrow> ComponentInfo" where
  "demo_joint n =
     \<lparr>name = n,
      command_interfaces = [''position'', ''velocity'', ''effort'', ''load''],
      state_interfaces = [''position'', ''velocity'', ''effort'', ''load''],
      parameters = Map.empty\<rparr>"

definition demo :: GenericSystem where
  "demo =
     \<lparr>info = \<lparr>hardware_parameters = Map.empty,
               joints = [demo_joint ''J1'', demo_joint ''J2''],
               sensors = []\<rparr>,
      status_field = CONFIGURED,
      fake_sensor_command_interfaces = False,
      command_propagation_disabled = False,
      position_state_following_offset = Fin (1 / 2),
      custom_interface_with_following_offset = [],
      index_custom_interface_with_following_offset = SIZE_MAX,
      standard_interfaces = [''position'', ''velocity'', ''effort''],
      other_interfaces = [''load''],
      sensor_interfaces = [],
      joint_commands = [[Fin 1, Fin 7], [Fin 2, Fin 1], [NaN, Fin 9]],
      joint_states = [[Fin 5, Fin 0], [Fin 0, Fin 0], [Fin 0, Fin 0]],
      other_commands = [[NaN, Fin 4]],
      other_states = [[Fin 0, Fin 0]],
      sensor_fake_commands = [],
      sensor_states = [],
      joint_pos_commands_old = [Fin 0, Fin 7],
      mimic_joints = [],
      start_modes = [],
      stop_modes = [],
      position_controller_running = False,
      velocity_controller_running = False,
      begin_time = 0,
      period = Fin 0\<rparr>"

text \<open>Joint 1 (J2) mimics joint 0 (J1) with multiplier -1.\<close>

definition demo_mimic :: "MimicJoint list" where
  "demo_mimic = [\<lparr>joint_index = 1, mimicked_joint_index = 0, multiplier = Fin (- 1)\<rparr>]"

definition demo_velocity :: GenericSystem where
  "demo_velocity = demo\<lparr>velocity_controller_running := True\<rparr>"

definition demo_velocity_mimic :: GenericSystem where
  "demo_velocity_mimic = demo\<lparr>mimic_joints := demo_mimic, velocity_controller_running := True\<rparr>"

definition demo_position :: GenericSystem where
  "demo_position = demo\<lparr>position_controller_running := True\<rparr>"

definition demo_position_mimic :: GenericSystem where
  "demo_position_mimic = demo\<lparr>mimic_joints := demo_mimic, position_controller_running := True\<rparr>"

definition demo_custom :: GenericSystem where
  "demo_custom = demo\<lparr>custom_interface_with_following_offset := ''load'',
                       index_custom_interface_with_following_offset := 0,
                       position_controller_running := True\<rparr>"

definition demo_disabled_mimic :: GenericSystem where
  "demo_disabled_mimic = demo\<lparr>command_propagation_disabled := True, mimic_joints := demo_mimic\<rparr>"

text \<open>
  Three joints in a chain, no controller running: joint 0 mimics joint 1 and joint 1
  mimics joint 2, in the order in which configure finds the relations.
\<close>

definition demo_chain :: GenericSystem where
  "demo_chain =
     demo\<lparr>info := \<lparr>hardware_parameters = Map.empty,
                     joints = [demo_joint ''J1'', demo_joint ''J2'', demo_joint ''J3''],
                     sensors = []\<rparr>,
          joint_commands := [[NaN, NaN, NaN], [Fin 0, Fin 0, Fin 0], [NaN, NaN, NaN]],
          joint_states := [[Fin 1, Fin 2, Fin 3], [Fin 0, Fin 0, Fin 0], [Fin 0, Fin 0, Fin 0]],
          other_commands := [[NaN, NaN, NaN]],
          other_states := [[Fin 0, Fin 0, Fin 0]],
          joint_pos_commands_old := [NaN, NaN, NaN],
          mimic_joints := [\<lparr>joint_index = 0, mimicked_joint_index = 1, multiplier = Fin 1\<rparr>,
                           \<lparr>joint_index = 1, mimicked_joint_index = 2, multiplier = Fin 1\<rparr>]\<rparr>"

text \<open>
  The same chain with command propagation disabled, and a chain in the other
  direction: joint 1 mimics joint 0 twofold and joint 2 mimics joint 1 threefold, so
  that every leader is settled before its follower is written.
\<close>

definition demo_chain_disabled :: GenericSystem where
  "demo_chain_disabled = demo_chain\<lparr>command_propagation_disabled := True\<rparr>"

definition demo_forward :: GenericSystem where
  "demo_forward =
     demo_chain\<lparr>mimic_joints :=
                  [\<lparr>joint_index = 1, mimicked_joint_index = 0, multiplier = Fin 2\<rparr>,
                   \<lparr>joint_index = 2, mimicked_joint_index = 1, multiplier = Fin 3\<rparr>]\<rparr>"

text \<open>
  A description to configure: one joint that declares position as command interface
  and position and load as state interfaces, with an initial value for load, and a
  following offset bound to a custom interface no joint declares. \<open>demo_stod\<close> is
  \<^verbatim>\<open>std::stod\<close> on the strings that occur; the constructed backend has the standard
  interfaces position, velocity, acceleration, effort.
\<close>

definition demo_stod :: "string \<Rightarrow> double option" where
  "demo_stod v =
     (if v = ''0.5'' then Some (Fin (1 / 2))
      else if v = ''2'' then Some (Fin 2)
      else None)"

definition demo_configure_default :: "HardwareInfo \<Rightarrow> return_type" where
  "demo_configure_default hw = OK"

definition demo_hw :: HardwareInfo where
  "demo_hw =
     \<lparr>hardware_parameters =
        [''position_state_following_offset'' \<mapsto> ''0.5'',
         ''custom_interface_with_following_offset'' \<mapsto> ''missing''],
      joints = [\<lparr>name = ''J1'',
                 command_interfaces = [''position''],
                 state_interfaces = [''position'', ''load''],
                 parameters = [''initial_load'' \<mapsto> ''2'']\<rparr>],
      sensors = []\<rparr>"

definition constructed_backend :: GenericSystem where
  "constructed_backend =
     \<lparr>info = \<lparr>hardware_parameters = Map.empty, joints = [], sensors = []\<rparr>,
      status_field = UNKNOWN,
      fake_sensor_command_interfaces = False,
      command_propagation_disabled = False,
      position_state_following_offset = Fin 0,
      custom_interface_with_following_offset = [],
      index_custom_interface_with_following_offset = 0,
      standard_interfaces = [''position'', ''velocity'', ''acceleration'', ''effort''],
      other_interfaces = [],
      sensor_interfaces = [],
      joint_commands = [],
      joint_states = [],
      other_commands = [],
      other_states = [],
      sensor_fake_commands = [],
      sensor_states = [],
      joint_pos_commands_old = [],
      mimic_joints = [],
      start_modes = [],
      stop_modes = [],
      position_controller_running = False,
      velocity_controller_running = False,
      begin_time = 0,
      period = Fin 0\<rparr>"

definition demo_configured :: "failure + (log_event list \<times> GenericSystem)" where
  "demo_configured = configure demo_stod demo_configure_default 0 demo_hw constructed_backend"

section \<open>Loops and matrix cells\<close>

lemma fold_upt_invariant:
  assumes "a \<le> n" and "P a x"
    and "\<And>k y. a \<le> k \<Longrightarrow> k < n \<Longrightarrow> P k y \<Longrightarrow> P (Suc k) (f k y)"
  shows "P n (fold f [a..<n] x)"
  using assms
proof (induction n rule: dec_induct)
  case base
  then show ?case by simp
next
  case (step m)
  have "P m (fold f [a..<m] x)"
    using step.IH step.prems by simp
  then have "P (Suc m) (f m (fold f [a..<m] x))"
    using step.prems(2) step.hyps by simp
  then show ?case
    using step.hyps by simp
qed

lemma length_set_cell [simp]: "length (set_cell m i j v) = length m"
  by (simp add: set_cell_def)

lemma length_row_set_cell [simp]: "length (set_cell m i j v ! k) = length (m ! k)"
  by (cases "i < length m"; cases "k = i") (simp_all add: set_cell_def list_update_beyond)

lemma nth_set_cell:
  "i < length m \<Longrightarrow> j < length (m ! i) \<Longrightarrow>
   set_cell m i j v ! k ! l = (if k = i \<and> l = j then v else m ! k ! l)"
  by (cases "k = i"; cases "l = j") (simp_all add: set_cell_def)

lemma set_cell_other_row: "k \<noteq> i \<Longrightarrow> set_cell m i j v ! k = m ! k"
  by (simp add: set_cell_def)

lemma set_cell_other_column: "l \<noteq> j \<Longrightarrow> set_cell m i j v ! k ! l = m ! k ! l"
  by (cases "i < length m"; cases "k = i") (simp_all add: set_cell_def list_update_beyond)

lemma rect_set_cell [simp]: "rect (set_cell m i j v) r c = rect m r c"
proof -
  have "(\<forall>k < length m. length (set_cell m i j v ! k) = c) = (\<forall>k < length m. length (m ! k) = c)"
    by simp
  then show ?thesis
    unfolding rect_def by (simp add: all_set_conv_all_nth)
qed

lemma rect_row: "rect m r c \<Longrightarrow> i < r \<Longrightarrow> length (m ! i) = c"
  by (simp add: rect_def)

lemma rect_length: "rect m r c \<Longrightarrow> length m = r"
  by (simp add: rect_def)

lemma same_shape_refl [simp]: "same_shape m m"
  by (simp add: same_shape_def)

lemma same_shape_set_cell [simp]: "same_shape (set_cell m i j v) m' = same_shape m m'"
  by (simp add: same_shape_def)

lemma same_shape_rect: "same_shape m m' \<Longrightarrow> rect m' r c \<Longrightarrow> rect m r c"
  by (simp add: same_shape_def rect_def all_set_conv_all_nth)

lemma same_shape_length: "same_shape m m' \<Longrightarrow> length m = length m'"
  by (simp add: same_shape_def)

lemma same_shape_row: "same_shape m m' \<Longrightarrow> length (m ! k) = length (m' ! k)"
  by (simp add: same_shape_def)

text \<open>
  A loop over the cells of one row, each cell written (or left) independently of the
  matrix, and a loop of such row loops over the rows from \<open>a\<close> on.
\<close>

lemma row_loop_cells:
  assumes i: "i < length st"
    and step: "\<And>j y. f j y = (if c j then set_cell y i j (v j) else y)"
  shows "same_shape (fold f [0..<length (st ! i)] st) st \<and>
         (\<forall>r l. fold f [0..<length (st ! i)] st ! r ! l =
            (if r = i \<and> l < length (st ! i) \<and> c l then v l else st ! r ! l))"
proof -
  let ?P = "\<lambda>k y. same_shape y st \<and>
              (\<forall>r l. y ! r ! l = (if r = i \<and> l < k \<and> c l then v l else st ! r ! l))"
  have "?P (length (st ! i)) (fold f [0..<length (st ! i)] st)"
  proof (rule fold_upt_invariant[where P = ?P and a = 0])
    show "?P 0 st" by simp
  next
    fix k y
    assume k: "k < length (st ! i)" and y: "?P k y"
    from y i k have iy: "i < length y" and ky: "k < length (y ! i)"
      by (simp_all add: same_shape_def)
    have cells: "\<And>r l. set_cell y i k (v k) ! r ! l = (if r = i \<and> l = k then v k else y ! r ! l)"
      using iy ky by (simp add: nth_set_cell)
    show "?P (Suc k) (f k y)"
      using y cells by (auto simp: step less_Suc_eq)
  qed simp
  then show ?thesis
    by simp
qed

lemma matrix_loop_cells:
  assumes rows: "\<And>i y. i < length y \<Longrightarrow>
            same_shape (g i y) y \<and>
            (\<forall>r l. g i y ! r ! l =
               (if r = i \<and> l < length (y ! i) \<and> c i l then v i l else y ! r ! l))"
    and a: "a \<le> length st"
  shows "same_shape (fold g [a..<length st] st) st \<and>
         (\<forall>r l. fold g [a..<length st] st ! r ! l =
            (if a \<le> r \<and> r < length st \<and> l < length (st ! r) \<and> c r l then v r l
             else st ! r ! l))"
proof -
  let ?P = "\<lambda>k y. same_shape y st \<and>
              (\<forall>r l. y ! r ! l =
                 (if a \<le> r \<and> r < k \<and> l < length (st ! r) \<and> c r l then v r l
                  else st ! r ! l))"
  have "?P (length st) (fold g [a..<length st] st)"
  proof (rule fold_upt_invariant[where P = ?P and a = a])
    show "?P a st" by auto
  next
    fix k y
    assume ak: "a \<le> k" and k: "k < length st" and y: "?P k y"
    from y k have ky: "k < length y" and len: "\<And>r. length (y ! r) = length (st ! r)"
      by (simp_all add: same_shape_def)
    from rows[OF ky] have sh: "same_shape (g k y) y"
      and cells: "\<And>r l. g k y ! r ! l =
                    (if r = k \<and> l < length (y ! k) \<and> c k l then v k l else y ! r ! l)"
      by simp_all
    from sh y have "same_shape (g k y) st"
      by (simp add: same_shape_def)
    moreover have "\<forall>r l. g k y ! r ! l =
                 (if a \<le> r \<and> r < Suc k \<and> l < length (st ! r) \<and> c r l then v r l
                  else st ! r ! l)"
      using y ak by (auto simp: cells len less_Suc_eq)
    ultimately show "?P (Suc k) (g k y)"
      by simp
  qed (rule a)
  then show ?thesis
    by simp
qed

section \<open>Properties of perform\<close>

lemma seed_position_cells:
  assumes "0 < length cmds"
  shows "same_shape (seed_position st cmds) cmds \<and>
         (\<forall>r j. seed_position st cmds ! r ! j =
            (if r = 0 \<and> j < length (cmds ! 0) then st ! 0 ! j else cmds ! r ! j))"
proof -
  let ?P = "\<lambda>k c. same_shape c cmds \<and>
              (\<forall>r j. c ! r ! j = (if r = 0 \<and> j < k then st ! 0 ! j else cmds ! r ! j))"
  have "?P (length (cmds ! 0)) (fold (\<lambda>i c. set_cell c 0 i (st ! 0 ! i)) [0..<length (cmds ! 0)] cmds)"
  proof (rule fold_upt_invariant[where P = ?P and a = 0])
    show "?P 0 cmds" by simp
  next
    fix k y
    assume k: "k < length (cmds ! 0)" and y: "?P k y"
    from y assms have "0 < length y" "k < length (y ! 0)"
      using k by (simp_all add: same_shape_def)
    then have "\<And>r j. set_cell y 0 k (st ! 0 ! k) ! r ! j =
                 (if r = 0 \<and> j = k then st ! 0 ! k else y ! r ! j)"
      by (simp add: nth_set_cell)
    with y show "?P (Suc k) (set_cell y 0 k (st ! 0 ! k))"
      by (auto simp: less_Suc_eq)
  qed simp
  then show ?thesis
    by (simp add: seed_position_def POSITION_INTERFACE_INDEX_def)
qed

lemma zero_velocity_cells:
  assumes "1 < length cmds"
  shows "same_shape (zero_velocity cmds) cmds \<and>
         (\<forall>r j. zero_velocity cmds ! r ! j =
            (if r = 1 \<and> j < length (cmds ! 1) then Fin 0 else cmds ! r ! j))"
proof -
  let ?P = "\<lambda>k c. same_shape c cmds \<and>
              (\<forall>r j. c ! r ! j = (if r = 1 \<and> j < k then Fin 0 else cmds ! r ! j))"
  have "?P (length (cmds ! 1)) (fold (\<lambda>i c. set_cell c 1 i (Fin 0)) [0..<length (cmds ! 1)] cmds)"
  proof (rule fold_upt_invariant[where P = ?P and a = 0])
    show "?P 0 cmds" by simp
  next
    fix k y
    assume k: "k < length (cmds ! 1)" and y: "?P k y"
    from y assms have "1 < length y" "k < length (y ! 1)"
      using k by (simp_all add: same_shape_def)
    then have "\<And>r j. set_cell y 1 k (Fin 0) ! r ! j =
                 (if r = 1 \<and> j = k then Fin 0 else y ! r ! j)"
      by (simp add: nth_set_cell)
    with y show "?P (Suc k) (set_cell y 1 k (Fin 0))"
      by (auto simp: less_Suc_eq)
  qed simp
  then show ?thesis
    by (simp add: zero_velocity_def VELOCITY_INTERFACE_INDEX_def)
qed

lemma well_formed_commands:
  assumes "well_formed s"
  shows "0 < length (joint_commands s)"
    and "1 < length (joint_commands s)"
    and "length (joint_commands s ! 0) = length (joints (info s))"
    and "length (joint_commands s ! 1) = length (joints (info s))"
    and "r < length (joint_commands s) \<Longrightarrow> length (joint_commands s ! r) = length (joints (info s))"
    and "length (joint_commands s) = length (standard_interfaces s)"
proof -
  from assms have rc: "rect (joint_commands s) (length (standard_interfaces s)) (length (joints (info s)))"
    and two: "2 \<le> length (standard_interfaces s)"
    by (simp_all add: well_formed_def Let_def)
  from rc show len: "length (joint_commands s) = length (standard_interfaces s)"
    by (simp add: rect_def)
  from len two show "0 < length (joint_commands s)" "1 < length (joint_commands s)"
    by linarith+
  from rc two show "length (joint_commands s ! 0) = length (joints (info s))"
    by (intro rect_row[OF rc]) linarith
  from rc two show "length (joint_commands s ! 1) = length (joints (info s))"
    by (intro rect_row[OF rc]) linarith
  from rc len show "r < length (joint_commands s) \<Longrightarrow> length (joint_commands s ! r) = length (joints (info s))"
    by (simp add: rect_row)
qed

lemma well_formed_states:
  assumes "well_formed s"
  shows "0 < length (joint_states s)"
    and "1 < length (joint_states s)"
    and "length (joint_states s ! 0) = length (joints (info s))"
    and "length (joint_states s ! 1) = length (joints (info s))"
    and "r < length (joint_states s) \<Longrightarrow> length (joint_states s ! r) = length (joints (info s))"
    and "length (joint_states s) = length (standard_interfaces s)"
proof -
  from assms have rc: "rect (joint_states s) (length (standard_interfaces s)) (length (joints (info s)))"
    and two: "2 \<le> length (standard_interfaces s)"
    by (simp_all add: well_formed_def Let_def)
  from rc show len: "length (joint_states s) = length (standard_interfaces s)"
    by (simp add: rect_def)
  from len two show "0 < length (joint_states s)" "1 < length (joint_states s)"
    by linarith+
  from rc two show "length (joint_states s ! 0) = length (joints (info s))"
    by (intro rect_row[OF rc]) linarith
  from rc two show "length (joint_states s ! 1) = length (joints (info s))"
    by (intro rect_row[OF rc]) linarith
  from rc len show "r < length (joint_states s) \<Longrightarrow> length (joint_states s ! r) = length (joints (info s))"
    by (simp add: rect_row)
qed

lemma perform_modes_exclusive:
  "modes_exclusive (snd (perform_command_mode_switch start_ifs stop_ifs s))"
  by (simp add: perform_command_mode_switch_def modes_exclusive_def Let_def)

lemma perform_well_formed:
  assumes "well_formed s"
  shows "well_formed (snd (perform_command_mode_switch start_ifs stop_ifs s))"
proof -
  let ?n = "length (joints (info s))"
  from assms have rc: "rect (joint_commands s) (length (standard_interfaces s)) ?n"
    by (simp add: well_formed_def Let_def)
  have s1: "same_shape (seed_position (joint_states s) (joint_commands s)) (joint_commands s)"
    using seed_position_cells[OF well_formed_commands(1)[OF assms]] by simp
  have s2: "same_shape (zero_velocity (joint_commands s)) (joint_commands s)"
    using zero_velocity_cells[OF well_formed_commands(2)[OF assms]] by simp
  have "rect (seed_position (joint_states s) (joint_commands s)) (length (standard_interfaces s)) ?n"
    "rect (zero_velocity (joint_commands s)) (length (standard_interfaces s)) ?n"
    using same_shape_rect[OF s1 rc] same_shape_rect[OF s2 rc] by simp_all
  with assms show ?thesis
    by (simp add: perform_command_mode_switch_def Let_def well_formed_def)
qed

text \<open>
  C7. Every perform call returns success and first clears both mode flags; then, if the
  start modes contain position, every joint's position command becomes its current
  position state and position-hold is the one active mode; otherwise, if they contain
  velocity, every joint's velocity command becomes zero and velocity-zero is the one
  active mode; otherwise both flags stay cleared and no command changes. The state
  values are never changed.
\<close>

theorem perform_command_mode_switch_applies:
  assumes "well_formed s"
  shows "fst (perform_command_mode_switch start_ifs stop_ifs s) = OK \<and>
         joint_states (snd (perform_command_mode_switch start_ifs stop_ifs s)) = joint_states s \<and>
         (HW_IF_POSITION \<in> set (start_modes s) \<longrightarrow>
            position_controller_running (snd (perform_command_mode_switch start_ifs stop_ifs s)) \<and>
            \<not> velocity_controller_running (snd (perform_command_mode_switch start_ifs stop_ifs s)) \<and>
            (\<forall>j < length (joints (info s)).
               joint_commands (snd (perform_command_mode_switch start_ifs stop_ifs s))
                 ! POSITION_INTERFACE_INDEX ! j
               = joint_states s ! POSITION_INTERFACE_INDEX ! j)) \<and>
         (HW_IF_POSITION \<notin> set (start_modes s) \<and> HW_IF_VELOCITY \<in> set (start_modes s) \<longrightarrow>
            velocity_controller_running (snd (perform_command_mode_switch start_ifs stop_ifs s)) \<and>
            \<not> position_controller_running (snd (perform_command_mode_switch start_ifs stop_ifs s)) \<and>
            (\<forall>j < length (joints (info s)).
               joint_commands (snd (perform_command_mode_switch start_ifs stop_ifs s))
                 ! VELOCITY_INTERFACE_INDEX ! j
               = Fin 0)) \<and>
         (HW_IF_POSITION \<notin> set (start_modes s) \<and> HW_IF_VELOCITY \<notin> set (start_modes s) \<longrightarrow>
            \<not> position_controller_running (snd (perform_command_mode_switch start_ifs stop_ifs s)) \<and>
            \<not> velocity_controller_running (snd (perform_command_mode_switch start_ifs stop_ifs s)) \<and>
            joint_commands (snd (perform_command_mode_switch start_ifs stop_ifs s)) = joint_commands s)"
proof -
  let ?n = "length (joints (info s))"
  note wc = well_formed_commands[OF assms]
  have pos: "\<forall>j < ?n. seed_position (joint_states s) (joint_commands s) ! 0 ! j
                      = joint_states s ! 0 ! j"
    using seed_position_cells[OF wc(1), of "joint_states s"] wc(3) by simp
  have vel: "\<forall>j < ?n. zero_velocity (joint_commands s) ! 1 ! j = Fin 0"
    using zero_velocity_cells[OF wc(2)] wc(4) by simp
  show ?thesis
    using pos vel
    by (auto simp: perform_command_mode_switch_def Let_def
                   POSITION_INTERFACE_INDEX_def VELOCITY_INTERFACE_INDEX_def)
qed

theorem perform_command_mode_switch_applies_witness:
  "well_formed (demo\<lparr>start_modes := [HW_IF_POSITION, HW_IF_POSITION]\<rparr>) \<and>
   joint_commands (snd (perform_command_mode_switch [] []
       (demo\<lparr>start_modes := [HW_IF_POSITION, HW_IF_POSITION]\<rparr>))) ! 0 ! 0 = Fin 5 \<and>
   position_controller_running (snd (perform_command_mode_switch [] []
       (demo\<lparr>start_modes := [HW_IF_POSITION, HW_IF_POSITION]\<rparr>))) \<and>
   joint_commands (snd (perform_command_mode_switch [] []
       (demo\<lparr>start_modes := [HW_IF_VELOCITY, HW_IF_VELOCITY]\<rparr>))) ! 1 ! 0 = Fin 0 \<and>
   velocity_controller_running (snd (perform_command_mode_switch [] []
       (demo\<lparr>start_modes := [HW_IF_VELOCITY, HW_IF_VELOCITY]\<rparr>))) \<and>
   \<not> position_controller_running (snd (perform_command_mode_switch [] []
       (demo\<lparr>start_modes := [], position_controller_running := True\<rparr>)))"
proof -
  let ?sp = "demo\<lparr>start_modes := [HW_IF_POSITION, HW_IF_POSITION]\<rparr>"
  let ?sv = "demo\<lparr>start_modes := [HW_IF_VELOCITY, HW_IF_VELOCITY]\<rparr>"
  let ?sn = "demo\<lparr>start_modes := [], position_controller_running := True\<rparr>"
  have wp: "well_formed ?sp" and wv: "well_formed ?sv" and wn: "well_formed ?sn"
    by (simp_all add: well_formed_def demo_def rect_def)
  have n: "0 < length (joints (info ?sp))" "0 < length (joints (info ?sv))"
    by (simp_all add: demo_def)
  have mp: "HW_IF_POSITION \<in> set (start_modes ?sp)"
    and mv: "HW_IF_POSITION \<notin> set (start_modes ?sv) \<and> HW_IF_VELOCITY \<in> set (start_modes ?sv)"
    and mn: "HW_IF_POSITION \<notin> set (start_modes ?sn) \<and> HW_IF_VELOCITY \<notin> set (start_modes ?sn)"
    by (simp_all add: HW_IF_POSITION_def HW_IF_VELOCITY_def)
  note P = perform_command_mode_switch_applies[OF wp, of "[]" "[]"]
  note V = perform_command_mode_switch_applies[OF wv, of "[]" "[]"]
  note N = perform_command_mode_switch_applies[OF wn, of "[]" "[]"]
  from P mp have p1: "position_controller_running (snd (perform_command_mode_switch [] [] ?sp))"
    and p2: "\<forall>j < length (joints (info ?sp)).
               joint_commands (snd (perform_command_mode_switch [] [] ?sp))
                 ! POSITION_INTERFACE_INDEX ! j
               = joint_states ?sp ! POSITION_INTERFACE_INDEX ! j"
    by blast+
  from p2 n(1) have "joint_commands (snd (perform_command_mode_switch [] [] ?sp))
                 ! POSITION_INTERFACE_INDEX ! 0
               = joint_states ?sp ! POSITION_INTERFACE_INDEX ! 0"
    by blast
  moreover have "joint_states ?sp ! POSITION_INTERFACE_INDEX ! 0 = Fin 5"
    by (simp add: demo_def POSITION_INTERFACE_INDEX_def)
  ultimately have p3: "joint_commands (snd (perform_command_mode_switch [] [] ?sp)) ! 0 ! 0 = Fin 5"
    by (simp add: POSITION_INTERFACE_INDEX_def)
  from V mv have v1: "velocity_controller_running (snd (perform_command_mode_switch [] [] ?sv))"
    and v2: "\<forall>j < length (joints (info ?sv)).
               joint_commands (snd (perform_command_mode_switch [] [] ?sv))
                 ! VELOCITY_INTERFACE_INDEX ! j = Fin 0"
    by blast+
  from v2 n(2) have "joint_commands (snd (perform_command_mode_switch [] [] ?sv))
                 ! VELOCITY_INTERFACE_INDEX ! 0 = Fin 0"
    by blast
  then have v3: "joint_commands (snd (perform_command_mode_switch [] [] ?sv)) ! 1 ! 0 = Fin 0"
    by (simp add: VELOCITY_INTERFACE_INDEX_def)
  from N mn have n1: "\<not> position_controller_running (snd (perform_command_mode_switch [] [] ?sn))"
    by blast
  from wp p3 p1 v3 v1 n1 show ?thesis
    by blast
qed

section \<open>The loops of the simulation step\<close>

lemma position_loop_cells:
  assumes len: "Suc 0 < length st" and rows: "length (st ! Suc 0) = length (st ! 0)"
  shows "same_shape (position_loop s p st) st \<and>
         (\<forall>r l. position_loop s p st ! r ! l =
            (if l < length (st ! 0) \<and> \<not> isnan (joint_commands s ! 0 ! l) \<and>
                \<not> command_propagation_disabled s \<and> position_controller_running s
             then (if r = 0
                   then dadd (joint_commands s ! 0 ! l)
                          (if custom_interface_with_following_offset s = []
                           then position_state_following_offset s else Fin 0)
                   else if r = Suc 0 \<and> Suc 0 < length (standard_interfaces s)
                   then ddiv (dsub (joint_commands s ! 0 ! l) (joint_pos_commands_old s ! l)) p
                   else st ! r ! l)
             else st ! r ! l))"
proof -
  let ?act = "\<lambda>l. \<not> isnan (joint_commands s ! 0 ! l) \<and>
                \<not> command_propagation_disabled s \<and> position_controller_running s"
  let ?a = "\<lambda>l. dadd (joint_commands s ! 0 ! l)
                          (if custom_interface_with_following_offset s = []
                           then position_state_following_offset s else Fin 0)"
  let ?b = "\<lambda>l. ddiv (dsub (joint_commands s ! 0 ! l) (joint_pos_commands_old s ! l)) p"
  let ?P = "\<lambda>k y. same_shape y st \<and>
              (\<forall>r l. y ! r ! l =
                 (if l < k \<and> ?act l
                  then (if r = 0 then ?a l
                        else if r = Suc 0 \<and> Suc 0 < length (standard_interfaces s) then ?b l
                        else st ! r ! l)
                  else st ! r ! l))"
  have "?P (length (st ! 0)) (fold (position_step s p) [0..<length (st ! 0)] st)"
  proof (rule fold_upt_invariant[where P = ?P and a = 0])
    show "?P 0 st" by simp
  next
    fix k y
    assume k: "k < length (st ! 0)" and y: "?P k y"
    from len have len0: "0 < length st" by linarith
    from y len len0 rows k have y0: "0 < length y" and y1: "Suc 0 < length y"
      and k0: "k < length (y ! 0)" and k1: "k < length (y ! Suc 0)"
      by (simp_all add: same_shape_def)
    have c1: "\<And>v r l. set_cell y 0 k v ! r ! l = (if r = 0 \<and> l = k then v else y ! r ! l)"
      using y0 k0 by (simp add: nth_set_cell)
    have c2: "\<And>v w r l. set_cell (set_cell y 0 k v) (Suc 0) k w ! r ! l =
                 (if r = Suc 0 \<and> l = k then w else set_cell y 0 k v ! r ! l)"
      using y1 k1 by (simp add: nth_set_cell)
    have sh: "same_shape (position_step s p k y) st"
      using y by (simp add: position_step_def Let_def
                            POSITION_INTERFACE_INDEX_def VELOCITY_INTERFACE_INDEX_def)
    have "\<forall>r l. position_step s p k y ! r ! l =
                 (if l < Suc k \<and> ?act l
                  then (if r = 0 then ?a l
                        else if r = Suc 0 \<and> Suc 0 < length (standard_interfaces s) then ?b l
                        else st ! r ! l)
                  else st ! r ! l)"
      using y
      by (auto simp: position_step_def Let_def c1 c2 less_Suc_eq
                     POSITION_INTERFACE_INDEX_def VELOCITY_INTERFACE_INDEX_def)
    with sh show "?P (Suc k) (position_step s p k y)"
      by simp
  qed simp
  then show ?thesis
    by (simp add: position_loop_def POSITION_INTERFACE_INDEX_def)
qed

lemma velocity_loop_cells:
  assumes len: "Suc 0 < length st" "Suc 0 < length cmds"
    and rows: "length (st ! 0) = length (cmds ! Suc 0)" "length (st ! Suc 0) = length (cmds ! Suc 0)"
              "length (cmds ! 0) = length (cmds ! Suc 0)"
  shows "same_shape (fst (velocity_loop s p (st, cmds))) st \<and>
         same_shape (snd (velocity_loop s p (st, cmds))) cmds \<and>
         (\<forall>r l. fst (velocity_loop s p (st, cmds)) ! r ! l =
            (if l < length (cmds ! Suc 0) \<and> \<not> isnan (cmds ! Suc 0 ! l) \<and>
                \<not> command_propagation_disabled s \<and> velocity_controller_running s
             then (if r = 0 then dadd (st ! 0 ! l) (dmul (cmds ! Suc 0 ! l) p)
                   else if r = Suc 0 then cmds ! Suc 0 ! l
                   else st ! r ! l)
             else st ! r ! l)) \<and>
         (\<forall>r l. snd (velocity_loop s p (st, cmds)) ! r ! l =
            (if l < length (cmds ! Suc 0) \<and> \<not> isnan (cmds ! Suc 0 ! l) \<and>
                \<not> command_propagation_disabled s \<and> velocity_controller_running s \<and> r = 0
             then dadd (st ! 0 ! l) (dmul (cmds ! Suc 0 ! l) p)
             else cmds ! r ! l))"
proof -
  let ?act = "\<lambda>l. \<not> isnan (cmds ! Suc 0 ! l) \<and>
                \<not> command_propagation_disabled s \<and> velocity_controller_running s"
  let ?a = "\<lambda>l. dadd (st ! 0 ! l) (dmul (cmds ! Suc 0 ! l) p)"
  let ?P = "\<lambda>k yc. same_shape (fst yc) st \<and> same_shape (snd yc) cmds \<and>
              (\<forall>r l. fst yc ! r ! l =
                 (if l < k \<and> ?act l
                  then (if r = 0 then ?a l else if r = Suc 0 then cmds ! Suc 0 ! l else st ! r ! l)
                  else st ! r ! l)) \<and>
              (\<forall>r l. snd yc ! r ! l =
                 (if l < k \<and> ?act l \<and> r = 0 then ?a l else cmds ! r ! l))"
  have "?P (length (cmds ! Suc 0)) (fold (velocity_step s p) [0..<length (cmds ! Suc 0)] (st, cmds))"
  proof (rule fold_upt_invariant[where P = ?P and a = 0])
    show "?P 0 (st, cmds)" by simp
  next
    fix k yc
    assume k: "k < length (cmds ! Suc 0)" and yc: "?P k yc"
    obtain y c where [simp]: "yc = (y, c)" by (cases yc)
    from len have len0: "0 < length st" "0 < length cmds" by linarith+
    from yc len len0 rows k have y0: "0 < length y" and y1: "Suc 0 < length y"
      and c0: "0 < length c"
      and k0: "k < length (y ! 0)" and k1: "k < length (y ! Suc 0)" and kc: "k < length (c ! 0)"
      by (simp_all add: same_shape_def)
    from yc have yk: "y ! 0 ! k = st ! 0 ! k" and ck: "c ! Suc 0 ! k = cmds ! Suc 0 ! k"
      by simp_all
    let ?y1 = "set_cell y 0 k (?a k)"
    let ?y2 = "set_cell ?y1 (Suc 0) k (cmds ! Suc 0 ! k)"
    have c1: "\<And>r l. ?y1 ! r ! l = (if r = 0 \<and> l = k then ?a k else y ! r ! l)"
      using y0 k0 by (simp add: nth_set_cell)
    have c2: "\<And>r l. ?y2 ! r ! l = (if r = Suc 0 \<and> l = k then cmds ! Suc 0 ! k else ?y1 ! r ! l)"
      using y1 k1 by (simp add: nth_set_cell)
    have c3: "\<And>v r l. set_cell c 0 k v ! r ! l = (if r = 0 \<and> l = k then v else c ! r ! l)"
      using c0 kc by (simp add: nth_set_cell)
    have step: "velocity_step s p k yc =
                  (if ?act k then (?y2, set_cell c 0 k (?y2 ! 0 ! k)) else (y, c))"
      using yk ck
      by (simp add: velocity_step_def Let_def
                    POSITION_INTERFACE_INDEX_def VELOCITY_INTERFACE_INDEX_def)
    have v: "?y2 ! 0 ! k = ?a k"
      by (simp add: c1 c2)
    show "?P (Suc k) (velocity_step s p k yc)"
    proof (cases "?act k")
      case True
      then have eq: "velocity_step s p k yc = (?y2, set_cell c 0 k (?a k))"
        using step v by simp
      have "same_shape ?y2 st" "same_shape (set_cell c 0 k (?a k)) cmds"
        using yc by simp_all
      moreover have "\<forall>r l. ?y2 ! r ! l =
                 (if l < Suc k \<and> ?act l
                  then (if r = 0 then ?a l else if r = Suc 0 then cmds ! Suc 0 ! l else st ! r ! l)
                  else st ! r ! l)"
        using yc True by (auto simp: c1 c2 less_Suc_eq)
      moreover have "\<forall>r l. set_cell c 0 k (?a k) ! r ! l =
                 (if l < Suc k \<and> ?act l \<and> r = 0 then ?a l else cmds ! r ! l)"
        using yc True by (auto simp: c3 less_Suc_eq)
      ultimately show ?thesis
        unfolding eq by simp
    next
      case False
      have eq: "velocity_step s p k yc = (y, c)"
        unfolding step using False by (rule if_not_P)
      show ?thesis
        unfolding eq using yc False by (auto simp: less_Suc_eq)
    qed
  qed simp
  then show ?thesis
    by (simp add: velocity_loop_def VELOCITY_INTERFACE_INDEX_def)
qed

lemma loopback_row_cells:
  assumes "i < length st"
  shows "same_shape (loopback_row cmds i st) st \<and>
         (\<forall>r l. loopback_row cmds i st ! r ! l =
            (if r = i \<and> l < length (st ! i) \<and> \<not> isnan (cmds ! i ! l) then cmds ! i ! l
             else st ! r ! l))"
  unfolding loopback_row_def
  by (rule row_loop_cells[OF assms]) (simp add: loopback_cell_def)

lemma loopback_loop_cells:
  assumes "2 \<le> length st"
  shows "same_shape (loopback_loop cmds st) st \<and>
         (\<forall>r l. loopback_loop cmds st ! r ! l =
            (if 2 \<le> r \<and> r < length st \<and> l < length (st ! r) \<and> \<not> isnan (cmds ! r ! l)
             then cmds ! r ! l else st ! r ! l))"
  unfolding loopback_loop_def
  by (rule matrix_loop_cells[where c = "\<lambda>r l. \<not> isnan (cmds ! r ! l)" and v = "\<lambda>r l. cmds ! r ! l",
                             OF loopback_row_cells assms])

lemma sensor_loop_cells:
  "same_shape (sensor_loop cmds st) st \<and>
   (\<forall>r l. sensor_loop cmds st ! r ! l =
      (if r < length st \<and> l < length (st ! r) \<and> \<not> isnan (cmds ! r ! l)
       then cmds ! r ! l else st ! r ! l))"
  unfolding sensor_loop_def
  using matrix_loop_cells[where c = "\<lambda>r l. \<not> isnan (cmds ! r ! l)" and v = "\<lambda>r l. cmds ! r ! l"
                            and a = 0 and st = st and g = "loopback_row cmds",
                          OF loopback_row_cells]
  by simp

lemma other_row_cells:
  assumes "i < length ost"
  shows "same_shape (other_row s cmds i ost) ost \<and>
         (\<forall>r l. other_row s cmds i ost ! r ! l =
            (if r = i \<and> l < length (ost ! i) \<and>
                (i = index_custom_interface_with_following_offset s \<and> \<not> isnan (cmds ! 0 ! l) \<or>
                 \<not> isnan (other_commands s ! i ! l))
             then (if i = index_custom_interface_with_following_offset s \<and> \<not> isnan (cmds ! 0 ! l)
                   then dadd (cmds ! 0 ! l) (position_state_following_offset s)
                   else other_commands s ! i ! l)
             else ost ! r ! l))"
  unfolding other_row_def
  by (rule row_loop_cells[OF assms])
     (simp add: other_cell_def POSITION_INTERFACE_INDEX_def)

lemma other_loop_cells:
  "same_shape (other_loop s cmds ost) ost \<and>
   (\<forall>r l. other_loop s cmds ost ! r ! l =
      (if r < length ost \<and> l < length (ost ! r)
       then (if r = index_custom_interface_with_following_offset s \<and> \<not> isnan (cmds ! 0 ! l)
             then dadd (cmds ! 0 ! l) (position_state_following_offset s)
             else if \<not> isnan (other_commands s ! r ! l) then other_commands s ! r ! l
             else ost ! r ! l)
       else ost ! r ! l))"
proof -
  let ?c = "\<lambda>r l. r = index_custom_interface_with_following_offset s \<and> \<not> isnan (cmds ! 0 ! l) \<or>
                 \<not> isnan (other_commands s ! r ! l)"
  let ?v = "\<lambda>r l. if r = index_custom_interface_with_following_offset s \<and> \<not> isnan (cmds ! 0 ! l)
                   then dadd (cmds ! 0 ! l) (position_state_following_offset s)
                   else other_commands s ! r ! l"
  have "same_shape (fold (other_row s cmds) [0..<length ost] ost) ost \<and>
         (\<forall>r l. fold (other_row s cmds) [0..<length ost] ost ! r ! l =
            (if 0 \<le> r \<and> r < length ost \<and> l < length (ost ! r) \<and> ?c r l then ?v r l
             else ost ! r ! l))"
    by (rule matrix_loop_cells[where c = ?c and v = ?v, OF other_row_cells]) simp_all
  then show ?thesis
    unfolding other_loop_def by auto
qed

section \<open>The mimic loop\<close>

lemma mimic_apply_cells:
  assumes "\<forall>r < length st. joint_index mj < length (st ! r)"
  shows "same_shape (mimic_apply mj st) st \<and>
         (\<forall>r l. mimic_apply mj st ! r ! l =
            (if r < length st \<and> l = joint_index mj
             then dmul (multiplier mj) (st ! r ! mimicked_joint_index mj)
             else st ! r ! l))"
proof -
  let ?P = "\<lambda>k y. same_shape y st \<and>
              (\<forall>r l. y ! r ! l =
                 (if r < k \<and> l = joint_index mj
                  then dmul (multiplier mj) (st ! r ! mimicked_joint_index mj)
                  else st ! r ! l))"
  have "?P (length st) (fold (mimic_row mj) [0..<length st] st)"
  proof (rule fold_upt_invariant[where P = ?P and a = 0])
    show "?P 0 st" by simp
  next
    fix k y
    assume k: "k < length st" and y: "?P k y"
    from y k assms have ky: "k < length y" and fy: "joint_index mj < length (y ! k)"
      by (simp_all add: same_shape_def)
    from y have rd: "y ! k ! mimicked_joint_index mj = st ! k ! mimicked_joint_index mj"
      by simp
    have cells: "\<And>v r l. set_cell y k (joint_index mj) v ! r ! l =
                   (if r = k \<and> l = joint_index mj then v else y ! r ! l)"
      using ky fy by (simp add: nth_set_cell)
    show "?P (Suc k) (mimic_row mj k y)"
      using y by (auto simp: mimic_row_def cells rd less_Suc_eq)
  qed simp
  then show ?thesis
    by (simp add: mimic_apply_def)
qed

lemma rect_columns: "rect st R n \<Longrightarrow> j < n \<Longrightarrow> \<forall>r < length st. j < length (st ! r)"
  by (simp add: rect_def)

lemma mimic_loop_shape:
  assumes "rect st R n" and "\<forall>m \<in> set ms. joint_index m < n"
  shows "same_shape (mimic_loop ms st) st"
  using assms
proof (induction ms arbitrary: st)
  case Nil
  then show ?case by (simp add: mimic_loop_def)
next
  case (Cons m ms)
  from Cons.prems have f: "\<forall>r < length st. joint_index m < length (st ! r)"
    by (simp add: rect_columns)
  then have sh: "same_shape (mimic_apply m st) st"
    using mimic_apply_cells by blast
  then have "rect (mimic_apply m st) R n"
    using Cons.prems(1) by (rule same_shape_rect)
  then have "same_shape (mimic_loop ms (mimic_apply m st)) (mimic_apply m st)"
    using Cons.IH Cons.prems(2) by simp
  with sh show ?case
    by (simp add: mimic_loop_def same_shape_def)
qed

lemma mimic_loop_rect:
  assumes "rect st R n" and "\<forall>m \<in> set ms. joint_index m < n"
  shows "rect (mimic_loop ms st) R n"
  using same_shape_rect[OF mimic_loop_shape[OF assms] assms(1)] .

lemma mimic_loop_other_column:
  assumes "rect st R n" and "\<forall>m \<in> set ms. joint_index m < n"
    and "\<forall>m \<in> set ms. joint_index m \<noteq> j"
  shows "mimic_loop ms st ! r ! j = st ! r ! j"
  using assms
proof (induction ms arbitrary: st)
  case Nil
  then show ?case by (simp add: mimic_loop_def)
next
  case (Cons m ms)
  from Cons.prems have f: "\<forall>r < length st. joint_index m < length (st ! r)"
    by (simp add: rect_columns)
  then have sh: "same_shape (mimic_apply m st) st"
    and cell: "mimic_apply m st ! r ! j = st ! r ! j"
    using mimic_apply_cells[OF f] Cons.prems(3) by simp_all
  from sh have "rect (mimic_apply m st) R n"
    using Cons.prems(1) by (rule same_shape_rect)
  then have "mimic_loop ms (mimic_apply m st) ! r ! j = mimic_apply m st ! r ! j"
    using Cons.IH Cons.prems(2,3) by simp
  with cell show ?case
    by (simp add: mimic_loop_def)
qed

lemma mimic_loop_append:
  "mimic_loop (xs @ ys) st = mimic_loop ys (mimic_loop xs st)"
  by (simp add: mimic_loop_def)

lemma mimic_loop_follower:
  assumes rect: "rect st R n" and idx: "\<forall>m \<in> set ms. joint_index m < n"
    and dist: "distinct (map joint_index ms)" and k: "k < length ms" and r: "r < R"
  shows "mimic_loop ms st ! r ! joint_index (ms ! k) =
           dmul (multiplier (ms ! k))
             (mimic_loop (take k ms) st ! r ! mimicked_joint_index (ms ! k))"
proof -
  let ?xs = "take k ms" and ?m = "ms ! k" and ?ys = "drop (Suc k) ms"
  have split: "ms = ?xs @ ?m # ?ys"
    using k by (rule id_take_nth_drop)
  let ?st1 = "mimic_loop ?xs st"
  have idx_xs: "\<forall>m \<in> set ?xs. joint_index m < n"
    using idx by (meson in_set_takeD)
  have idx_ys: "\<forall>m \<in> set ?ys. joint_index m < n"
    using idx by (meson in_set_dropD)
  have idx_m: "joint_index ?m < n"
    using idx k by simp
  have r1: "rect ?st1 R n"
    using rect idx_xs by (rule mimic_loop_rect)
  then have f: "\<forall>r < length ?st1. joint_index ?m < length (?st1 ! r)"
    using idx_m by (rule rect_columns)
  have sh2: "same_shape (mimic_apply ?m ?st1) ?st1"
    and cell: "mimic_apply ?m ?st1 ! r ! joint_index ?m =
                 dmul (multiplier ?m) (?st1 ! r ! mimicked_joint_index ?m)"
    using mimic_apply_cells[OF f] r rect_length[OF r1] by simp_all
  have r2: "rect (mimic_apply ?m ?st1) R n"
    using sh2 r1 by (rule same_shape_rect)
  have "distinct (map joint_index (?xs @ ?m # ?ys))"
    using dist split by simp
  then have "joint_index ?m \<notin> joint_index ` set ?ys"
    by simp
  then have later: "\<forall>m \<in> set ?ys. joint_index m \<noteq> joint_index ?m"
    by (metis imageI)
  have "mimic_loop ms st = mimic_loop ?ys (mimic_apply ?m ?st1)"
    by (subst split) (simp add: mimic_loop_def)
  then have "mimic_loop ms st ! r ! joint_index ?m = mimic_apply ?m ?st1 ! r ! joint_index ?m"
    using mimic_loop_other_column[OF r2 idx_ys later] by simp
  with cell show ?thesis
    by simp
qed

lemma mimic_loop_forward:
  assumes rect: "rect st R n" and idx: "\<forall>m \<in> set ms. joint_index m < n"
    and dist: "distinct (map joint_index ms)" and k: "k < length ms" and r: "r < R"
    and settled: "\<forall>m \<in> set (drop k ms). joint_index m \<noteq> mimicked_joint_index (ms ! k)"
  shows "mimic_loop ms st ! r ! joint_index (ms ! k) =
           dmul (multiplier (ms ! k)) (mimic_loop ms st ! r ! mimicked_joint_index (ms ! k))"
proof -
  let ?xs = "take k ms" and ?ys = "drop k ms"
  have "mimic_loop (?xs @ ?ys) st = mimic_loop ?ys (mimic_loop ?xs st)"
    by (rule mimic_loop_append)
  then have e: "mimic_loop ms st = mimic_loop ?ys (mimic_loop ?xs st)"
    by simp
  have idx_xs: "\<forall>m \<in> set ?xs. joint_index m < n"
    using idx by (meson in_set_takeD)
  have idx_ys: "\<forall>m \<in> set ?ys. joint_index m < n"
    using idx by (meson in_set_dropD)
  have r1: "rect (mimic_loop ?xs st) R n"
    using rect idx_xs by (rule mimic_loop_rect)
  have "mimic_loop ?ys (mimic_loop ?xs st) ! r ! mimicked_joint_index (ms ! k) =
          mimic_loop ?xs st ! r ! mimicked_joint_index (ms ! k)"
    using r1 idx_ys settled by (rule mimic_loop_other_column)
  with mimic_loop_follower[OF rect idx dist k r] show ?thesis
    by (simp add: e)
qed
section \<open>The state after a simulation step\<close>

lemma read_result [simp]:
  "fst (read now s) = OK"
  "period (snd (read now s)) = elapsed (begin_time s) now"
  "begin_time (snd (read now s)) = now"
  by (simp_all add: read_def Let_def)

lemma read_states:
  "joint_states (snd (read now s)) = mimic_loop (mimic_joints s) (propagated_states now s)"
  "joint_commands (snd (read now s)) =
     snd (velocity_loop s (elapsed (begin_time s) now)
            (position_loop s (elapsed (begin_time s) now) (joint_states s), joint_commands s))"
  "other_states (snd (read now s)) =
     other_loop s (joint_commands (snd (read now s))) (other_states s)"
  "joint_pos_commands_old (snd (read now s)) = joint_commands (snd (read now s)) ! 0"
  by (simp_all add: read_def propagated_states_def Let_def POSITION_INTERFACE_INDEX_def)

lemma read_frame [simp]:
  "info (snd (read now s)) = info s"
  "mimic_joints (snd (read now s)) = mimic_joints s"
  "standard_interfaces (snd (read now s)) = standard_interfaces s"
  "other_interfaces (snd (read now s)) = other_interfaces s"
  "sensor_interfaces (snd (read now s)) = sensor_interfaces s"
  "other_commands (snd (read now s)) = other_commands s"
  "sensor_fake_commands (snd (read now s)) = sensor_fake_commands s"
  "command_propagation_disabled (snd (read now s)) = command_propagation_disabled s"
  "position_controller_running (snd (read now s)) = position_controller_running s"
  "velocity_controller_running (snd (read now s)) = velocity_controller_running s"
  "position_state_following_offset (snd (read now s)) = position_state_following_offset s"
  "custom_interface_with_following_offset (snd (read now s)) =
     custom_interface_with_following_offset s"
  "index_custom_interface_with_following_offset (snd (read now s)) =
     index_custom_interface_with_following_offset s"
  "start_modes (snd (read now s)) = start_modes s"
  "stop_modes (snd (read now s)) = stop_modes s"
  by (simp_all add: read_def Let_def)

lemma propagation_cells:
  fixes s :: GenericSystem and now :: int
  assumes wf: "well_formed s"
  defines "n \<equiv> length (joints (info s))"
    and "p \<equiv> elapsed (begin_time s) now"
  defines "pos \<equiv> \<lambda>l. l < n \<and> \<not> isnan (joint_commands s ! 0 ! l) \<and>
                     \<not> command_propagation_disabled s \<and> position_controller_running s"
    and "vel \<equiv> \<lambda>l. l < n \<and> \<not> isnan (joint_commands s ! Suc 0 ! l) \<and>
                     \<not> command_propagation_disabled s \<and> velocity_controller_running s"
  defines "base \<equiv> \<lambda>l. if pos l
                       then dadd (joint_commands s ! 0 ! l)
                              (if custom_interface_with_following_offset s = []
                               then position_state_following_offset s else Fin 0)
                       else joint_states s ! 0 ! l"
  shows "same_shape (propagated_states now s) (joint_states s)"
    and "same_shape (joint_commands (snd (read now s))) (joint_commands s)"
    and "propagated_states now s ! 0 ! l =
           (if vel l then dadd (base l) (dmul (joint_commands s ! Suc 0 ! l) p) else base l)"
    and "propagated_states now s ! Suc 0 ! l =
           (if vel l then joint_commands s ! Suc 0 ! l
            else if pos l
            then ddiv (dsub (joint_commands s ! 0 ! l) (joint_pos_commands_old s ! l)) p
            else joint_states s ! Suc 0 ! l)"
    and "2 \<le> r \<Longrightarrow> r < length (standard_interfaces s) \<Longrightarrow> l < n \<Longrightarrow>
         propagated_states now s ! r ! l =
           (if \<not> isnan (joint_commands s ! r ! l) then joint_commands s ! r ! l
            else joint_states s ! r ! l)"
    and "joint_commands (snd (read now s)) ! r ! l =
           (if vel l \<and> r = 0 then dadd (base l) (dmul (joint_commands s ! Suc 0 ! l) p)
            else joint_commands s ! r ! l)"
proof -
  let ?st = "joint_states s" and ?cmds = "joint_commands s"
  let ?st1 = "position_loop s p ?st"
  let ?sc = "velocity_loop s p (?st1, ?cmds)"
  note ws = well_formed_states[OF wf] and wc = well_formed_commands[OF wf]
  from wf have std: "Suc 0 < length (standard_interfaces s)"
    by (simp add: well_formed_def Let_def)
  have st_rows: "length (?st ! 0) = n" "length (?st ! Suc 0) = n"
    and cmd_rows: "length (?cmds ! 0) = n" "length (?cmds ! Suc 0) = n"
    using ws(3,4) wc(3,4) by (simp_all add: n_def)
  have len_st: "Suc 0 < length ?st" and len_cmds: "Suc 0 < length ?cmds"
    using ws(2) wc(2) by simp_all
  have P: "same_shape ?st1 ?st \<and>
         (\<forall>r l. ?st1 ! r ! l =
            (if l < length (?st ! 0) \<and> \<not> isnan (?cmds ! 0 ! l) \<and>
                \<not> command_propagation_disabled s \<and> position_controller_running s
             then (if r = 0
                   then dadd (?cmds ! 0 ! l)
                          (if custom_interface_with_following_offset s = []
                           then position_state_following_offset s else Fin 0)
                   else if r = Suc 0 \<and> Suc 0 < length (standard_interfaces s)
                   then ddiv (dsub (?cmds ! 0 ! l) (joint_pos_commands_old s ! l)) p
                   else ?st ! r ! l)
             else ?st ! r ! l))"
    by (rule position_loop_cells[OF len_st]) (simp add: st_rows)
  then have sh1: "same_shape ?st1 ?st"
    and c1_0: "\<And>l. ?st1 ! 0 ! l = base l"
    and c1_1: "\<And>l. ?st1 ! Suc 0 ! l =
                 (if pos l
                  then ddiv (dsub (?cmds ! 0 ! l) (joint_pos_commands_old s ! l)) p
                  else ?st ! Suc 0 ! l)"
    and c1_r: "\<And>r l. 2 \<le> r \<Longrightarrow> ?st1 ! r ! l = ?st ! r ! l"
    using std by (simp_all add: st_rows base_def pos_def)
  have len_st1: "Suc 0 < length ?st1"
    and st1_rows: "length (?st1 ! 0) = length (?cmds ! Suc 0)"
                  "length (?st1 ! Suc 0) = length (?cmds ! Suc 0)"
    using sh1 len_st st_rows cmd_rows by (simp_all add: same_shape_def)
  have V: "same_shape (fst ?sc) ?st1 \<and> same_shape (snd ?sc) ?cmds \<and>
         (\<forall>r l. fst ?sc ! r ! l =
            (if l < length (?cmds ! Suc 0) \<and> \<not> isnan (?cmds ! Suc 0 ! l) \<and>
                \<not> command_propagation_disabled s \<and> velocity_controller_running s
             then (if r = 0 then dadd (?st1 ! 0 ! l) (dmul (?cmds ! Suc 0 ! l) p)
                   else if r = Suc 0 then ?cmds ! Suc 0 ! l
                   else ?st1 ! r ! l)
             else ?st1 ! r ! l)) \<and>
         (\<forall>r l. snd ?sc ! r ! l =
            (if l < length (?cmds ! Suc 0) \<and> \<not> isnan (?cmds ! Suc 0 ! l) \<and>
                \<not> command_propagation_disabled s \<and> velocity_controller_running s \<and> r = 0
             then dadd (?st1 ! 0 ! l) (dmul (?cmds ! Suc 0 ! l) p)
             else ?cmds ! r ! l))"
    by (rule velocity_loop_cells[OF len_st1 len_cmds st1_rows]) (simp add: cmd_rows)
  then have sh2: "same_shape (fst ?sc) ?st1" and shc: "same_shape (snd ?sc) ?cmds"
    and c2_0: "\<And>l. fst ?sc ! 0 ! l =
                 (if vel l then dadd (base l) (dmul (?cmds ! Suc 0 ! l) p) else base l)"
    and c2_1: "\<And>l. fst ?sc ! Suc 0 ! l =
                 (if vel l then ?cmds ! Suc 0 ! l else ?st1 ! Suc 0 ! l)"
    and c2_r: "\<And>r l. 2 \<le> r \<Longrightarrow> fst ?sc ! r ! l = ?st1 ! r ! l"
    and cc: "\<And>r l. snd ?sc ! r ! l =
                 (if vel l \<and> r = 0 then dadd (base l) (dmul (?cmds ! Suc 0 ! l) p)
                  else ?cmds ! r ! l)"
    by (simp_all add: cmd_rows vel_def c1_0)
  have sh12: "same_shape (fst ?sc) ?st"
    using sh1 sh2 by (simp add: same_shape_def)
  then have len2: "2 \<le> length (fst ?sc)"
    using len_st by (simp add: same_shape_def)
  note L = loopback_loop_cells[OF len2, of "snd ?sc"]
  have pseq: "propagated_states now s = loopback_loop (snd ?sc) (fst ?sc)"
    by (simp add: propagated_states_def Let_def p_def)
  show "same_shape (propagated_states now s) ?st"
    using L sh12 by (simp add: pseq same_shape_def)
  show "same_shape (joint_commands (snd (read now s))) ?cmds"
    using shc by (simp add: p_def read_states)
  show "propagated_states now s ! 0 ! l =
           (if vel l then dadd (base l) (dmul (?cmds ! Suc 0 ! l) p) else base l)"
    using L by (simp add: pseq c2_0)
  show "propagated_states now s ! Suc 0 ! l =
           (if vel l then ?cmds ! Suc 0 ! l
            else if pos l
            then ddiv (dsub (?cmds ! 0 ! l) (joint_pos_commands_old s ! l)) p
            else ?st ! Suc 0 ! l)"
    using L by (simp add: pseq c2_1 c1_1)
  show "joint_commands (snd (read now s)) ! r ! l =
           (if vel l \<and> r = 0 then dadd (base l) (dmul (?cmds ! Suc 0 ! l) p)
            else ?cmds ! r ! l)"
    using cc by (simp add: p_def read_states)
  show "propagated_states now s ! r ! l =
           (if \<not> isnan (?cmds ! r ! l) then ?cmds ! r ! l else ?st ! r ! l)"
    if r2: "2 \<le> r" and rR: "r < length (standard_interfaces s)" and ln: "l < n"
  proof -
    have rlen: "r < length (fst ?sc)"
      using sh12 rR ws(6) by (simp add: same_shape_def)
    have "length (fst ?sc ! r) = length (?st ! r)"
      using sh12 by (simp add: same_shape_def)
    also have "\<dots> = n"
      using ws(5)[of r] rR ws(6) by (simp add: n_def)
    finally have llen: "l < length (fst ?sc ! r)"
      using ln by simp
    have r0: "r \<noteq> 0"
      using r2 by simp
    show ?thesis
      using L r2 rlen llen by (simp add: pseq cc r0 c2_r c1_r)
  qed
qed

lemma read_well_formed:
  assumes "well_formed s"
  shows "well_formed (snd (read now s))"
proof -
  let ?n = "length (joints (info s))"
  from assms have rs: "rect (joint_states s) (length (standard_interfaces s)) ?n"
    and rc: "rect (joint_commands s) (length (standard_interfaces s)) ?n"
    and ro: "rect (other_states s) (length (other_interfaces s)) ?n"
    and rn: "rect (sensor_states s) (length (sensor_interfaces s)) ?n"
    and idx: "\<forall>m \<in> set (mimic_joints s). joint_index m < ?n"
    by (simp_all add: well_formed_def Let_def)
  have r1: "rect (propagated_states now s) (length (standard_interfaces s)) ?n"
    using propagation_cells(1)[OF assms] rs by (rule same_shape_rect)
  have a: "rect (joint_states (snd (read now s))) (length (standard_interfaces s)) ?n"
    using mimic_loop_rect[OF r1 idx] by (simp add: read_states)
  have b: "rect (joint_commands (snd (read now s))) (length (standard_interfaces s)) ?n"
    using propagation_cells(2)[OF assms] rc by (rule same_shape_rect)
  have c: "rect (other_states (snd (read now s))) (length (other_interfaces s)) ?n"
    using same_shape_rect[OF conjunct1[OF other_loop_cells] ro] by (simp add: read_states(3))
  have d: "rect (sensor_states (snd (read now s))) (length (sensor_interfaces s)) ?n"
    using same_shape_rect[OF conjunct1[OF sensor_loop_cells] rn] rn
    by (simp add: read_def Let_def)
  from assms have "2 \<le> length (standard_interfaces s)"
    by (simp add: well_formed_def Let_def)
  then have "0 < length (standard_interfaces s)"
    by linarith
  then have e: "length (joint_commands (snd (read now s)) ! 0) = ?n"
    by (rule rect_row[OF b])
  then have e': "length (joint_pos_commands_old (snd (read now s))) = ?n"
    by (simp add: read_states(4))
  show ?thesis
    using assms a b c d e'
    unfolding well_formed_def Let_def
    by simp
qed

lemma read_modes_exclusive:
  "modes_exclusive (snd (read now s)) = modes_exclusive s"
  by (simp add: modes_exclusive_def)

lemma read_other_loopback:
  assumes wf: "well_formed t"
    and i: "i < length (other_interfaces t)" and j: "j < length (joints (info t))"
    and idx: "index_custom_interface_with_following_offset t \<noteq> i"
  shows "other_states (snd (read now t)) ! i ! j =
           (if \<not> isnan (other_commands t ! i ! j) then other_commands t ! i ! j
            else other_states t ! i ! j)"
proof -
  from wf have ro: "rect (other_states t) (length (other_interfaces t)) (length (joints (info t)))"
    by (simp add: well_formed_def Let_def)
  from ro i j have il: "i < length (other_states t)" and jl: "j < length (other_states t ! i)"
    by (simp_all add: rect_def)
  show ?thesis
    unfolding read_states(3)
    using il jl idx
          other_loop_cells[of t "joint_commands (snd (read now t))" "other_states t"]
    by auto
qed

section \<open>Properties of the simulation step\<close>

lemma read_states_non_follower:
  assumes wf: "well_formed s" and nf: "\<not> is_follower s j"
  shows "joint_states (snd (read now s)) ! r ! j = propagated_states now s ! r ! j"
proof -
  let ?n = "length (joints (info s))"
  from wf have rs: "rect (joint_states s) (length (standard_interfaces s)) ?n"
    and idx: "\<forall>m \<in> set (mimic_joints s). joint_index m < ?n"
    by (simp_all add: well_formed_def Let_def)
  have r1: "rect (propagated_states now s) (length (standard_interfaces s)) ?n"
    using propagation_cells(1)[OF wf] rs by (rule same_shape_rect)
  from nf have "\<forall>m \<in> set (mimic_joints s). joint_index m \<noteq> j"
    by (simp add: is_follower_def)
  with r1 idx show ?thesis
    by (simp add: read_states(1) mimic_loop_other_column)
qed

lemma read_states_follower:
  assumes wf: "well_formed s" and k: "k < length (mimic_joints s)"
    and r: "r < length (standard_interfaces s)"
  shows "joint_states (snd (read now s)) ! r ! joint_index (mimic_joints s ! k) =
           dmul (multiplier (mimic_joints s ! k))
             (mimic_loop (take k (mimic_joints s)) (propagated_states now s)
                ! r ! mimicked_joint_index (mimic_joints s ! k))"
proof -
  let ?n = "length (joints (info s))"
  from wf have rs: "rect (joint_states s) (length (standard_interfaces s)) ?n"
    and idx: "\<forall>m \<in> set (mimic_joints s). joint_index m < ?n"
    and dist: "distinct (map joint_index (mimic_joints s))"
    by (simp_all add: well_formed_def Let_def)
  have r1: "rect (propagated_states now s) (length (standard_interfaces s)) ?n"
    using propagation_cells(1)[OF wf] rs by (rule same_shape_rect)
  show ?thesis
    unfolding read_states(1)
    using r1 idx dist k r by (rule mimic_loop_follower)
qed

lemma mimic_prefix_leader:
  assumes wf: "well_formed s" and nf: "\<not> is_follower s l"
  shows "mimic_loop (take k (mimic_joints s)) (propagated_states now s) ! r ! l =
           propagated_states now s ! r ! l"
proof -
  let ?n = "length (joints (info s))"
  from wf have rs: "rect (joint_states s) (length (standard_interfaces s)) ?n"
    and idx: "\<forall>m \<in> set (mimic_joints s). joint_index m < ?n"
    by (simp_all add: well_formed_def Let_def)
  have r1: "rect (propagated_states now s) (length (standard_interfaces s)) ?n"
    using propagation_cells(1)[OF wf] rs by (rule same_shape_rect)
  have i1: "\<forall>m \<in> set (take k (mimic_joints s)). joint_index m < ?n"
    using idx by (meson in_set_takeD)
  from nf have "\<forall>m \<in> set (mimic_joints s). joint_index m \<noteq> l"
    by (simp add: is_follower_def)
  then have i2: "\<forall>m \<in> set (take k (mimic_joints s)). joint_index m \<noteq> l"
    by (meson in_set_takeD)
  show ?thesis
    using r1 i1 i2 by (rule mimic_loop_other_column)
qed

text \<open>
  C1, as amended. For every joint that is not the follower of a mimic relation, in a
  well-formed backend with velocity control active (velocity controller running,
  position controller not running, command propagation not disabled) and a velocity
  command v that is not NaN, one simulation step gives new position state = old
  position state + v * dt, new velocity state = v, and a position command equal to the
  new position state, where dt is the period the step computes: the number of whole
  milliseconds between the previous step and this one, divided by 1000. Fractions of a
  millisecond are dropped, so dt can be 0 although time has passed, and no condition on
  dt is needed.
\<close>

theorem velocity_step_integrates:
  assumes "well_formed s" and "modes_exclusive s"
    and "velocity_controller_running s" and "\<not> command_propagation_disabled s"
    and "j < length (joints (info s))"
    and "\<not> isnan (joint_commands s ! VELOCITY_INTERFACE_INDEX ! j)"
    and "\<not> is_follower s j"
  shows "joint_states (snd (read now s)) ! POSITION_INTERFACE_INDEX ! j =
           dadd (joint_states s ! POSITION_INTERFACE_INDEX ! j)
             (dmul (joint_commands s ! VELOCITY_INTERFACE_INDEX ! j) (period (snd (read now s)))) \<and>
         joint_states (snd (read now s)) ! VELOCITY_INTERFACE_INDEX ! j =
           joint_commands s ! VELOCITY_INTERFACE_INDEX ! j \<and>
         joint_commands (snd (read now s)) ! POSITION_INTERFACE_INDEX ! j =
           joint_states (snd (read now s)) ! POSITION_INTERFACE_INDEX ! j \<and>
         period (snd (read now s)) =
           Fin (real_of_int (duration_cast_ms (now - begin_time s)) / 1000)"
proof -
  from assms(2,3) have np: "\<not> position_controller_running s"
    by (simp add: modes_exclusive_def)
  note nf = read_states_non_follower[OF assms(1) assms(7)]
  note pc = propagation_cells[OF assms(1)]
  show ?thesis
    using assms(3-6) np
    by (simp add: nf pc(3,4,6) POSITION_INTERFACE_INDEX_def VELOCITY_INTERFACE_INDEX_def
                  elapsed_def)
qed

text \<open>
  C2, as amended. The step has no guard on the elapsed time: for every joint that is
  not a mimic follower, with position control active and a position command that is
  not NaN, the velocity state becomes (position command - previous position command) / dt
  in every cycle, whatever dt is (zero and negative included), and the position
  command is remembered as the previous one for the next cycle.
\<close>

theorem velocity_derivation_unguarded:
  assumes "well_formed s" and "modes_exclusive s"
    and "position_controller_running s" and "\<not> command_propagation_disabled s"
    and "j < length (joints (info s))"
    and "\<not> isnan (joint_commands s ! POSITION_INTERFACE_INDEX ! j)"
    and "\<not> is_follower s j"
  shows "joint_states (snd (read now s)) ! VELOCITY_INTERFACE_INDEX ! j =
           ddiv (dsub (joint_commands s ! POSITION_INTERFACE_INDEX ! j)
                   (joint_pos_commands_old s ! j))
             (elapsed (begin_time s) now) \<and>
         joint_pos_commands_old (snd (read now s)) ! j =
           joint_commands s ! POSITION_INTERFACE_INDEX ! j"
proof -
  from assms(2,3) have nv: "\<not> velocity_controller_running s"
    by (auto simp: modes_exclusive_def)
  note nf = read_states_non_follower[OF assms(1) assms(7)]
  note pc = propagation_cells[OF assms(1)]
  show ?thesis
    using assms(3-6) nv
    by (simp add: nf pc(4,6) read_states(4)
                  POSITION_INTERFACE_INDEX_def VELOCITY_INTERFACE_INDEX_def)
qed

lemma read_states_forward:
  assumes wf: "well_formed s" and k: "k < length (mimic_joints s)"
    and settled: "leader_settled s k" and r: "r < length (standard_interfaces s)"
  shows "joint_states (snd (read now s)) ! r ! joint_index (mimic_joints s ! k) =
           dmul (multiplier (mimic_joints s ! k))
             (joint_states (snd (read now s)) ! r ! mimicked_joint_index (mimic_joints s ! k))"
proof -
  let ?n = "length (joints (info s))"
  from wf have rs: "rect (joint_states s) (length (standard_interfaces s)) ?n"
    and idx: "\<forall>m \<in> set (mimic_joints s). joint_index m < ?n"
    and dist: "distinct (map joint_index (mimic_joints s))"
    by (simp_all add: well_formed_def Let_def)
  have r1: "rect (propagated_states now s) (length (standard_interfaces s)) ?n"
    using propagation_cells(1)[OF wf] rs by (rule same_shape_rect)
  from settled
  have st: "\<forall>m \<in> set (drop k (mimic_joints s)).
              joint_index m \<noteq> mimicked_joint_index (mimic_joints s ! k)"
    by (simp add: leader_settled_def)
  show ?thesis
    unfolding read_states(1)
    using r1 idx dist k r st by (rule mimic_loop_forward)
qed

lemma follower_in_range:
  assumes "well_formed s" and "k < length (mimic_joints s)"
  shows "joint_index (mimic_joints s ! k) < length (joints (info s))"
  using assms by (simp add: well_formed_def Let_def)

text \<open>
  C4, as amended. For every configured mimic relation whose leader is written neither
  by that relation nor by a relation applied after it (the relations are applied one
  after the other, in the order of the list of mimic joints), after the step the
  follower's state in every standard interface row equals multiplier times the
  leader's state in that row after the step. When the leader is no follower at all,
  that leader state is the one the position, velocity and loopback loops of this cycle
  computed, the mimic loop running after them. The mimic loop does not write the states
  of the other interfaces: for an other interface that is not bound to the following
  offset, the follower's state is its own loopback.
\<close>

theorem mimic_follows_fresh_leader:
  assumes "well_formed s" and "k < length (mimic_joints s)" and "leader_settled s k"
  shows "(r < length (standard_interfaces s) \<longrightarrow>
            joint_states (snd (read now s)) ! r ! joint_index (mimic_joints s ! k) =
              dmul (multiplier (mimic_joints s ! k))
                (joint_states (snd (read now s)) ! r
                   ! mimicked_joint_index (mimic_joints s ! k))) \<and>
         (\<not> is_follower s (mimicked_joint_index (mimic_joints s ! k)) \<longrightarrow>
            joint_states (snd (read now s)) ! r ! mimicked_joint_index (mimic_joints s ! k) =
              propagated_states now s ! r ! mimicked_joint_index (mimic_joints s ! k)) \<and>
         (i < length (other_interfaces s) \<and>
          index_custom_interface_with_following_offset s \<noteq> i \<longrightarrow>
            other_states (snd (read now s)) ! i ! joint_index (mimic_joints s ! k) =
              (if \<not> isnan (other_commands s ! i ! joint_index (mimic_joints s ! k))
               then other_commands s ! i ! joint_index (mimic_joints s ! k)
               else other_states s ! i ! joint_index (mimic_joints s ! k)))"
  using read_states_forward[OF assms(1,2,3)]
        read_states_non_follower[OF assms(1)]
        read_other_loopback[OF assms(1) _ follower_in_range[OF assms(1,2)]]
  by blast

text \<open>
  C8, as amended. For every joint that is not a mimic follower, with position control
  active (position controller running, velocity controller not running, propagation
  enabled) and a position command that is not NaN, the step sets the position state to
  the position command plus the following offset, the offset being added only when no
  custom interface is named for it. When the binding index designates an other
  interface, that interface's state becomes, for every joint, the current position
  command plus the offset when the position command is set, and its ordinary loopback
  otherwise.
\<close>

theorem position_step_follows_command:
  assumes "well_formed s"
  shows "(modes_exclusive s \<and> position_controller_running s \<and>
          \<not> command_propagation_disabled s \<and> j < length (joints (info s)) \<and>
          \<not> isnan (joint_commands s ! POSITION_INTERFACE_INDEX ! j) \<and> \<not> is_follower s j \<longrightarrow>
            joint_states (snd (read now s)) ! POSITION_INTERFACE_INDEX ! j =
              dadd (joint_commands s ! POSITION_INTERFACE_INDEX ! j)
                (if custom_interface_with_following_offset s = []
                 then position_state_following_offset s else Fin 0) \<and>
            joint_commands (snd (read now s)) ! POSITION_INTERFACE_INDEX ! j =
              joint_commands s ! POSITION_INTERFACE_INDEX ! j) \<and>
         (index_custom_interface_with_following_offset s < length (other_interfaces s) \<and>
          l < length (joints (info s)) \<longrightarrow>
            other_states (snd (read now s))
              ! index_custom_interface_with_following_offset s ! l =
              (if \<not> isnan (joint_commands (snd (read now s)) ! POSITION_INTERFACE_INDEX ! l)
               then dadd (joint_commands (snd (read now s)) ! POSITION_INTERFACE_INDEX ! l)
                      (position_state_following_offset s)
               else if \<not> isnan (other_commands s
                                  ! index_custom_interface_with_following_offset s ! l)
               then other_commands s ! index_custom_interface_with_following_offset s ! l
               else other_states s ! index_custom_interface_with_following_offset s ! l))"
proof -
  let ?n = "length (joints (info s))"
  let ?i = "index_custom_interface_with_following_offset s"
  note pc = propagation_cells[OF assms]
  have a: "joint_states (snd (read now s)) ! POSITION_INTERFACE_INDEX ! j =
              dadd (joint_commands s ! POSITION_INTERFACE_INDEX ! j)
                (if custom_interface_with_following_offset s = []
                 then position_state_following_offset s else Fin 0) \<and>
            joint_commands (snd (read now s)) ! POSITION_INTERFACE_INDEX ! j =
              joint_commands s ! POSITION_INTERFACE_INDEX ! j"
    if h: "modes_exclusive s" "position_controller_running s"
          "\<not> command_propagation_disabled s" "j < ?n"
          "\<not> isnan (joint_commands s ! POSITION_INTERFACE_INDEX ! j)" "\<not> is_follower s j"
  proof -
    from h(1,2) have nv: "\<not> velocity_controller_running s"
      by (auto simp: modes_exclusive_def)
    show ?thesis
      using h(2-5) nv
      by (simp add: read_states_non_follower[OF assms h(6)] pc(3,6)
                    POSITION_INTERFACE_INDEX_def)
  qed
  have b: "other_states (snd (read now s)) ! ?i ! l =
              (if \<not> isnan (joint_commands (snd (read now s)) ! POSITION_INTERFACE_INDEX ! l)
               then dadd (joint_commands (snd (read now s)) ! POSITION_INTERFACE_INDEX ! l)
                      (position_state_following_offset s)
               else if \<not> isnan (other_commands s ! ?i ! l)
               then other_commands s ! ?i ! l
               else other_states s ! ?i ! l)"
    if h: "?i < length (other_interfaces s)" "l < ?n"
  proof -
    from assms have ro: "rect (other_states s) (length (other_interfaces s)) ?n"
      by (simp add: well_formed_def Let_def)
    from ro h have i: "?i < length (other_states s)" and ll: "l < length (other_states s ! ?i)"
      by (simp_all add: rect_def)
    show ?thesis
      unfolding read_states(3)
      using i ll other_loop_cells[of s "joint_commands (snd (read now s))" "other_states s"]
      by (simp add: POSITION_INTERFACE_INDEX_def)
  qed
  from a b show ?thesis
    by blast
qed

lemma gating_frame [simp]:
  "well_formed (s\<lparr>command_propagation_disabled := d, position_controller_running := p,
                  velocity_controller_running := v\<rparr>) = well_formed s"
  "leader_settled (s\<lparr>command_propagation_disabled := d, position_controller_running := p,
                     velocity_controller_running := v\<rparr>) k = leader_settled s k"
  "is_follower (s\<lparr>command_propagation_disabled := d, position_controller_running := p,
                  velocity_controller_running := v\<rparr>) j = is_follower s j"
  by (simp_all add: well_formed_def leader_settled_def is_follower_def)

text \<open>
  C9, as amended. The mimic loop runs in every simulation step, whatever the gating
  flags are: with command propagation disabled or enabled and with a position
  controller, a velocity controller or none running, for every configured mimic
  relation whose leader is written neither by that relation nor by a relation applied
  after it, after the step the follower's state in every standard interface row equals
  multiplier times the leader's state in that row after the step. When moreover command
  propagation is disabled or no controller is running, and the leader is no follower at
  all, the follower's position and velocity states after the step are multiplier times
  the leader's position and velocity states before the step, which the step leaves
  unmoved.
\<close>

theorem mimic_applied_unconditionally:
  fixes s :: GenericSystem and d p v :: bool
  assumes "well_formed s" and "k < length (mimic_joints s)" and "leader_settled s k"
    and "r < length (standard_interfaces s)"
  defines "t \<equiv> s\<lparr>command_propagation_disabled := d, position_controller_running := p,
                  velocity_controller_running := v\<rparr>"
  shows "joint_states (snd (read now t)) ! r ! joint_index (mimic_joints s ! k) =
           dmul (multiplier (mimic_joints s ! k))
             (joint_states (snd (read now t)) ! r
                ! mimicked_joint_index (mimic_joints s ! k)) \<and>
         ((d \<or> (\<not> p \<and> \<not> v)) \<and>
          \<not> is_follower s (mimicked_joint_index (mimic_joints s ! k)) \<and> r < 2 \<longrightarrow>
            joint_states (snd (read now t)) ! r ! joint_index (mimic_joints s ! k) =
              dmul (multiplier (mimic_joints s ! k))
                (joint_states s ! r ! mimicked_joint_index (mimic_joints s ! k)))"
proof -
  let ?l = "mimicked_joint_index (mimic_joints s ! k)"
  have wt: "well_formed t" and kt: "k < length (mimic_joints t)"
    and st: "leader_settled t k" and rt: "r < length (standard_interfaces t)"
    and mt: "mimic_joints t = mimic_joints s" and jt: "joint_states t = joint_states s"
    and ft: "command_propagation_disabled t = d" "position_controller_running t = p"
            "velocity_controller_running t = v"
    using assms(1-4) by (simp_all add: t_def)
  note F = read_states_forward[OF wt kt st rt, of now, unfolded mt]
  note pc = propagation_cells[OF wt]
  have "joint_states (snd (read now t)) ! r ! ?l = joint_states s ! r ! ?l"
    if g: "d \<or> (\<not> p \<and> \<not> v)" and nf: "\<not> is_follower s ?l" and r2: "r < 2"
  proof -
    from nf have "\<not> is_follower t ?l"
      by (simp add: t_def)
    then have e: "joint_states (snd (read now t)) ! r ! ?l = propagated_states now t ! r ! ?l"
      by (rule read_states_non_follower[OF wt])
    from r2 have "r = 0 \<or> r = Suc 0"
      by auto
    then show ?thesis
      using g by (auto simp: e pc(3,4) ft jt)
  qed
  with F show ?thesis
    by simp
qed
section \<open>The simulation step on the example backends\<close>

lemma demo_fields:
  "length (joints (info demo)) = 2"
  "standard_interfaces demo = [''position'', ''velocity'', ''effort'']"
  "other_interfaces demo = [''load'']"
  "sensor_interfaces demo = []"
  "joint_commands demo = [[Fin 1, Fin 7], [Fin 2, Fin 1], [NaN, Fin 9]]"
  "joint_states demo = [[Fin 5, Fin 0], [Fin 0, Fin 0], [Fin 0, Fin 0]]"
  "other_commands demo = [[NaN, Fin 4]]"
  "other_states demo = [[Fin 0, Fin 0]]"
  "sensor_fake_commands demo = []"
  "sensor_states demo = []"
  "joint_pos_commands_old demo = [Fin 0, Fin 7]"
  "mimic_joints demo = []"
  "position_controller_running demo = False"
  "velocity_controller_running demo = False"
  "command_propagation_disabled demo = False"
  "position_state_following_offset demo = Fin (1 / 2)"
  "custom_interface_with_following_offset demo = []"
  "index_custom_interface_with_following_offset demo = SIZE_MAX"
  "begin_time demo = 0"
  by (simp_all add: demo_def)

lemma demo_mimic_fields:
  "length demo_mimic = 1"
  "joint_index (demo_mimic ! 0) = 1"
  "mimicked_joint_index (demo_mimic ! 0) = 0"
  "multiplier (demo_mimic ! 0) = Fin (- 1)"
  "take 0 demo_mimic = []"
  by (simp_all add: demo_mimic_def)

lemma demo_well_formed:
  "well_formed demo_velocity"
  "well_formed demo_velocity_mimic"
  "well_formed demo_position"
  "well_formed demo_position_mimic"
  "well_formed demo_custom"
  "well_formed demo_disabled_mimic"
  by (simp_all add: well_formed_def rect_def demo_fields demo_mimic_def
                    demo_velocity_def demo_velocity_mimic_def demo_position_def
                    demo_position_mimic_def demo_custom_def demo_disabled_mimic_def)

lemma demo_not_follower:
  "\<not> is_follower demo_velocity j"
  "\<not> is_follower demo_position j"
  "\<not> is_follower demo_custom j"
  "\<not> is_follower demo_velocity_mimic 0"
  "\<not> is_follower demo_position_mimic 0"
  "\<not> is_follower demo_disabled_mimic 0"
  by (simp_all add: is_follower_def demo_fields demo_mimic_def
                    demo_velocity_def demo_velocity_mimic_def demo_position_def
                    demo_position_mimic_def demo_custom_def demo_disabled_mimic_def)

lemma elapsed_examples:
  "elapsed 0 100000000 = Fin (1 / 10)"
  "elapsed 0 0 = Fin 0"
  by (simp_all add: elapsed_def duration_cast_ms_def)

lemma mimic_loop_Nil [simp]: "mimic_loop [] st = st"
  by (simp add: mimic_loop_def)

theorem velocity_step_integrates_witness:
  "well_formed demo_velocity \<and> modes_exclusive demo_velocity \<and>
   velocity_controller_running demo_velocity \<and>
   \<not> command_propagation_disabled demo_velocity \<and>
   0 < length (joints (info demo_velocity)) \<and>
   \<not> isnan (joint_commands demo_velocity ! VELOCITY_INTERFACE_INDEX ! 0) \<and>
   \<not> is_follower demo_velocity 0 \<and>
   period (snd (read 100000000 demo_velocity)) = Fin (1 / 10) \<and>
   joint_states (snd (read 100000000 demo_velocity)) ! POSITION_INTERFACE_INDEX ! 0 = Fin (26 / 5) \<and>
   joint_states (snd (read 100000000 demo_velocity)) ! VELOCITY_INTERFACE_INDEX ! 0 = Fin 2 \<and>
   joint_commands (snd (read 100000000 demo_velocity)) ! POSITION_INTERFACE_INDEX ! 0 = Fin (26 / 5)"
proof -
  have h: "modes_exclusive demo_velocity" "velocity_controller_running demo_velocity"
    "\<not> command_propagation_disabled demo_velocity"
    "0 < length (joints (info demo_velocity))"
    "\<not> isnan (joint_commands demo_velocity ! VELOCITY_INTERFACE_INDEX ! 0)"
    by (simp_all add: demo_velocity_def demo_fields modes_exclusive_def
                      VELOCITY_INTERFACE_INDEX_def)
  have v: "joint_states demo_velocity ! POSITION_INTERFACE_INDEX ! 0 = Fin 5"
    "joint_commands demo_velocity ! VELOCITY_INTERFACE_INDEX ! 0 = Fin 2"
    "begin_time demo_velocity = 0"
    by (simp_all add: demo_velocity_def demo_fields
                      POSITION_INTERFACE_INDEX_def VELOCITY_INTERFACE_INDEX_def)
  note T = velocity_step_integrates[OF demo_well_formed(1) h demo_not_follower(1),
                                    of 100000000]
  have p: "period (snd (read 100000000 demo_velocity)) = Fin (1 / 10)"
    by (simp add: v elapsed_examples)
  from T have "joint_states (snd (read 100000000 demo_velocity)) ! POSITION_INTERFACE_INDEX ! 0 =
                 dadd (Fin 5) (dmul (Fin 2) (Fin (1 / 10)))"
    and t2: "joint_states (snd (read 100000000 demo_velocity)) ! VELOCITY_INTERFACE_INDEX ! 0 = Fin 2"
    and t3: "joint_commands (snd (read 100000000 demo_velocity)) ! POSITION_INTERFACE_INDEX ! 0 =
               joint_states (snd (read 100000000 demo_velocity)) ! POSITION_INTERFACE_INDEX ! 0"
    unfolding p v by blast+
  then have t1: "joint_states (snd (read 100000000 demo_velocity)) ! POSITION_INTERFACE_INDEX ! 0 =
                   Fin (26 / 5)"
    by simp
  from demo_well_formed(1) h demo_not_follower(1) p t1 t2 t3 show ?thesis
    by simp
qed

theorem velocity_step_follower_counterexample:
  "well_formed demo_velocity_mimic \<and> modes_exclusive demo_velocity_mimic \<and>
   velocity_controller_running demo_velocity_mimic \<and>
   \<not> command_propagation_disabled demo_velocity_mimic \<and>
   1 < length (joints (info demo_velocity_mimic)) \<and>
   joint_commands demo_velocity_mimic ! VELOCITY_INTERFACE_INDEX ! 1 = Fin 1 \<and>
   joint_states demo_velocity_mimic ! POSITION_INTERFACE_INDEX ! 1 = Fin 0 \<and>
   period (snd (read 100000000 demo_velocity_mimic)) = Fin (1 / 10) \<and>
   joint_states (snd (read 100000000 demo_velocity_mimic)) ! POSITION_INTERFACE_INDEX ! 1
     = Fin (- (26 / 5)) \<and>
   joint_states (snd (read 100000000 demo_velocity_mimic)) ! POSITION_INTERFACE_INDEX ! 1
     \<noteq> dadd (joint_states demo_velocity_mimic ! POSITION_INTERFACE_INDEX ! 1)
          (dmul (joint_commands demo_velocity_mimic ! VELOCITY_INTERFACE_INDEX ! 1)
             (period (snd (read 100000000 demo_velocity_mimic)))) \<and>
   joint_commands (snd (read 100000000 demo_velocity_mimic)) ! POSITION_INTERFACE_INDEX ! 1
     \<noteq> joint_states (snd (read 100000000 demo_velocity_mimic)) ! POSITION_INTERFACE_INDEX ! 1 \<and>
   \<not> is_follower demo_velocity 0 \<and> begin_time demo_velocity = 0 \<and>
   joint_states demo_velocity ! POSITION_INTERFACE_INDEX ! 0 = Fin 5 \<and>
   joint_commands demo_velocity ! VELOCITY_INTERFACE_INDEX ! 0 = Fin 2 \<and>
   period (snd (read 900000 demo_velocity)) = Fin 0 \<and>
   joint_states (snd (read 900000 demo_velocity)) ! POSITION_INTERFACE_INDEX ! 0 = Fin 5 \<and>
   joint_states (snd (read 900000 demo_velocity)) ! POSITION_INTERFACE_INDEX ! 0
     \<noteq> dadd (Fin 5) (dmul (Fin 2) (Fin (9 / 10000)))"
proof -
  let ?s = demo_velocity_mimic
  have g: "length (joints (info demo_velocity)) = 2"
    "velocity_controller_running demo_velocity" "\<not> position_controller_running demo_velocity"
    "\<not> command_propagation_disabled demo_velocity" "begin_time demo_velocity = 0"
    "joint_commands demo_velocity = [[Fin 1, Fin 7], [Fin 2, Fin 1], [NaN, Fin 9]]"
    "joint_states demo_velocity = [[Fin 5, Fin 0], [Fin 0, Fin 0], [Fin 0, Fin 0]]"
    by (simp_all add: demo_velocity_def demo_fields)
  have e: "elapsed 0 900000 = Fin 0"
    by (simp add: elapsed_def duration_cast_ms_def)
  note qc = propagation_cells[OF demo_well_formed(1), where now = 900000]
  have q: "joint_states (snd (read 900000 demo_velocity)) ! 0 ! 0 = Fin 5"
    by (simp add: read_states_non_follower[OF demo_well_formed(1) demo_not_follower(1)]
                  qc(3) g e)
  have qp: "period (snd (read 900000 demo_velocity)) = Fin 0"
    by (simp add: g e)
  have f: "mimic_joints ?s = demo_mimic" "length (joints (info ?s)) = 2"
    "length (standard_interfaces ?s) = 3"
    "velocity_controller_running ?s" "\<not> position_controller_running ?s"
    "\<not> command_propagation_disabled ?s" "begin_time ?s = 0"
    "joint_commands ?s = [[Fin 1, Fin 7], [Fin 2, Fin 1], [NaN, Fin 9]]"
    "joint_states ?s = [[Fin 5, Fin 0], [Fin 0, Fin 0], [Fin 0, Fin 0]]"
    by (simp_all add: demo_velocity_mimic_def demo_fields)
  note pc = propagation_cells[OF demo_well_formed(2), of 100000000]
  have p0: "propagated_states 100000000 ?s ! 0 ! 0 = Fin (26 / 5)"
    by (simp add: pc(3) f elapsed_examples)
  have "joint_states (snd (read 100000000 ?s)) ! 0 ! joint_index (mimic_joints ?s ! 0) =
          dmul (multiplier (mimic_joints ?s ! 0))
            (mimic_loop (take 0 (mimic_joints ?s)) (propagated_states 100000000 ?s)
               ! 0 ! mimicked_joint_index (mimic_joints ?s ! 0))"
    by (rule read_states_follower[OF demo_well_formed(2)]) (simp_all add: f demo_mimic_fields)
  then have a: "joint_states (snd (read 100000000 ?s)) ! 0 ! 1 = Fin (- (26 / 5))"
    by (simp add: f demo_mimic_fields p0)
  have c: "joint_commands (snd (read 100000000 ?s)) ! 0 ! 1 = Fin (1 / 10)"
    by (simp add: pc(6) f elapsed_examples)
  have m: "modes_exclusive ?s"
    by (simp add: modes_exclusive_def f)
  show ?thesis
    using demo_well_formed(2) m a c q qp demo_not_follower(1)
    by (simp add: f g elapsed_examples POSITION_INTERFACE_INDEX_def VELOCITY_INTERFACE_INDEX_def)
qed

theorem velocity_derivation_unguarded_witness:
  "well_formed demo_position \<and> modes_exclusive demo_position \<and>
   position_controller_running demo_position \<and>
   \<not> command_propagation_disabled demo_position \<and>
   0 < length (joints (info demo_position)) \<and>
   \<not> isnan (joint_commands demo_position ! POSITION_INTERFACE_INDEX ! 0) \<and>
   \<not> is_follower demo_position 0 \<and>
   elapsed (begin_time demo_position) 0 = Fin 0 \<and>
   joint_states (snd (read 0 demo_position)) ! VELOCITY_INTERFACE_INDEX ! 0 = PInf"
proof -
  have h: "modes_exclusive demo_position" "position_controller_running demo_position"
    "\<not> command_propagation_disabled demo_position"
    "0 < length (joints (info demo_position))"
    "\<not> isnan (joint_commands demo_position ! POSITION_INTERFACE_INDEX ! 0)"
    by (simp_all add: demo_position_def demo_fields modes_exclusive_def
                      POSITION_INTERFACE_INDEX_def)
  have v: "joint_commands demo_position ! POSITION_INTERFACE_INDEX ! 0 = Fin 1"
    "joint_pos_commands_old demo_position ! 0 = Fin 0"
    "elapsed (begin_time demo_position) 0 = Fin 0"
    by (simp_all add: demo_position_def demo_fields POSITION_INTERFACE_INDEX_def
                      elapsed_examples)
  note T = velocity_derivation_unguarded[OF demo_well_formed(3) h demo_not_follower(2), of 0]
  from T have "joint_states (snd (read 0 demo_position)) ! VELOCITY_INTERFACE_INDEX ! 0 =
                 ddiv (dsub (Fin 1) (Fin 0)) (Fin 0)"
    unfolding v by blast
  then have t: "joint_states (snd (read 0 demo_position)) ! VELOCITY_INTERFACE_INDEX ! 0 = PInf"
    by (simp add: dsub_def signed_inf_def)
  from demo_well_formed(3) h demo_not_follower(2) v(3) t show ?thesis
    by simp
qed

theorem velocity_derivation_zero_period_counterexample:
  "well_formed demo_position \<and> position_controller_running demo_position \<and>
   \<not> velocity_controller_running demo_position \<and>
   \<not> command_propagation_disabled demo_position \<and>
   duration_cast_ms (0 - begin_time demo_position) \<le> 0 \<and>
   joint_states demo_position ! VELOCITY_INTERFACE_INDEX = [Fin 0, Fin 0] \<and>
   joint_states (snd (read 0 demo_position)) ! VELOCITY_INTERFACE_INDEX ! 0 = PInf \<and>
   joint_states (snd (read 0 demo_position)) ! VELOCITY_INTERFACE_INDEX ! 1 = NaN \<and>
   joint_states (snd (read 0 demo_position)) ! VELOCITY_INTERFACE_INDEX ! 0
     \<noteq> joint_states demo_position ! VELOCITY_INTERFACE_INDEX ! 0"
proof -
  let ?s = demo_position
  have f: "length (joints (info ?s)) = 2"
    "position_controller_running ?s" "\<not> velocity_controller_running ?s"
    "\<not> command_propagation_disabled ?s" "begin_time ?s = 0"
    "joint_commands ?s = [[Fin 1, Fin 7], [Fin 2, Fin 1], [NaN, Fin 9]]"
    "joint_states ?s = [[Fin 5, Fin 0], [Fin 0, Fin 0], [Fin 0, Fin 0]]"
    "joint_pos_commands_old ?s = [Fin 0, Fin 7]"
    by (simp_all add: demo_position_def demo_fields)
  note pc = propagation_cells[OF demo_well_formed(3), of 0]
  have a: "joint_states (snd (read 0 ?s)) ! Suc 0 ! 0 = PInf"
    by (simp add: read_states_non_follower[OF demo_well_formed(3) demo_not_follower(2)]
                  pc(4) f elapsed_examples dsub_def signed_inf_def)
  have b: "joint_states (snd (read 0 ?s)) ! Suc 0 ! 1 = NaN"
    by (simp add: read_states_non_follower[OF demo_well_formed(3) demo_not_follower(2)]
                  pc(4) f elapsed_examples dsub_def signed_inf_def)
  show ?thesis
    using demo_well_formed(3) a b
    by (simp add: f VELOCITY_INTERFACE_INDEX_def duration_cast_ms_def)
qed

lemma demo_chain_fields:
  "length (joints (info demo_chain)) = 3"
  "length (standard_interfaces demo_chain) = 3"
  "joint_commands demo_chain = [[NaN, NaN, NaN], [Fin 0, Fin 0, Fin 0], [NaN, NaN, NaN]]"
  "joint_states demo_chain = [[Fin 1, Fin 2, Fin 3], [Fin 0, Fin 0, Fin 0], [Fin 0, Fin 0, Fin 0]]"
  "mimic_joints demo_chain =
     [\<lparr>joint_index = 0, mimicked_joint_index = 1, multiplier = Fin 1\<rparr>,
      \<lparr>joint_index = 1, mimicked_joint_index = 2, multiplier = Fin 1\<rparr>]"
  "position_controller_running demo_chain = False"
  "velocity_controller_running demo_chain = False"
  "command_propagation_disabled demo_chain = False"
  "other_interfaces demo_chain = [''load'']"
  "other_commands demo_chain = [[NaN, NaN, NaN]]"
  "other_states demo_chain = [[Fin 0, Fin 0, Fin 0]]"
  "index_custom_interface_with_following_offset demo_chain = SIZE_MAX"
  by (simp_all add: demo_chain_def demo_fields)

lemma demo_chain_well_formed:
  "well_formed demo_chain" "well_formed demo_chain_disabled" "well_formed demo_forward"
  by (simp_all add: well_formed_def rect_def demo_chain_def demo_chain_disabled_def
                    demo_forward_def demo_fields)

lemma demo_forward_fields:
  "length (joints (info demo_forward)) = 3"
  "length (standard_interfaces demo_forward) = 3"
  "joint_states demo_forward = [[Fin 1, Fin 2, Fin 3], [Fin 0, Fin 0, Fin 0], [Fin 0, Fin 0, Fin 0]]"
  "mimic_joints demo_forward =
     [\<lparr>joint_index = 1, mimicked_joint_index = 0, multiplier = Fin 2\<rparr>,
      \<lparr>joint_index = 2, mimicked_joint_index = 1, multiplier = Fin 3\<rparr>]"
  "position_controller_running demo_forward = False"
  "velocity_controller_running demo_forward = False"
  "other_interfaces demo_forward = [''load'']"
  "other_commands demo_forward = [[NaN, NaN, NaN]]"
  "other_states demo_forward = [[Fin 0, Fin 0, Fin 0]]"
  "index_custom_interface_with_following_offset demo_forward = SIZE_MAX"
  by (simp_all add: demo_forward_def demo_chain_fields)

lemma demo_forward_settled:
  "leader_settled demo_forward 0" "leader_settled demo_forward 1"
  "\<not> is_follower demo_forward 0" "is_follower demo_forward 1"
  by (simp_all add: leader_settled_def is_follower_def demo_forward_fields)

text \<open>
  Joint 0 mimics joint 1 and joint 1 mimics joint 2, both onefold, no controller runs
  and the position states are 1, 2, 3: after the step they are 2, 3, 3.
\<close>

lemma backward_chain_step:
  assumes wf: "well_formed s"
    and m: "mimic_joints s =
              [\<lparr>joint_index = 0, mimicked_joint_index = 1, multiplier = Fin 1\<rparr>,
               \<lparr>joint_index = 1, mimicked_joint_index = 2, multiplier = Fin 1\<rparr>]"
    and st: "joint_states s ! 0 = [Fin 1, Fin 2, Fin 3]"
    and n: "length (joints (info s)) = 3" "length (standard_interfaces s) = 3"
    and c: "\<not> position_controller_running s" "\<not> velocity_controller_running s"
  shows "joint_states (snd (read now s)) ! 0 ! 0 = Fin 2"
    and "joint_states (snd (read now s)) ! 0 ! Suc 0 = Fin 3"
    and "joint_states (snd (read now s)) ! 0 ! 2 = Fin 3"
proof -
  note pc = propagation_cells[OF wf, where now = now]
  have p1: "propagated_states now s ! 0 ! Suc 0 = Fin 2"
    and p2: "propagated_states now s ! 0 ! 2 = Fin 3"
    using c by (simp_all add: pc(3) st)
  have "joint_states (snd (read now s)) ! 0 ! joint_index (mimic_joints s ! 0) =
          dmul (multiplier (mimic_joints s ! 0))
            (mimic_loop (take 0 (mimic_joints s)) (propagated_states now s)
               ! 0 ! mimicked_joint_index (mimic_joints s ! 0))"
    by (rule read_states_follower[OF wf]) (simp_all add: m n)
  then show "joint_states (snd (read now s)) ! 0 ! 0 = Fin 2"
    by (simp add: m p1)
  from wf have rj: "rect (joint_states s) 3 3"
    by (simp add: well_formed_def Let_def n)
  have rs: "rect (propagated_states now s) 3 3"
    using pc(1) rj by (rule same_shape_rect)
  have oc: "mimic_loop [\<lparr>joint_index = 0, mimicked_joint_index = Suc 0, multiplier = Fin 1\<rparr>]
              (propagated_states now s) ! 0 ! 2 = propagated_states now s ! 0 ! 2"
    by (rule mimic_loop_other_column[OF rs]) simp_all
  have "joint_states (snd (read now s)) ! 0 ! joint_index (mimic_joints s ! 1) =
          dmul (multiplier (mimic_joints s ! 1))
            (mimic_loop (take 1 (mimic_joints s)) (propagated_states now s)
               ! 0 ! mimicked_joint_index (mimic_joints s ! 1))"
    by (rule read_states_follower[OF wf]) (simp_all add: m n)
  then show "joint_states (snd (read now s)) ! 0 ! Suc 0 = Fin 3"
    by (simp add: m oc p2)
  have "\<not> is_follower s 2"
    by (simp add: is_follower_def m)
  from read_states_non_follower[OF wf this, where now = now and r = 0]
  show "joint_states (snd (read now s)) ! 0 ! 2 = Fin 3"
    by (simp add: p2)
qed

theorem mimic_follows_fresh_leader_witness:
  "well_formed demo_forward \<and> 1 < length (mimic_joints demo_forward) \<and>
   leader_settled demo_forward 0 \<and> leader_settled demo_forward 1 \<and>
   is_follower demo_forward (mimicked_joint_index (mimic_joints demo_forward ! 1)) \<and>
   joint_states demo_forward ! 0 = [Fin 1, Fin 2, Fin 3] \<and>
   joint_states (snd (read 0 demo_forward)) ! 0 ! 0 = Fin 1 \<and>
   joint_states (snd (read 0 demo_forward)) ! 0 ! 1 = Fin 2 \<and>
   joint_states (snd (read 0 demo_forward)) ! 0 ! 2 = Fin 6 \<and>
   other_states (snd (read 0 demo_forward)) ! 0 ! 2 = Fin 0"
proof -
  let ?s = demo_forward
  note f = demo_forward_fields
  note wf = demo_chain_well_formed(3)
  have k: "0 < length (mimic_joints ?s)" "1 < length (mimic_joints ?s)"
    by (simp_all add: f)
  note pc = propagation_cells[OF wf, where now = 0]
  have p0: "propagated_states 0 ?s ! 0 ! 0 = Fin 1"
    by (simp add: pc(3) f)
  note T0 = mimic_follows_fresh_leader[OF wf k(1) demo_forward_settled(1),
              where r = 0 and now = 0 and i = 0]
  note T1 = mimic_follows_fresh_leader[OF wf k(2) demo_forward_settled(2),
              where r = 0 and now = 0 and i = 0]
  from T0 demo_forward_settled(3) have a: "joint_states (snd (read 0 ?s)) ! 0 ! 0 = Fin 1"
    by (simp add: f p0)
  from T0 have "joint_states (snd (read 0 ?s)) ! 0 ! Suc 0 =
                  dmul (Fin 2) (joint_states (snd (read 0 ?s)) ! 0 ! 0)"
    by (simp add: f)
  then have b: "joint_states (snd (read 0 ?s)) ! 0 ! Suc 0 = Fin 2"
    by (simp add: a)
  from T1 have "joint_states (snd (read 0 ?s)) ! 0 ! 2 =
                  dmul (Fin 3) (joint_states (snd (read 0 ?s)) ! 0 ! Suc 0)"
    by (simp add: f)
  then have c: "joint_states (snd (read 0 ?s)) ! 0 ! 2 = Fin 6"
    by (simp add: b)
  from T1 have d: "other_states (snd (read 0 ?s)) ! 0 ! 2 = Fin 0"
    by (simp add: f SIZE_MAX_def)
  from wf k demo_forward_settled a b c d show ?thesis
    by (simp add: f)
qed

theorem mimic_chain_counterexample:
  "well_formed demo_chain \<and>
   mimic_joints demo_chain ! 0 =
     \<lparr>joint_index = 0, mimicked_joint_index = 1, multiplier = Fin 1\<rparr> \<and>
   joint_states demo_chain ! 0 = [Fin 1, Fin 2, Fin 3] \<and>
   joint_states (snd (read 0 demo_chain)) ! 0 ! 0 = Fin 2 \<and>
   joint_states (snd (read 0 demo_chain)) ! 0 ! 1 = Fin 3 \<and>
   joint_states (snd (read 0 demo_chain)) ! 0 ! 0
     \<noteq> dmul (Fin 1) (joint_states (snd (read 0 demo_chain)) ! 0 ! 1) \<and>
   well_formed demo_velocity_mimic \<and>
   mimic_joints demo_velocity_mimic ! 0 =
     \<lparr>joint_index = 1, mimicked_joint_index = 0, multiplier = Fin (- 1)\<rparr> \<and>
   other_states (snd (read 0 demo_velocity_mimic)) ! 0 ! 0 = Fin 0 \<and>
   other_states (snd (read 0 demo_velocity_mimic)) ! 0 ! 1 = Fin 4 \<and>
   other_states (snd (read 0 demo_velocity_mimic)) ! 0 ! 1
     \<noteq> dmul (Fin (- 1)) (other_states (snd (read 0 demo_velocity_mimic)) ! 0 ! 0)"
proof -
  note f = demo_chain_fields
  have a: "joint_states (snd (read 0 demo_chain)) ! 0 ! 0 = Fin 2"
    and b: "joint_states (snd (read 0 demo_chain)) ! 0 ! Suc 0 = Fin 3"
    by (rule backward_chain_step[OF demo_chain_well_formed(1)]; simp add: f)+
  let ?v = demo_velocity_mimic
  have g: "mimic_joints ?v = demo_mimic" "length (joints (info ?v)) = 2"
    "other_interfaces ?v = [''load'']" "other_commands ?v = [[NaN, Fin 4]]"
    "other_states ?v = [[Fin 0, Fin 0]]"
    "index_custom_interface_with_following_offset ?v = SIZE_MAX"
    by (simp_all add: demo_velocity_mimic_def demo_fields)
  have o0: "other_states (snd (read 0 ?v)) ! 0 ! 0 = Fin 0"
    by (subst read_other_loopback[OF demo_well_formed(2)]) (simp_all add: g SIZE_MAX_def)
  have o1: "other_states (snd (read 0 ?v)) ! 0 ! Suc 0 = Fin 4"
    by (subst read_other_loopback[OF demo_well_formed(2)]) (simp_all add: g SIZE_MAX_def)
  show ?thesis
    using demo_chain_well_formed(1) demo_well_formed(2) a b o0 o1
    by (simp add: f g demo_mimic_def)
qed

theorem position_step_follows_command_witness:
  "well_formed demo_custom \<and> modes_exclusive demo_custom \<and>
   position_controller_running demo_custom \<and> \<not> command_propagation_disabled demo_custom \<and>
   0 < length (joints (info demo_custom)) \<and>
   \<not> isnan (joint_commands demo_custom ! POSITION_INTERFACE_INDEX ! 0) \<and>
   \<not> is_follower demo_custom 0 \<and>
   index_custom_interface_with_following_offset demo_custom
     < length (other_interfaces demo_custom) \<and>
   custom_interface_with_following_offset demo_custom \<noteq> [] \<and>
   joint_states (snd (read 0 demo_custom)) ! POSITION_INTERFACE_INDEX ! 0 = Fin 1 \<and>
   other_states (snd (read 0 demo_custom)) ! 0 ! 0 = Fin (3 / 2)"
proof -
  let ?s = demo_custom
  have f: "length (joints (info ?s)) = 2" "modes_exclusive ?s"
    "position_controller_running ?s" "\<not> command_propagation_disabled ?s"
    "joint_commands ?s ! POSITION_INTERFACE_INDEX ! 0 = Fin 1"
    "index_custom_interface_with_following_offset ?s = 0"
    "length (other_interfaces ?s) = 1"
    "custom_interface_with_following_offset ?s = ''load''"
    "position_state_following_offset ?s = Fin (1 / 2)"
    by (simp_all add: demo_custom_def demo_fields modes_exclusive_def
                      POSITION_INTERFACE_INDEX_def)
  note T = position_step_follows_command[OF demo_well_formed(5), of 0 0 0]
  from T have t1: "joint_states (snd (read 0 ?s)) ! POSITION_INTERFACE_INDEX ! 0 = Fin 1"
    and t2: "joint_commands (snd (read 0 ?s)) ! POSITION_INTERFACE_INDEX ! 0 = Fin 1"
    by (simp_all add: f demo_not_follower)
  from T have "other_states (snd (read 0 ?s)) ! 0 ! 0 =
                 (if \<not> isnan (joint_commands (snd (read 0 ?s)) ! POSITION_INTERFACE_INDEX ! 0)
                  then dadd (joint_commands (snd (read 0 ?s)) ! POSITION_INTERFACE_INDEX ! 0)
                         (Fin (1 / 2))
                  else if \<not> isnan (other_commands ?s ! 0 ! 0)
                  then other_commands ?s ! 0 ! 0 else other_states ?s ! 0 ! 0)"
    by (simp add: f)
  then have t3: "other_states (snd (read 0 ?s)) ! 0 ! 0 = Fin (3 / 2)"
    by (simp add: t2)
  from demo_well_formed(5) demo_not_follower(3) t1 t3 show ?thesis
    by (simp add: f)
qed

theorem position_step_follower_counterexample:
  "well_formed demo_position_mimic \<and> modes_exclusive demo_position_mimic \<and>
   position_controller_running demo_position_mimic \<and>
   \<not> command_propagation_disabled demo_position_mimic \<and>
   1 < length (joints (info demo_position_mimic)) \<and>
   joint_commands demo_position_mimic ! POSITION_INTERFACE_INDEX ! 1 = Fin 7 \<and>
   custom_interface_with_following_offset demo_position_mimic = [] \<and>
   position_state_following_offset demo_position_mimic = Fin (1 / 2) \<and>
   joint_states (snd (read 0 demo_position_mimic)) ! POSITION_INTERFACE_INDEX ! 1
     = Fin (- (3 / 2)) \<and>
   joint_states (snd (read 0 demo_position_mimic)) ! POSITION_INTERFACE_INDEX ! 1
     \<noteq> dadd (joint_commands demo_position_mimic ! POSITION_INTERFACE_INDEX ! 1)
          (position_state_following_offset demo_position_mimic)"
proof -
  let ?s = demo_position_mimic
  have f: "mimic_joints ?s = demo_mimic" "length (joints (info ?s)) = 2"
    "length (standard_interfaces ?s) = 3"
    "position_controller_running ?s" "\<not> velocity_controller_running ?s"
    "\<not> command_propagation_disabled ?s" "begin_time ?s = 0"
    "joint_commands ?s = [[Fin 1, Fin 7], [Fin 2, Fin 1], [NaN, Fin 9]]"
    "joint_states ?s = [[Fin 5, Fin 0], [Fin 0, Fin 0], [Fin 0, Fin 0]]"
    "custom_interface_with_following_offset ?s = []"
    "position_state_following_offset ?s = Fin (1 / 2)"
    by (simp_all add: demo_position_mimic_def demo_fields)
  note pc = propagation_cells[OF demo_well_formed(4), of 0]
  have p0: "propagated_states 0 ?s ! 0 ! 0 = Fin (3 / 2)"
    by (simp add: pc(3) f)
  have "joint_states (snd (read 0 ?s)) ! 0 ! joint_index (mimic_joints ?s ! 0) =
          dmul (multiplier (mimic_joints ?s ! 0))
            (mimic_loop (take 0 (mimic_joints ?s)) (propagated_states 0 ?s)
               ! 0 ! mimicked_joint_index (mimic_joints ?s ! 0))"
    by (rule read_states_follower[OF demo_well_formed(4)]) (simp_all add: f demo_mimic_fields)
  then have a: "joint_states (snd (read 0 ?s)) ! 0 ! 1 = Fin (- (3 / 2))"
    by (simp add: f demo_mimic_fields p0)
  have m: "modes_exclusive ?s"
    by (simp add: modes_exclusive_def f)
  show ?thesis
    using demo_well_formed(4) m a
    by (simp add: f POSITION_INTERFACE_INDEX_def)
qed

theorem mimic_applied_unconditionally_witness:
  "well_formed demo_forward \<and> 1 < length (mimic_joints demo_forward) \<and>
   leader_settled demo_forward 0 \<and> leader_settled demo_forward 1 \<and>
   0 < length (standard_interfaces demo_forward) \<and>
   \<not> is_follower demo_forward (mimicked_joint_index (mimic_joints demo_forward ! 0)) \<and>
   joint_states demo_forward ! 0 = [Fin 1, Fin 2, Fin 3] \<and>
   joint_states (snd (read 0
      (demo_forward\<lparr>command_propagation_disabled := True, position_controller_running := False,
                    velocity_controller_running := False\<rparr>))) ! 0 ! 1 = Fin 2 \<and>
   joint_states (snd (read 0
      (demo_forward\<lparr>command_propagation_disabled := True, position_controller_running := False,
                    velocity_controller_running := False\<rparr>))) ! 0 ! 2 = Fin 6"
proof -
  let ?s = demo_forward
  let ?t = "?s\<lparr>command_propagation_disabled := True, position_controller_running := False,
                velocity_controller_running := False\<rparr>"
  note f = demo_forward_fields
  note wf = demo_chain_well_formed(3)
  have k: "0 < length (mimic_joints ?s)" "1 < length (mimic_joints ?s)"
    and r: "0 < length (standard_interfaces ?s)"
    by (simp_all add: f)
  have nf: "\<not> is_follower ?s (mimicked_joint_index (mimic_joints ?s ! 0))"
    by (simp add: f demo_forward_settled)
  note T0 = mimic_applied_unconditionally[OF wf k(1) demo_forward_settled(1) r,
              where d = True and p = False and v = False and now = 0]
  note T1 = mimic_applied_unconditionally[OF wf k(2) demo_forward_settled(2) r,
              where d = True and p = False and v = False and now = 0]
  from T0[THEN conjunct2] nf have a: "joint_states (snd (read 0 ?t)) ! 0 ! Suc 0 = Fin 2"
    by (simp add: f)
  from T1[THEN conjunct1] have "joint_states (snd (read 0 ?t)) ! 0 ! 2 =
                  dmul (Fin 3) (joint_states (snd (read 0 ?t)) ! 0 ! Suc 0)"
    by (simp add: f)
  then have b: "joint_states (snd (read 0 ?t)) ! 0 ! 2 = Fin 6"
    by (simp add: a)
  from wf k demo_forward_settled r nf a b show ?thesis
    by (simp add: f)
qed

theorem mimic_disabled_chain_counterexample:
  "well_formed demo_chain_disabled \<and> command_propagation_disabled demo_chain_disabled \<and>
   \<not> position_controller_running demo_chain_disabled \<and>
   \<not> velocity_controller_running demo_chain_disabled \<and>
   mimic_joints demo_chain_disabled ! 0 =
     \<lparr>joint_index = 0, mimicked_joint_index = 1, multiplier = Fin 1\<rparr> \<and>
   joint_states demo_chain_disabled ! 0 = [Fin 1, Fin 2, Fin 3] \<and>
   joint_states (snd (read 0 demo_chain_disabled)) ! 0 ! 0 = Fin 2 \<and>
   joint_states (snd (read 0 demo_chain_disabled)) ! 0 ! 1 = Fin 3 \<and>
   joint_states (snd (read 0 demo_chain_disabled)) ! 0 ! 2 = Fin 3 \<and>
   joint_states (snd (read 0 demo_chain_disabled)) ! 0 ! 0
     \<noteq> dmul (Fin 1) (joint_states (snd (read 0 demo_chain_disabled)) ! 0 ! 1)"
proof -
  let ?s = demo_chain_disabled
  have f: "length (joints (info ?s)) = 3" "length (standard_interfaces ?s) = 3"
    "joint_states ?s = [[Fin 1, Fin 2, Fin 3], [Fin 0, Fin 0, Fin 0], [Fin 0, Fin 0, Fin 0]]"
    "mimic_joints ?s =
       [\<lparr>joint_index = 0, mimicked_joint_index = 1, multiplier = Fin 1\<rparr>,
        \<lparr>joint_index = 1, mimicked_joint_index = 2, multiplier = Fin 1\<rparr>]"
    "\<not> position_controller_running ?s" "\<not> velocity_controller_running ?s"
    "command_propagation_disabled ?s"
    by (simp_all add: demo_chain_disabled_def demo_chain_fields)
  have a: "joint_states (snd (read 0 ?s)) ! 0 ! 0 = Fin 2"
    and b: "joint_states (snd (read 0 ?s)) ! 0 ! Suc 0 = Fin 3"
    and c: "joint_states (snd (read 0 ?s)) ! 0 ! 2 = Fin 3"
    by (rule backward_chain_step[OF demo_chain_well_formed(2)]; simp add: f)+
  show ?thesis
    using demo_chain_well_formed(2) a b c by (simp add: f)
qed
section \<open>Properties of prepare\<close>

lemma push_modes_fold:
  "fold (push_modes p v key) js acc =
     acc @ concat (map (\<lambda>joint.
              (if key = interface_key joint HW_IF_POSITION then [p] else []) @
              (if key = interface_key joint HW_IF_VELOCITY then [v] else [])) js)"
  by (induction js arbitrary: acc) (simp_all add: push_modes_def Let_def)

lemma collect_modes_fold:
  "fold (\<lambda>key. fold (push_modes p v key) js) keys acc =
     acc @ concat (map (\<lambda>key. concat (map (\<lambda>joint.
              (if key = interface_key joint HW_IF_POSITION then [p] else []) @
              (if key = interface_key joint HW_IF_VELOCITY then [v] else [])) js)) keys)"
  by (induction keys arbitrary: acc) (simp_all add: push_modes_fold)

lemma collect_modes_Cons:
  "collect_modes p v js (key # keys) =
     concat (map (\<lambda>joint.
              (if key = interface_key joint HW_IF_POSITION then [p] else []) @
              (if key = interface_key joint HW_IF_VELOCITY then [v] else [])) js)
     @ collect_modes p v js keys"
  by (simp add: collect_modes_def collect_modes_fold push_modes_fold)

lemma collect_modes_Nil [simp]: "collect_modes p v js [] = []"
  by (simp add: collect_modes_def)

lemma set_collect_modes:
  "x \<in> set (collect_modes p v js keys) \<longleftrightarrow>
     (x = p \<and> (\<exists>joint \<in> set js. interface_key joint HW_IF_POSITION \<in> set keys)) \<or>
     (x = v \<and> (\<exists>joint \<in> set js. interface_key joint HW_IF_VELOCITY \<in> set keys))"
  by (induction keys) (auto simp: collect_modes_Cons split: if_splits)

lemma count_one_key:
  assumes "p \<noteq> v"
  shows "length (filter (\<lambda>x. x = p) (concat (map (\<lambda>joint.
              (if key = interface_key joint HW_IF_POSITION then [p] else []) @
              (if key = interface_key joint HW_IF_VELOCITY then [v] else [])) js)))
         = sum_list (map (\<lambda>joint. if key = interface_key joint HW_IF_POSITION
                                   then 1 else 0) js)"
    and "length (filter (\<lambda>x. x = v) (concat (map (\<lambda>joint.
              (if key = interface_key joint HW_IF_POSITION then [p] else []) @
              (if key = interface_key joint HW_IF_VELOCITY then [v] else [])) js)))
         = sum_list (map (\<lambda>joint. if key = interface_key joint HW_IF_VELOCITY
                                   then 1 else 0) js)"
  using assms by (induction js) auto

lemma count_collect_modes:
  assumes "p \<noteq> v"
  shows "length (filter (\<lambda>x. x = p) (collect_modes p v js keys))
         = sum_list (map (\<lambda>joint. count_list keys (interface_key joint HW_IF_POSITION)) js)"
    and "length (filter (\<lambda>x. x = v) (collect_modes p v js keys))
         = sum_list (map (\<lambda>joint. count_list keys (interface_key joint HW_IF_VELOCITY)) js)"
proof -
  have swap: "\<And>(f :: ComponentInfo \<Rightarrow> nat) g.
      sum_list (map f js) + sum_list (map g js) = sum_list (map (\<lambda>joint. f joint + g joint) js)"
    by (simp add: sum_list_addf)
  show "length (filter (\<lambda>x. x = p) (collect_modes p v js keys))
         = sum_list (map (\<lambda>joint. count_list keys (interface_key joint HW_IF_POSITION)) js)"
  proof (induction keys)
    case Nil
    then show ?case by simp
  next
    case (Cons key keys)
    have "(\<lambda>joint. (if key = interface_key joint HW_IF_POSITION then 1 else 0) +
                    count_list keys (interface_key joint HW_IF_POSITION))
          = (\<lambda>joint. count_list (key # keys) (interface_key joint HW_IF_POSITION))"
      by auto
    then show ?case
      using Cons by (simp add: collect_modes_Cons count_one_key(1)[OF assms] swap
                          del: count_list.simps)
  qed
  show "length (filter (\<lambda>x. x = v) (collect_modes p v js keys))
         = sum_list (map (\<lambda>joint. count_list keys (interface_key joint HW_IF_VELOCITY)) js)"
  proof (induction keys)
    case Nil
    then show ?case by simp
  next
    case (Cons key keys)
    have "(\<lambda>joint. (if key = interface_key joint HW_IF_VELOCITY then 1 else 0) +
                    count_list keys (interface_key joint HW_IF_VELOCITY))
          = (\<lambda>joint. count_list (key # keys) (interface_key joint HW_IF_VELOCITY))"
      by auto
    then show ?case
      using Cons by (simp add: collect_modes_Cons count_one_key(2)[OF assms] swap
                          del: count_list.simps)
  qed
qed

lemma count_list_distinct: "distinct xs \<Longrightarrow> count_list xs x \<le> Suc 0"
  by (induction xs) auto

lemma sum_list_below_length:
  assumes "\<forall>x \<in> set xs. f x \<le> (1::nat)" and "\<exists>x \<in> set xs. f x = 0"
  shows "sum_list (map f xs) < length xs"
  using assms
proof (induction xs)
  case Nil
  then show ?case by simp
next
  case (Cons a xs)
  have le: "sum_list (map f xs) \<le> length xs"
    using Cons.prems(1) by (induction xs) (auto simp: add_le_mono le_SucI)
  show ?case
  proof (cases "f a = 0")
    case True
    with le show ?thesis by simp
  next
    case False
    with Cons.prems have "\<exists>x \<in> set xs. f x = 0" and "f a \<le> 1"
      by auto
    with Cons.IH Cons.prems(1) show ?thesis
      by auto
  qed
qed

lemma equal_to_predecessor_iff:
  "equal_to_predecessor xs \<longleftrightarrow> (\<forall>x \<in> set xs. \<forall>y \<in> set xs. x = y)"
proof (induction xs)
  case Nil
  then show ?case by (simp add: equal_to_predecessor_def)
next
  case (Cons a xs)
  show ?case
  proof (cases xs)
    case Nil
    then show ?thesis by (simp add: equal_to_predecessor_def)
  next
    case (Cons b ys)
    have "equal_to_predecessor (a # b # ys) \<longleftrightarrow> a = b \<and> equal_to_predecessor (b # ys)"
      by (auto simp: equal_to_predecessor_def)
    with Cons.IH Cons show ?thesis
      using \<open>equal_to_predecessor xs = (\<forall>x\<in>set xs. \<forall>y\<in>set xs. x = y)\<close> by auto
  qed
qed

text \<open>
  A request without repeated names that names a proper nonempty subset of the joints
  never yields modes that are one per joint and all the same.
\<close>

lemma partial_group_rejected:
  assumes pv: "p \<noteq> v" and dist: "distinct keys" and part: "names_partial_group keys js"
  shows "collect_modes p v js keys \<noteq> [] \<and>
         (length (collect_modes p v js keys) \<noteq> length js \<or>
          \<not> equal_to_predecessor (collect_modes p v js keys))"
proof -
  let ?sm = "collect_modes p v js keys"
  from part obtain j1 j0 where j1: "j1 \<in> set js" "names_joint keys j1"
    and j0: "j0 \<in> set js" "\<not> names_joint keys j0"
    by (auto simp: names_partial_group_def)
  from j1 have "p \<in> set ?sm \<or> v \<in> set ?sm"
    by (auto simp: set_collect_modes names_joint_def)
  then have ne: "?sm \<noteq> []"
    by auto
  have "length ?sm \<noteq> length js" if eq: "equal_to_predecessor ?sm"
  proof -
    from eq have all: "\<forall>x \<in> set ?sm. \<forall>y \<in> set ?sm. x = y"
      by (simp add: equal_to_predecessor_iff)
    have pvs: "\<forall>x \<in> set ?sm. x = p \<or> x = v"
      by (auto simp: set_collect_modes)
    from ne obtain x where x: "x \<in> set ?sm"
      by (cases ?sm) auto
    with pvs have "x = p \<or> x = v"
      by simp
    then show ?thesis
    proof
      assume "x = p"
      with all x have "\<forall>y \<in> set ?sm. y = p"
        by auto
      then have "length ?sm = length (filter (\<lambda>y. y = p) ?sm)"
        by simp
      also have "\<dots> = sum_list (map (\<lambda>joint. count_list keys (interface_key joint HW_IF_POSITION)) js)"
        by (rule count_collect_modes(1)[OF pv])
      also have "\<dots> < length js"
      proof (rule sum_list_below_length)
        show "\<forall>joint \<in> set js. count_list keys (interface_key joint HW_IF_POSITION) \<le> 1"
          using dist count_list_distinct[of keys] by simp
        show "\<exists>joint \<in> set js. count_list keys (interface_key joint HW_IF_POSITION) = 0"
          using j0 by (intro bexI[of _ j0]) (simp_all add: names_joint_def)
      qed
      finally show ?thesis by simp
    next
      assume "x = v"
      with all x have "\<forall>y \<in> set ?sm. y = v"
        by auto
      then have "length ?sm = length (filter (\<lambda>y. y = v) ?sm)"
        by simp
      also have "\<dots> = sum_list (map (\<lambda>joint. count_list keys (interface_key joint HW_IF_VELOCITY)) js)"
        by (rule count_collect_modes(2)[OF pv])
      also have "\<dots> < length js"
      proof (rule sum_list_below_length)
        show "\<forall>joint \<in> set js. count_list keys (interface_key joint HW_IF_VELOCITY) \<le> 1"
          using dist count_list_distinct[of keys] by simp
        show "\<exists>joint \<in> set js. count_list keys (interface_key joint HW_IF_VELOCITY) = 0"
          using j0 by (intro bexI[of _ j0]) (simp_all add: names_joint_def)
      qed
      finally show ?thesis by simp
    qed
  qed
  with ne show ?thesis
    by blast
qed

lemma mixed_modes_rejected:
  assumes pv: "p \<noteq> v" and mix: "mixes_modes keys js"
  shows "collect_modes p v js keys \<noteq> [] \<and> \<not> equal_to_predecessor (collect_modes p v js keys)"
proof -
  from mix have "p \<in> set (collect_modes p v js keys)" "v \<in> set (collect_modes p v js keys)"
    by (auto simp: set_collect_modes mixes_modes_def)
  with pv show ?thesis
    by (auto simp: equal_to_predecessor_iff)
qed

lemma HW_IF_distinct: "HW_IF_POSITION \<noteq> HW_IF_VELOCITY"
  by (simp add: HW_IF_POSITION_def HW_IF_VELOCITY_def)

lemma prepare_frame [simp]:
  "info (snd (prepare_command_mode_switch a b s)) = info s"
  "position_controller_running (snd (prepare_command_mode_switch a b s)) =
     position_controller_running s"
  "velocity_controller_running (snd (prepare_command_mode_switch a b s)) =
     velocity_controller_running s"
  "joint_commands (snd (prepare_command_mode_switch a b s)) = joint_commands s"
  "joint_states (snd (prepare_command_mode_switch a b s)) = joint_states s"
  "other_commands (snd (prepare_command_mode_switch a b s)) = other_commands s"
  "other_states (snd (prepare_command_mode_switch a b s)) = other_states s"
  "sensor_fake_commands (snd (prepare_command_mode_switch a b s)) = sensor_fake_commands s"
  "sensor_states (snd (prepare_command_mode_switch a b s)) = sensor_states s"
  "joint_pos_commands_old (snd (prepare_command_mode_switch a b s)) = joint_pos_commands_old s"
  by (simp_all add: prepare_command_mode_switch_def Let_def)

lemma prepare_well_formed:
  "well_formed (snd (prepare_command_mode_switch a b s)) = well_formed s"
  by (simp add: prepare_command_mode_switch_def Let_def well_formed_def)

lemma prepare_modes_exclusive:
  "modes_exclusive (snd (prepare_command_mode_switch a b s)) = modes_exclusive s"
  by (simp add: modes_exclusive_def)

text \<open>
  C6, as amended. For every prepare call whose start and stop lists repeat no name:
  it returns an error if the start list holds the position interface of one joint and
  the velocity interface of one joint, or if the start or the stop list names, by their
  position or velocity interfaces, some but not all joints. In every case prepare leaves
  the active mode flags and all command and state values unchanged; it only records the
  requested start and stop modes.
\<close>

theorem prepare_command_mode_switch_validates:
  assumes "distinct start_ifs" and "distinct stop_ifs"
  shows "(mixes_modes start_ifs (joints (info s)) \<longrightarrow>
            fst (prepare_command_mode_switch start_ifs stop_ifs s) = ERROR) \<and>
         (names_partial_group start_ifs (joints (info s)) \<longrightarrow>
            fst (prepare_command_mode_switch start_ifs stop_ifs s) = ERROR) \<and>
         (names_partial_group stop_ifs (joints (info s)) \<longrightarrow>
            fst (prepare_command_mode_switch start_ifs stop_ifs s) = ERROR) \<and>
         position_controller_running (snd (prepare_command_mode_switch start_ifs stop_ifs s)) =
           position_controller_running s \<and>
         velocity_controller_running (snd (prepare_command_mode_switch start_ifs stop_ifs s)) =
           velocity_controller_running s \<and>
         joint_commands (snd (prepare_command_mode_switch start_ifs stop_ifs s)) =
           joint_commands s \<and>
         joint_states (snd (prepare_command_mode_switch start_ifs stop_ifs s)) =
           joint_states s \<and>
         other_commands (snd (prepare_command_mode_switch start_ifs stop_ifs s)) =
           other_commands s \<and>
         other_states (snd (prepare_command_mode_switch start_ifs stop_ifs s)) =
           other_states s \<and>
         sensor_fake_commands (snd (prepare_command_mode_switch start_ifs stop_ifs s)) =
           sensor_fake_commands s \<and>
         sensor_states (snd (prepare_command_mode_switch start_ifs stop_ifs s)) =
           sensor_states s"
proof -
  let ?js = "joints (info s)"
  have a: "fst (prepare_command_mode_switch start_ifs stop_ifs s) = ERROR"
    if "mixes_modes start_ifs ?js"
    using mixed_modes_rejected[OF HW_IF_distinct that]
    by (simp add: prepare_command_mode_switch_def Let_def)
  have b: "fst (prepare_command_mode_switch start_ifs stop_ifs s) = ERROR"
    if "names_partial_group start_ifs ?js"
    using partial_group_rejected[OF HW_IF_distinct assms(1) that]
    by (auto simp: prepare_command_mode_switch_def Let_def)
  have sv: "STOP_POSITION \<noteq> STOP_VELOCITY"
    by simp
  have c: "fst (prepare_command_mode_switch start_ifs stop_ifs s) = ERROR"
    if "names_partial_group stop_ifs ?js"
    using partial_group_rejected[OF sv assms(2) that]
    by (auto simp: prepare_command_mode_switch_def Let_def)
  from a b c show ?thesis
    by simp
qed

lemma demo_joints:
  "joints (info demo) = [demo_joint ''J1'', demo_joint ''J2'']"
  "interface_key (demo_joint n) HW_IF_POSITION = n @ ''/position''"
  "interface_key (demo_joint n) HW_IF_VELOCITY = n @ ''/velocity''"
  by (simp_all add: demo_def demo_joint_def interface_key_def HW_IF_POSITION_def
                    HW_IF_VELOCITY_def)

theorem prepare_command_mode_switch_validates_witness:
  "distinct [''J1/position'', ''J2/velocity''] \<and> distinct [''J2/velocity''] \<and>
   mixes_modes [''J1/position'', ''J2/velocity''] (joints (info demo)) \<and>
   fst (prepare_command_mode_switch [''J1/position'', ''J2/velocity''] [''J2/velocity''] demo)
     = ERROR \<and>
   names_partial_group [''J2/velocity''] (joints (info demo)) \<and>
   fst (prepare_command_mode_switch [] [''J2/velocity''] demo) = ERROR \<and>
   fst (prepare_command_mode_switch [''J2/velocity''] [] demo) = ERROR \<and>
   joint_commands (snd (prepare_command_mode_switch [''J2/velocity''] [] demo))
     = joint_commands demo"
proof -
  have d: "distinct [''J1/position'', ''J2/velocity'']" "distinct [''J2/velocity'']"
    "distinct ([] :: string list)"
    by simp_all
  have m: "mixes_modes [''J1/position'', ''J2/velocity''] (joints (info demo))"
    by (simp add: mixes_modes_def demo_joints)
  have p: "names_partial_group [''J2/velocity''] (joints (info demo))"
    by (simp add: names_partial_group_def names_joint_def demo_joints)
  from prepare_command_mode_switch_validates[OF d(1) d(2), of demo] m
  have a: "fst (prepare_command_mode_switch [''J1/position'', ''J2/velocity'']
                  [''J2/velocity''] demo) = ERROR"
    by blast
  from prepare_command_mode_switch_validates[OF d(3) d(2), of demo] p
  have b: "fst (prepare_command_mode_switch [] [''J2/velocity''] demo) = ERROR"
    by blast
  from prepare_command_mode_switch_validates[OF d(2) d(3), of demo] p
  have c: "fst (prepare_command_mode_switch [''J2/velocity''] [] demo) = ERROR"
    and e: "joint_commands (snd (prepare_command_mode_switch [''J2/velocity''] [] demo))
              = joint_commands demo"
    by blast+
  from d m p a b c e show ?thesis
    by blast
qed

theorem prepare_repeated_name_counterexample:
  "names_joint [''J1/position'', ''J1/position''] (joints (info demo) ! 0) \<and>
   \<not> names_joint [''J1/position'', ''J1/position''] (joints (info demo) ! 1) \<and>
   names_partial_group [''J1/position'', ''J1/position''] (joints (info demo)) \<and>
   start_modes (snd (prepare_command_mode_switch [''J1/position'', ''J1/position''] [] demo))
     = [HW_IF_POSITION, HW_IF_POSITION] \<and>
   fst (prepare_command_mode_switch [''J1/position'', ''J1/position''] [] demo) = OK"
proof -
  have sm: "collect_modes HW_IF_POSITION HW_IF_VELOCITY (joints (info demo))
              [''J1/position'', ''J1/position''] = [HW_IF_POSITION, HW_IF_POSITION]"
    by (simp add: collect_modes_Cons demo_joints)
  have n: "length (joints (info demo)) = 2"
    by (simp add: demo_joints)
  have "fst (prepare_command_mode_switch [''J1/position'', ''J1/position''] [] demo) = OK"
    by (simp add: prepare_command_mode_switch_def Let_def sm n equal_to_predecessor_def)
  moreover have "start_modes (snd (prepare_command_mode_switch
                    [''J1/position'', ''J1/position''] [] demo))
                 = [HW_IF_POSITION, HW_IF_POSITION]"
    by (simp add: prepare_command_mode_switch_def Let_def sm)
  ultimately show ?thesis
    by (simp add: names_partial_group_def names_joint_def demo_joints)
qed

section \<open>The loops of configure\<close>

lemma first_index_Some:
  "first_index P xs = Some k \<Longrightarrow> k < length xs \<and> P (xs ! k)"
proof (induction xs arbitrary: k)
  case Nil
  then show ?case by simp
next
  case (Cons x xs)
  then show ?case
    by (cases "P x") (auto split: if_splits)
qed

lemma first_index_None: "first_index P xs = None \<longleftrightarrow> (\<forall>x \<in> set xs. \<not> P x)"
  by (induction xs) auto

lemma first_index_member:
  "x \<in> set xs \<Longrightarrow> \<exists>k. first_index (\<lambda>y. y = x) xs = Some k \<and> k < length xs \<and> xs ! k = x"
proof -
  assume "x \<in> set xs"
  then have "first_index (\<lambda>y. y = x) xs \<noteq> None"
    by (simp add: first_index_None)
  then obtain k where k: "first_index (\<lambda>y. y = x) xs = Some k"
    by auto
  with first_index_Some[OF k] show ?thesis
    by simp
qed

lemma resize_rows_constructed:
  "resize_rows n nj [] = replicate n (replicate nj NaN)"
proof -
  let ?f = "\<lambda>i (m' :: double list list). m'[i := resize (m' ! i) nj NaN]"
  let ?P = "\<lambda>k (m :: double list list). length m = n \<and>
              (\<forall>i < n. m ! i = (if i < k then replicate nj NaN else []))"
  have "?P n (fold ?f [0..<n] (replicate n []))"
  proof (rule fold_upt_invariant[where P = ?P and a = 0])
    show "?P 0 (replicate n [])" by simp
  next
    fix k y
    assume k: "k < n" and y: "?P k y"
    then have "y ! k = []"
      by simp
    then have "?f k y = y[k := replicate nj NaN]"
      by (simp add: resize_def)
    with y k show "?P (Suc k) (?f k y)"
      by (auto simp: nth_list_update less_Suc_eq)
  qed simp
  then have "fold ?f [0..<n] (replicate n []) = replicate n (replicate nj NaN)"
    by (intro nth_equalityI) simp_all
  then show ?thesis
    by (simp add: resize_rows_def resize_def)
qed

lemma rect_replicate [simp]: "rect (replicate r (replicate c x)) r c"
  by (simp add: rect_def)

lemma initial_value_step_None [simp]:
  "fold (initial_value_step stod js ifs i) xs None = None"
  by (induction xs) (simp_all add: initial_value_step_def)

lemma initial_values_column:
  assumes rect: "rect st (length ifs) C" and i: "i < C"
  shows "if \<exists>j < length ifs. initial_value_fails stod (js ! i) (ifs ! j)
         then fold (initial_value_step stod js ifs i) [0..<length ifs] (Some st) = None
         else \<exists>st'. fold (initial_value_step stod js ifs i) [0..<length ifs] (Some st) = Some st' \<and>
                same_shape st' st \<and>
                (\<forall>r c. st' ! r ! c =
                   (if c = i \<and> r < length ifs
                    then initial_value_or stod (js ! i) (ifs ! r) (st ! r ! c)
                    else st ! r ! c))"
proof -
  let ?P = "\<lambda>k sto.
      if \<exists>j < k. initial_value_fails stod (js ! i) (ifs ! j) then sto = None
      else \<exists>st'. sto = Some st' \<and> same_shape st' st \<and>
                (\<forall>r c. st' ! r ! c =
                   (if c = i \<and> r < k
                    then initial_value_or stod (js ! i) (ifs ! r) (st ! r ! c)
                    else st ! r ! c))"
  have "?P (length ifs) (fold (initial_value_step stod js ifs i) [0..<length ifs] (Some st))"
  proof (rule fold_upt_invariant[where P = ?P and a = 0])
    show "?P 0 (Some st)" by simp
  next
    fix k y
    assume k: "k < length ifs" and y: "?P k y"
    show "?P (Suc k) (initial_value_step stod js ifs i k y)"
    proof (cases "\<exists>j < k. initial_value_fails stod (js ! i) (ifs ! j)")
      case True
      with y have "y = None" by simp
      moreover from True have "\<exists>j < Suc k. initial_value_fails stod (js ! i) (ifs ! j)"
        using less_Suc_eq by blast
      ultimately show ?thesis
        by (simp add: initial_value_step_def)
    next
      case False
      with y obtain st' where st': "y = Some st'" "same_shape st' st"
        and cells: "\<And>r c. st' ! r ! c =
                   (if c = i \<and> r < k
                    then initial_value_or stod (js ! i) (ifs ! r) (st ! r ! c)
                    else st ! r ! c)"
        by auto
      from st'(2) rect k i have kl: "k < length st'" and il: "i < length (st' ! k)"
        by (simp_all add: same_shape_def rect_def)
      have upd: "\<And>x r c. set_cell st' k i x ! r ! c = (if r = k \<and> c = i then x else st' ! r ! c)"
        using kl il by (simp add: nth_set_cell)
      have ex: "(\<exists>j < Suc k. initial_value_fails stod (js ! i) (ifs ! j)) \<longleftrightarrow>
                  initial_value_fails stod (js ! i) (ifs ! k)"
        using False less_Suc_eq by auto
      show ?thesis
      proof (cases "initial_parameter (js ! i) (ifs ! k)")
        case None
        then have stp: "initial_value_step stod js ifs i k y = Some st'"
          by (simp add: initial_value_step_def st'(1))
        have nfk: "\<not> initial_value_fails stod (js ! i) (ifs ! k)"
          using None by (simp add: initial_value_fails_def)
        have nf: "\<not> (\<exists>j < Suc k. initial_value_fails stod (js ! i) (ifs ! j))"
          using ex nfk by blast
        have "\<And>x. initial_value_or stod (js ! i) (ifs ! k) x = x"
          using None by (simp add: initial_value_or_def)
        then have res: "\<exists>st''. initial_value_step stod js ifs i k y = Some st'' \<and>
                same_shape st'' st \<and>
                (\<forall>r c. st'' ! r ! c =
                   (if c = i \<and> r < Suc k
                    then initial_value_or stod (js ! i) (ifs ! r) (st ! r ! c)
                    else st ! r ! c))"
          using st'(2) cells by (auto simp: stp less_Suc_eq)
        show ?thesis
          by (subst if_not_P[OF nf]) (rule res)
      next
        case (Some v)
        show ?thesis
        proof (cases "stod v")
          case None
          then have "initial_value_step stod js ifs i k y = None"
            using Some by (simp add: initial_value_step_def st'(1))
          moreover have "initial_value_fails stod (js ! i) (ifs ! k)"
            using Some None by (simp add: initial_value_fails_def)
          ultimately show ?thesis
            by (simp only: ex if_True)
        next
          case (Some x)
          then have stp: "initial_value_step stod js ifs i k y = Some (set_cell st' k i x)"
            using \<open>initial_parameter (js ! i) (ifs ! k) = Some v\<close>
            by (simp add: initial_value_step_def st'(1))
          have nfk: "\<not> initial_value_fails stod (js ! i) (ifs ! k)"
            using Some \<open>initial_parameter (js ! i) (ifs ! k) = Some v\<close>
            by (simp add: initial_value_fails_def)
          have nf: "\<not> (\<exists>j < Suc k. initial_value_fails stod (js ! i) (ifs ! j))"
            using ex nfk by blast
          have "\<And>z. initial_value_or stod (js ! i) (ifs ! k) z = x"
            using Some \<open>initial_parameter (js ! i) (ifs ! k) = Some v\<close>
            by (simp add: initial_value_or_def)
          then have res: "\<exists>st''. initial_value_step stod js ifs i k y = Some st'' \<and>
                same_shape st'' st \<and>
                (\<forall>r c. st'' ! r ! c =
                   (if c = i \<and> r < Suc k
                    then initial_value_or stod (js ! i) (ifs ! r) (st ! r ! c)
                    else st ! r ! c))"
            using st'(2) cells by (auto simp: stp upd less_Suc_eq)
          show ?thesis
            by (subst if_not_P[OF nf]) (rule res)
        qed
      qed
    qed
  qed simp
  then show ?thesis
    by simp
qed

lemma initial_values_matrix:
  assumes rect: "rect st (length ifs) (length js)"
  shows "if \<exists>i < length js. \<exists>j < length ifs. initial_value_fails stod (js ! i) (ifs ! j)
         then fold (\<lambda>i. fold (initial_value_step stod js ifs i) [0..<length ifs])
                [0..<length js] (Some st) = None
         else \<exists>st'. fold (\<lambda>i. fold (initial_value_step stod js ifs i) [0..<length ifs])
                       [0..<length js] (Some st) = Some st' \<and>
                same_shape st' st \<and>
                (\<forall>r c. st' ! r ! c =
                   (if c < length js \<and> r < length ifs
                    then initial_value_or stod (js ! c) (ifs ! r) (st ! r ! c)
                    else st ! r ! c))"
proof -
  let ?g = "\<lambda>i. fold (initial_value_step stod js ifs i) [0..<length ifs]"
  let ?P = "\<lambda>k sto.
      if \<exists>i < k. \<exists>j < length ifs. initial_value_fails stod (js ! i) (ifs ! j) then sto = None
      else \<exists>st'. sto = Some st' \<and> same_shape st' st \<and>
                (\<forall>r c. st' ! r ! c =
                   (if c < k \<and> r < length ifs
                    then initial_value_or stod (js ! c) (ifs ! r) (st ! r ! c)
                    else st ! r ! c))"
  have "?P (length js) (fold ?g [0..<length js] (Some st))"
  proof (rule fold_upt_invariant[where P = ?P and a = 0])
    show "?P 0 (Some st)" by simp
  next
    fix k y
    assume k: "k < length js" and y: "?P k y"
    show "?P (Suc k) (?g k y)"
    proof (cases "\<exists>i < k. \<exists>j < length ifs. initial_value_fails stod (js ! i) (ifs ! j)")
      case True
      with y have "y = None" by simp
      moreover from True
      have "\<exists>i < Suc k. \<exists>j < length ifs. initial_value_fails stod (js ! i) (ifs ! j)"
        using less_Suc_eq by blast
      ultimately show ?thesis
        by simp
    next
      case False
      with y obtain st' where st': "y = Some st'" "same_shape st' st"
        and cells: "\<And>r c. st' ! r ! c =
                   (if c < k \<and> r < length ifs
                    then initial_value_or stod (js ! c) (ifs ! r) (st ! r ! c)
                    else st ! r ! c)"
        by auto
      have r': "rect st' (length ifs) (length js)"
        using st'(2) rect by (rule same_shape_rect)
      have ex: "(\<exists>i < Suc k. \<exists>j < length ifs. initial_value_fails stod (js ! i) (ifs ! j)) \<longleftrightarrow>
                  (\<exists>j < length ifs. initial_value_fails stod (js ! k) (ifs ! j))"
        using False less_Suc_eq by auto
      note col = initial_values_column[OF r' k, where stod = stod and js = js]
      show ?thesis
      proof (cases "\<exists>j < length ifs. initial_value_fails stod (js ! k) (ifs ! j)")
        case True
        with col have "?g k y = None"
          by (simp add: st'(1))
        with True show ?thesis
          by (simp only: ex if_True)
      next
        case nofail: False
        with col obtain st'' where st'': "?g k y = Some st''" "same_shape st'' st'"
          and cells': "\<And>r c. st'' ! r ! c =
                   (if c = k \<and> r < length ifs
                    then initial_value_or stod (js ! k) (ifs ! r) (st' ! r ! c)
                    else st' ! r ! c)"
          unfolding st'(1) by auto
        have sh: "same_shape st'' st"
          using st''(2) st'(2) by (simp add: same_shape_def)
        have "\<forall>r c. st'' ! r ! c =
                   (if c < Suc k \<and> r < length ifs
                    then initial_value_or stod (js ! c) (ifs ! r) (st ! r ! c)
                    else st ! r ! c)"
          by (auto simp: cells' cells less_Suc_eq)
        with st''(1) sh have res: "\<exists>st'. ?g k y = Some st' \<and> same_shape st' st \<and>
                (\<forall>r c. st' ! r ! c =
                   (if c < Suc k \<and> r < length ifs
                    then initial_value_or stod (js ! c) (ifs ! r) (st ! r ! c)
                    else st ! r ! c))"
          by blast
        have nf: "\<not> (\<exists>i < Suc k. \<exists>j < length ifs.
                                  initial_value_fails stod (js ! i) (ifs ! j))"
          using ex nofail by blast
        show ?thesis
          by (subst if_not_P[OF nf]) (rule res)
      qed
    qed
  qed simp
  then show ?thesis
    by simp
qed

text \<open>Storage initialisation on the backend as constructed.\<close>

lemma initialize_storage_vectors_constructed:
  assumes "initialize_storage_vectors stod js ifs [] [] = Some (commands, states)"
  shows "commands = replicate (length ifs) (replicate (length js) NaN)"
    and "rect states (length ifs) (length js)"
    and "\<forall>i < length js. \<forall>j < length ifs. \<not> initial_value_fails stod (js ! i) (ifs ! j)"
    and "i < length js \<Longrightarrow> j < length ifs \<Longrightarrow>
         states ! j ! i = initial_value_or stod (js ! i) (ifs ! j) NaN"
proof -
  let ?st0 = "replicate (length ifs) (replicate (length js) NaN)"
  let ?r = "fold (\<lambda>i. fold (initial_value_step stod js ifs i) [0..<length ifs])
              [0..<length js] (Some ?st0)"
  from assms have c: "commands = ?st0" and r: "?r = Some states"
    by (auto simp: initialize_storage_vectors_def Let_def resize_rows_constructed)
  show "commands = ?st0"
    by (rule c)
  have rect0: "rect ?st0 (length ifs) (length js)"
    by simp
  note M = initial_values_matrix[OF rect0, of stod]
  from M r show nofail: "\<forall>i < length js. \<forall>j < length ifs.
      \<not> initial_value_fails stod (js ! i) (ifs ! j)"
    by (auto split: if_splits)
  with M r have sh: "same_shape states ?st0"
    and cells: "\<And>r c. states ! r ! c =
                   (if c < length js \<and> r < length ifs
                    then initial_value_or stod (js ! c) (ifs ! r) (?st0 ! r ! c)
                    else ?st0 ! r ! c)"
    by (auto split: if_splits)
  from sh rect0 show "rect states (length ifs) (length js)"
    by (rule same_shape_rect)
  show "states ! j ! i = initial_value_or stod (js ! i) (ifs ! j) NaN"
    if "i < length js" "j < length ifs"
    using that by (simp add: cells)
qed

lemma zero_unset_cell_set:
  "zero_unset_cell i j st = set_cell st j i (if isnan (st ! j ! i) then Fin 0 else st ! j ! i)"
  by (simp add: zero_unset_cell_def set_cell_def)

lemma zero_unset_column:
  assumes rect: "rect st R C" and i: "i < C"
  shows "same_shape (fold (zero_unset_cell i) [0..<R] st) st \<and>
         (\<forall>r c. fold (zero_unset_cell i) [0..<R] st ! r ! c =
            (if c = i \<and> r < R \<and> isnan (st ! r ! c) then Fin 0 else st ! r ! c))"
proof -
  let ?P = "\<lambda>k y. same_shape y st \<and>
              (\<forall>r c. y ! r ! c = (if c = i \<and> r < k \<and> isnan (st ! r ! c) then Fin 0
                                 else st ! r ! c))"
  have "?P R (fold (zero_unset_cell i) [0..<R] st)"
  proof (rule fold_upt_invariant[where P = ?P and a = 0])
    show "?P 0 st" by simp
  next
    fix k y
    assume k: "k < R" and y: "?P k y"
    from y rect k i have kl: "k < length y" and il: "i < length (y ! k)"
      by (simp_all add: same_shape_def rect_def)
    have upd: "\<And>x r c. set_cell y k i x ! r ! c = (if r = k \<and> c = i then x else y ! r ! c)"
      using kl il by (simp add: nth_set_cell)
    from y have cur: "y ! k ! i = st ! k ! i"
      by simp
    show "?P (Suc k) (zero_unset_cell i k y)"
      using y by (auto simp: zero_unset_cell_set upd cur less_Suc_eq)
  qed simp
  then show ?thesis
    by simp
qed

lemma zero_unset_cells:
  assumes rect: "rect st R C"
  shows "same_shape (zero_unset C R st) st \<and>
         (\<forall>r c. zero_unset C R st ! r ! c =
            (if c < C \<and> r < R \<and> isnan (st ! r ! c) then Fin 0 else st ! r ! c))"
proof -
  let ?g = "\<lambda>i. fold (zero_unset_cell i) [0..<R]"
  let ?P = "\<lambda>k y. same_shape y st \<and>
              (\<forall>r c. y ! r ! c = (if c < k \<and> r < R \<and> isnan (st ! r ! c) then Fin 0
                                 else st ! r ! c))"
  have "?P C (fold ?g [0..<C] st)"
  proof (rule fold_upt_invariant[where P = ?P and a = 0])
    show "?P 0 st" by simp
  next
    fix k y
    assume k: "k < C" and y: "?P k y"
    from y have "same_shape y st"
      by simp
    then have ry: "rect y R C"
      using rect by (rule same_shape_rect)
    from zero_unset_column[OF ry k]
    have sh: "same_shape (?g k y) y"
      and cells: "\<And>r c. ?g k y ! r ! c =
                    (if c = k \<and> r < R \<and> isnan (y ! r ! c) then Fin 0 else y ! r ! c)"
      by simp_all
    from sh y have "same_shape (?g k y) st"
      by (simp add: same_shape_def)
    moreover have "\<forall>r c. ?g k y ! r ! c =
                 (if c < Suc k \<and> r < R \<and> isnan (st ! r ! c) then Fin 0 else st ! r ! c)"
      using y by (auto simp: cells less_Suc_eq)
    ultimately show "?P (Suc k) (?g k y)"
      by simp
  qed simp
  then show ?thesis
    by (simp add: zero_unset_def)
qed

lemma search_mimic_joints_indices:
  assumes "search_mimic_joints stod js [] = Inr ms"
  shows "(\<forall>m \<in> set ms. joint_index m < length js \<and> mimicked_joint_index m < length js) \<and>
         distinct (map joint_index ms)"
proof -
  let ?P = "\<lambda>k (acc :: failure + MimicJoint list). case acc of
              Inl e \<Rightarrow> True
            | Inr ms \<Rightarrow> (\<forall>m \<in> set ms. joint_index m < k \<and> mimicked_joint_index m < length js) \<and>
                        distinct (map joint_index ms)"
  have "?P (length js) (fold (mimic_step stod js) [0..<length js] (Inr []))"
  proof (rule fold_upt_invariant[where P = ?P and a = 0])
    show "?P 0 (Inr [])" by simp
  next
    fix k acc
    assume k: "k < length js" and acc: "?P k acc"
    show "?P (Suc k) (mimic_step stod js k acc)"
    proof (cases acc)
      case (Inl e)
      then show ?thesis by (simp add: mimic_step_def)
    next
      case (Inr ms')
      with acc have old: "\<forall>m \<in> set ms'. joint_index m < k \<and> mimicked_joint_index m < length js"
        and dist: "distinct (map joint_index ms')"
        by simp_all
      from old have fresh: "k \<notin> joint_index ` set ms'"
        by auto
      from old have old': "\<forall>m \<in> set ms'. joint_index m < Suc k \<and> mimicked_joint_index m < length js"
        by (auto simp: less_Suc_eq)
      show ?thesis
        using old' dist fresh first_index_Some[of "\<lambda>joint_info. name joint_info = _" js]
        by (auto simp: mimic_step_def Inr split: option.splits)
    qed
  qed simp
  with assms show ?thesis
    by (simp add: search_mimic_joints_def)
qed

lemma search_mimic_joints_none:
  assumes "\<forall>joint \<in> set js. parameters joint ''mimic'' = None"
  shows "search_mimic_joints stod js ms0 = Inr ms0"
proof -
  let ?P = "\<lambda>(k::nat) (acc :: failure + MimicJoint list). acc = Inr ms0"
  have "?P (length js) (fold (mimic_step stod js) [0..<length js] (Inr ms0))"
  proof (rule fold_upt_invariant[where P = ?P and a = 0])
    show "?P 0 (Inr ms0)" by simp
  next
    fix k acc
    assume k: "k < length js" and acc: "?P k acc"
    from assms k have "parameters (js ! k) ''mimic'' = None"
      by simp
    with acc show "?P (Suc k) (mimic_step stod js k acc)"
      by (simp add: mimic_step_def)
  qed simp
  then show ?thesis
    by (simp add: search_mimic_joints_def)
qed

lemma add_other_interface_fold:
  "set (fold (add_other_interface std) xs others) = set others \<union> (set xs - set std)"
  by (induction xs arbitrary: others) (auto simp: add_other_interface_def)

lemma discover_other_interfaces_set:
  "set (discover_other_interfaces std js others) =
     set others \<union>
     {n. n \<notin> set std \<and>
         (\<exists>joint \<in> set js. n \<in> set (command_interfaces joint) \<union> set (state_interfaces joint))}"
proof -
  have "set (fold (\<lambda>joint others.
             fold (add_other_interface std) (state_interfaces joint)
               (fold (add_other_interface std) (command_interfaces joint) others)) js others)
        = set others \<union>
     {n. n \<notin> set std \<and>
         (\<exists>joint \<in> set js. n \<in> set (command_interfaces joint) \<union> set (state_interfaces joint))}"
    by (induction js arbitrary: others) (auto simp: add_other_interface_fold)
  then show ?thesis
    by (simp add: discover_other_interfaces_def)
qed

section \<open>The configured backend\<close>

lemma configure_InrD:
  assumes "configure stod cd now hw s0 = Inr (lg, s)"
  shows "\<exists>off custom jc js0 ms oc os sc ss.
     cd hw = OK \<and>
     following_offset_parameters stod hw = Some (off, custom) \<and>
     initialize_storage_vectors stod (joints hw) (standard_interfaces s0)
       (joint_commands s0) (joint_states s0) = Some (jc, js0) \<and>
     search_mimic_joints stod (joints hw) (mimic_joints s0) = Inr ms \<and>
     initialize_storage_vectors stod (joints hw)
       (discover_other_interfaces (standard_interfaces s0) (joints hw) (other_interfaces s0))
       (other_commands s0) (other_states s0) = Some (oc, os) \<and>
     initialize_storage_vectors stod (joints hw)
       (discover_sensor_interfaces (sensors hw) (sensor_interfaces s0))
       (sensor_fake_commands s0) (sensor_states s0) = Some (sc, ss) \<and>
     lg = snd (find_custom_interface custom
            (discover_other_interfaces (standard_interfaces s0) (joints hw)
               (other_interfaces s0))) \<and>
     s = s0\<lparr>info := hw,
             status_field := CONFIGURED,
             fake_sensor_command_interfaces := flag_parameter hw ''fake_sensor_commands'',
             command_propagation_disabled := flag_parameter hw ''disable_commands'',
             position_state_following_offset := off,
             custom_interface_with_following_offset := custom,
             index_custom_interface_with_following_offset :=
               fst (find_custom_interface custom
                      (discover_other_interfaces (standard_interfaces s0) (joints hw)
                         (other_interfaces s0))),
             other_interfaces :=
               discover_other_interfaces (standard_interfaces s0) (joints hw)
                 (other_interfaces s0),
             sensor_interfaces := discover_sensor_interfaces (sensors hw) (sensor_interfaces s0),
             joint_commands := zero_velocity jc,
             joint_states :=
               zero_unset (length (joints hw)) (length (standard_interfaces s0)) js0,
             other_commands := oc,
             other_states := os,
             sensor_fake_commands := sc,
             sensor_states := ss,
             joint_pos_commands_old := jc ! POSITION_INTERFACE_INDEX,
             mimic_joints := ms,
             start_modes := replicate 6 HW_IF_POSITION,
             stop_modes := replicate 6 NONE,
             position_controller_running := False,
             velocity_controller_running := False,
             begin_time := now\<rparr>"
proof -
  from assms have ok: "cd hw = OK"
    by (simp add: configure_def split: if_splits)
  from assms ok obtain off custom where fo: "following_offset_parameters stod hw = Some (off, custom)"
    by (cases "following_offset_parameters stod hw") (auto simp: configure_def)
  from assms ok fo obtain jc js0 where i1: "initialize_storage_vectors stod (joints hw)
       (standard_interfaces s0) (joint_commands s0) (joint_states s0) = Some (jc, js0)"
    by (cases "initialize_storage_vectors stod (joints hw)
       (standard_interfaces s0) (joint_commands s0) (joint_states s0)")
       (auto simp: configure_def)
  from assms ok fo i1 obtain ms where sm: "search_mimic_joints stod (joints hw) (mimic_joints s0) = Inr ms"
    by (cases "search_mimic_joints stod (joints hw) (mimic_joints s0)")
       (auto simp: configure_def)
  let ?others = "discover_other_interfaces (standard_interfaces s0) (joints hw) (other_interfaces s0)"
  from assms ok fo i1 sm obtain oc os where i2: "initialize_storage_vectors stod (joints hw)
       ?others (other_commands s0) (other_states s0) = Some (oc, os)"
    by (cases "initialize_storage_vectors stod (joints hw)
       ?others (other_commands s0) (other_states s0)")
       (auto simp: configure_def Let_def)
  let ?sifs = "discover_sensor_interfaces (sensors hw) (sensor_interfaces s0)"
  from assms ok fo i1 sm i2 obtain sc ss where i3: "initialize_storage_vectors stod (joints hw)
       ?sifs (sensor_fake_commands s0) (sensor_states s0) = Some (sc, ss)"
    by (cases "initialize_storage_vectors stod (joints hw)
       ?sifs (sensor_fake_commands s0) (sensor_states s0)")
       (auto simp: configure_def Let_def)
  from assms ok fo i1 sm i2 i3 show ?thesis
    by (simp add: configure_def Let_def)
qed

lemma configure_well_formed:
  assumes con: "constructed s0" and two: "2 \<le> length (standard_interfaces s0)"
    and cfg: "configure stod cd now hw s0 = Inr (lg, s)"
  shows "well_formed s" and "modes_exclusive s"
proof -
  let ?std = "standard_interfaces s0" and ?js = "joints hw"
  let ?others = "discover_other_interfaces ?std ?js []"
  let ?sifs = "discover_sensor_interfaces (sensors hw) []"
  from configure_InrD[OF cfg] con obtain off custom jc js0 ms oc os sc ss where
    i1: "initialize_storage_vectors stod ?js ?std [] [] = Some (jc, js0)"
    and sm: "search_mimic_joints stod ?js [] = Inr ms"
    and i2: "initialize_storage_vectors stod ?js ?others [] [] = Some (oc, os)"
    and i3: "initialize_storage_vectors stod ?js ?sifs [] [] = Some (sc, ss)"
    and s: "info s = hw" "standard_interfaces s = ?std" "other_interfaces s = ?others"
      "sensor_interfaces s = ?sifs" "joint_commands s = zero_velocity jc"
      "joint_states s = zero_unset (length ?js) (length ?std) js0"
      "other_commands s = oc" "other_states s = os"
      "sensor_fake_commands s = sc" "sensor_states s = ss"
      "joint_pos_commands_old s = jc ! 0" "mimic_joints s = ms"
      "position_controller_running s = False" "velocity_controller_running s = False"
    by (auto simp: constructed_def POSITION_INTERFACE_INDEX_def)
  note a1 = initialize_storage_vectors_constructed[OF i1]
  note a2 = initialize_storage_vectors_constructed[OF i2]
  note a3 = initialize_storage_vectors_constructed[OF i3]
  from two have l1: "Suc 0 < length ?std" and l0: "0 < length ?std"
    by linarith+
  have rjc: "rect jc (length ?std) (length ?js)"
    by (simp add: a1(1))
  have "Suc 0 < length jc"
    using l1 by (simp add: a1(1))
  then have "same_shape (zero_velocity jc) jc"
    using zero_velocity_cells[of jc] by simp
  then have c: "rect (joint_commands s) (length ?std) (length ?js)"
    unfolding s using rjc by (rule same_shape_rect)
  have st: "rect (joint_states s) (length ?std) (length ?js)"
    unfolding s using conjunct1[OF zero_unset_cells[OF a1(2)]] a1(2) by (rule same_shape_rect)
  have old: "length (joint_pos_commands_old s) = length ?js"
    using l0 by (simp add: s a1(1))
  note m = search_mimic_joints_indices[OF sm]
  show "well_formed s"
    using two c st old a2(2) a3(2) m
    by (simp add: well_formed_def Let_def s a2(1) a3(1))
  show "modes_exclusive s"
    by (simp add: modes_exclusive_def s)
qed

text \<open>
  A sufficient condition for configure to succeed: no failing initial value and no
  mimic parameter.
\<close>

lemma initialize_storage_vectors_succeeds:
  assumes "\<forall>joint \<in> set js. \<forall>ifc \<in> set ifs. \<not> initial_value_fails stod joint ifc"
  shows "\<exists>r. initialize_storage_vectors stod js ifs [] [] = Some r"
proof -
  let ?st0 = "replicate (length ifs) (replicate (length js) NaN)"
  have rect0: "rect ?st0 (length ifs) (length js)"
    by simp
  from assms have "\<not> (\<exists>i < length js. \<exists>j < length ifs. initial_value_fails stod (js ! i) (ifs ! j))"
    by simp
  with initial_values_matrix[OF rect0, of stod]
  obtain st' where "fold (\<lambda>i. fold (initial_value_step stod js ifs i) [0..<length ifs])
                       [0..<length js] (Some ?st0) = Some st'"
    by auto
  then show ?thesis
    by (simp add: initialize_storage_vectors_def Let_def resize_rows_constructed)
qed

lemma configure_succeeds:
  assumes con: "constructed s0" and ok: "cd hw = OK"
    and fo: "following_offset_parameters stod hw \<noteq> None"
    and nofail: "\<forall>joint \<in> set (joints hw). \<forall>ifc. \<not> initial_value_fails stod joint ifc"
    and nomimic: "\<forall>joint \<in> set (joints hw). parameters joint ''mimic'' = None"
  shows "\<exists>lg s. configure stod cd now hw s0 = Inr (lg, s)"
proof -
  from fo obtain off custom where fo': "following_offset_parameters stod hw = Some (off, custom)"
    by auto
  from nofail have nf: "\<And>ifs. \<forall>joint \<in> set (joints hw). \<forall>ifc \<in> set ifs.
                           \<not> initial_value_fails stod joint ifc"
    by simp
  from initialize_storage_vectors_succeeds[OF nf]
  obtain r1 where i1: "initialize_storage_vectors stod (joints hw) (standard_interfaces s0) [] []
                       = Some r1"
    by blast
  let ?others = "discover_other_interfaces (standard_interfaces s0) (joints hw) []"
  let ?sifs = "discover_sensor_interfaces (sensors hw) []"
  from initialize_storage_vectors_succeeds[OF nf]
  obtain r2 where i2: "initialize_storage_vectors stod (joints hw) ?others [] [] = Some r2"
    by blast
  from initialize_storage_vectors_succeeds[OF nf]
  obtain r3 where i3: "initialize_storage_vectors stod (joints hw) ?sifs [] [] = Some r3"
    by blast
  note sm = search_mimic_joints_none[OF nomimic, of stod "[]"]
  from con have c: "joint_commands s0 = []" "joint_states s0 = []" "other_commands s0 = []"
    "other_states s0 = []" "sensor_fake_commands s0 = []" "sensor_states s0 = []"
    "mimic_joints s0 = []" "other_interfaces s0 = []" "sensor_interfaces s0 = []"
    by (simp_all add: constructed_def)
  show ?thesis
    by (cases r1; cases r2; cases r3)
       (simp add: configure_def Let_def ok fo' c i1 i2 i3 sm)
qed

lemma configure_cells:
  assumes con: "constructed s0" and two: "2 \<le> length (standard_interfaces s0)"
    and cfg: "configure stod cd now hw s0 = Inr (lg, s)"
    and i: "i < length (joints hw)"
  shows "info s = hw" and "standard_interfaces s = standard_interfaces s0"
    and "set (other_interfaces s) =
           {n. n \<notin> set (standard_interfaces s0) \<and>
               (\<exists>joint \<in> set (joints hw).
                   n \<in> set (command_interfaces joint) \<union> set (state_interfaces joint))}"
    and "k < length (standard_interfaces s0) \<Longrightarrow>
         joint_commands s ! k ! i = (if k = Suc 0 then Fin 0 else NaN)"
    and "k < length (standard_interfaces s0) \<Longrightarrow>
         joint_states s ! k ! i =
           (if isnan (initial_value_or stod (joints hw ! i) (standard_interfaces s0 ! k) NaN)
            then Fin 0
            else initial_value_or stod (joints hw ! i) (standard_interfaces s0 ! k) NaN)"
    and "k < length (other_interfaces s) \<Longrightarrow> other_commands s ! k ! i = NaN"
    and "k < length (other_interfaces s) \<Longrightarrow>
         other_states s ! k ! i =
           initial_value_or stod (joints hw ! i) (other_interfaces s ! k) NaN"
proof -
  let ?std = "standard_interfaces s0" and ?js = "joints hw"
  let ?others = "discover_other_interfaces ?std ?js []"
  from configure_InrD[OF cfg] con obtain off custom jc js0 ms oc os sc ss where
    i1: "initialize_storage_vectors stod ?js ?std [] [] = Some (jc, js0)"
    and i2: "initialize_storage_vectors stod ?js ?others [] [] = Some (oc, os)"
    and s: "info s = hw" "standard_interfaces s = ?std" "other_interfaces s = ?others"
      "joint_commands s = zero_velocity jc"
      "joint_states s = zero_unset (length ?js) (length ?std) js0"
      "other_commands s = oc" "other_states s = os"
    by (auto simp: constructed_def)
  note a1 = initialize_storage_vectors_constructed[OF i1]
  note a2 = initialize_storage_vectors_constructed[OF i2]
  show "info s = hw" "standard_interfaces s = ?std"
    by (rule s)+
  show "set (other_interfaces s) =
           {n. n \<notin> set ?std \<and>
               (\<exists>joint \<in> set ?js.
                   n \<in> set (command_interfaces joint) \<union> set (state_interfaces joint))}"
    by (simp add: s discover_other_interfaces_set)
  from two have l1: "Suc 0 < length jc"
    by (simp add: a1(1))
  show "joint_commands s ! k ! i = (if k = Suc 0 then Fin 0 else NaN)"
    if "k < length ?std"
    using zero_velocity_cells[of jc] l1 that i by (simp add: s a1(1))
  show "joint_states s ! k ! i =
           (if isnan (initial_value_or stod (?js ! i) (?std ! k) NaN)
            then Fin 0 else initial_value_or stod (?js ! i) (?std ! k) NaN)"
    if "k < length ?std"
    using zero_unset_cells[OF a1(2)] that i by (simp add: s a1(4))
  show "other_commands s ! k ! i = NaN" if "k < length (other_interfaces s)"
    using that i by (simp add: s a2(1))
  show "other_states s ! k ! i = initial_value_or stod (?js ! i) (other_interfaces s ! k) NaN"
    if "k < length (other_interfaces s)"
    using that i by (simp add: s a2(4))
qed

text \<open>The slots of a configured backend, by interface name.\<close>

lemma standard_interface_slot:
  assumes "constructed s0" and "2 \<le> length (standard_interfaces s0)"
    and "configure stod cd now hw s0 = Inr (lg, s)"
    and "i < length (joints hw)"
    and m: "ifc \<in> set (standard_interfaces s0)"
  shows "command_cell s i ifc =
           Some (if first_index (\<lambda>x. x = ifc) (standard_interfaces s0)
                      = Some VELOCITY_INTERFACE_INDEX
                 then Fin 0 else NaN)"
    and "state_cell s i ifc =
           Some (if isnan (initial_value_or stod (joints hw ! i) ifc NaN) then Fin 0
                 else initial_value_or stod (joints hw ! i) ifc NaN)"
proof -
  let ?std = "standard_interfaces s0" and ?js = "joints hw"
  note cc = configure_cells[OF assms(1-4)]
  note wf = configure_well_formed(1)[OF assms(1,2,3)]
  from wf have rc: "rect (joint_commands s) (length ?std) (length ?js)"
    and rs: "rect (joint_states s) (length ?std) (length ?js)"
    by (simp_all add: well_formed_def Let_def cc(1,2))
  from first_index_member[OF m] obtain k where
    k: "first_index (\<lambda>y. y = ifc) ?std = Some k" "k < length ?std" "?std ! k = ifc"
    by blast
  have h: "joint_handle s i ifc = Some (Standard, k, i)"
    by (simp add: joint_handle_def get_interface_def cc(2) k(1))
  have b: "k < length (joint_commands s)" "i < length (joint_commands s ! k)"
    "k < length (joint_states s)" "i < length (joint_states s ! k)"
    using rc rs k(2) assms(4) by (simp_all add: rect_def)
  show "command_cell s i ifc =
           Some (if first_index (\<lambda>x. x = ifc) ?std = Some VELOCITY_INTERFACE_INDEX
                 then Fin 0 else NaN)"
    using b by (simp add: command_cell_def h cell_at_def cc(4)[OF k(2)] k(1)
                          VELOCITY_INTERFACE_INDEX_def)
  show "state_cell s i ifc =
           Some (if isnan (initial_value_or stod (?js ! i) ifc NaN) then Fin 0
                 else initial_value_or stod (?js ! i) ifc NaN)"
    using b k(3) by (simp add: state_cell_def h cell_at_def cc(5)[OF k(2)])
qed

lemma other_interface_slot:
  assumes "constructed s0" and "2 \<le> length (standard_interfaces s0)"
    and "configure stod cd now hw s0 = Inr (lg, s)"
    and "i < length (joints hw)"
    and m: "ifc \<notin> set (standard_interfaces s0)"
  shows "has_slot s i ifc \<longleftrightarrow>
           (\<exists>joint \<in> set (joints hw).
               ifc \<in> set (command_interfaces joint) \<union> set (state_interfaces joint))"
    and "has_slot s i ifc \<Longrightarrow> command_cell s i ifc = Some NaN"
    and "has_slot s i ifc \<Longrightarrow>
         state_cell s i ifc = Some (initial_value_or stod (joints hw ! i) ifc NaN)"
proof -
  let ?std = "standard_interfaces s0" and ?js = "joints hw"
  note cc = configure_cells[OF assms(1-4)]
  note wf = configure_well_formed(1)[OF assms(1,2,3)]
  from wf have roc: "rect (other_commands s) (length (other_interfaces s)) (length ?js)"
    and ros: "rect (other_states s) (length (other_interfaces s)) (length ?js)"
    by (simp_all add: well_formed_def Let_def cc(1,2))
  from m have n: "first_index (\<lambda>y. y = ifc) ?std = None"
    by (auto simp: first_index_None)
  have all: "(has_slot s i ifc \<longleftrightarrow>
                    (\<exists>joint \<in> set ?js.
                        ifc \<in> set (command_interfaces joint) \<union> set (state_interfaces joint))) \<and>
                 (has_slot s i ifc \<longrightarrow>
                    command_cell s i ifc = Some NaN \<and>
                    state_cell s i ifc = Some (initial_value_or stod (?js ! i) ifc NaN))"
  proof (cases "ifc \<in> set (other_interfaces s)")
    case True
    from first_index_member[OF True] obtain k where
      k: "first_index (\<lambda>y. y = ifc) (other_interfaces s) = Some k"
         "k < length (other_interfaces s)" "other_interfaces s ! k = ifc"
      by blast
    have h: "joint_handle s i ifc = Some (Other, k, i)"
      by (simp add: joint_handle_def get_interface_def cc(2) n k(1))
    have b: "k < length (other_commands s)" "i < length (other_commands s ! k)"
      "k < length (other_states s)" "i < length (other_states s ! k)"
      using roc ros k(2) assms(4) by (simp_all add: rect_def)
    have cells: "command_cell s i ifc = Some NaN"
      "state_cell s i ifc = Some (initial_value_or stod (?js ! i) ifc NaN)"
      using b k(3)
      by (simp_all add: command_cell_def state_cell_def h cell_at_def
                        cc(6)[OF k(2)] cc(7)[OF k(2)])
    from True have "\<exists>joint \<in> set ?js.
                        ifc \<in> set (command_interfaces joint) \<union> set (state_interfaces joint)"
      unfolding cc(3) by simp
    with cells show ?thesis
      by (simp add: has_slot_def)
  next
    case False
    then have n': "first_index (\<lambda>y. y = ifc) (other_interfaces s) = None"
      by (auto simp: first_index_None)
    have h: "joint_handle s i ifc = None"
      by (simp add: joint_handle_def get_interface_def cc(2) n n')
    from False m have "\<not> (\<exists>joint \<in> set ?js.
                        ifc \<in> set (command_interfaces joint) \<union> set (state_interfaces joint))"
      unfolding cc(3) by simp
    then show ?thesis
      by (simp add: has_slot_def command_cell_def h)
  qed
  from all show "has_slot s i ifc \<longleftrightarrow>
           (\<exists>joint \<in> set ?js.
               ifc \<in> set (command_interfaces joint) \<union> set (state_interfaces joint))"
    by blast
  from all show "has_slot s i ifc \<Longrightarrow> command_cell s i ifc = Some NaN"
    by blast
  from all show "has_slot s i ifc \<Longrightarrow>
         state_cell s i ifc = Some (initial_value_or stod (?js ! i) ifc NaN)"
    by blast
qed

text \<open>
  C5, as amended. After configuration succeeds, for every joint and interface name:
  a storage slot (command cell and state cell) exists if and only if the name is in the
  standard vocabulary or is declared, as a command or state interface, by some joint
  (the other vocabulary), whether or not this joint declares it. The command cell of a
  standard interface holds NaN, except in the velocity row, which holds zero; its state
  cell holds the joint's declared initial value, and zero where none is declared or the
  declared value is NaN. The cells of an other interface hold NaN, the state cell unless
  a declared initial value of the joint overrode it.
\<close>

theorem configure_storage_slots:
  assumes "constructed s0" and "2 \<le> length (standard_interfaces s0)"
    and "configure stod cd now hw s0 = Inr (lg, s)"
    and "i < length (joints hw)"
  shows "(has_slot s i ifc \<longleftrightarrow>
            ifc \<in> set (standard_interfaces s0) \<or>
            (\<exists>joint \<in> set (joints hw).
                ifc \<in> set (command_interfaces joint) \<union> set (state_interfaces joint))) \<and>
         (ifc \<in> set (standard_interfaces s0) \<longrightarrow>
            command_cell s i ifc =
              Some (if first_index (\<lambda>x. x = ifc) (standard_interfaces s0)
                         = Some VELOCITY_INTERFACE_INDEX
                    then Fin 0 else NaN) \<and>
            state_cell s i ifc =
              Some (if isnan (initial_value_or stod (joints hw ! i) ifc NaN) then Fin 0
                    else initial_value_or stod (joints hw ! i) ifc NaN)) \<and>
         (has_slot s i ifc \<and> ifc \<notin> set (standard_interfaces s0) \<longrightarrow>
            command_cell s i ifc = Some NaN \<and>
            state_cell s i ifc = Some (initial_value_or stod (joints hw ! i) ifc NaN))"
proof (cases "ifc \<in> set (standard_interfaces s0)")
  case True
  note S = standard_interface_slot[OF assms True]
  from S have "has_slot s i ifc"
    by (simp add: has_slot_def)
  with S True show ?thesis
    by simp
next
  case False
  note O = other_interface_slot[OF assms False]
  from O(1) have "has_slot s i ifc \<longleftrightarrow>
            ifc \<in> set (standard_interfaces s0) \<or>
            (\<exists>joint \<in> set (joints hw).
                ifc \<in> set (command_interfaces joint) \<union> set (state_interfaces joint))"
    using False by simp
  with O(2,3) False show ?thesis
    by blast
qed

section \<open>Configuration of the example description\<close>

lemma demo_hw_fields:
  "length (joints demo_hw) = 1"
  "command_interfaces (joints demo_hw ! 0) = [''position'']"
  "state_interfaces (joints demo_hw ! 0) = [''position'', ''load'']"
  "set (joints demo_hw) = {joints demo_hw ! 0}"
  "initial_parameter (joints demo_hw ! 0) ''position'' = None"
  "initial_parameter (joints demo_hw ! 0) ''load'' = Some ''2''"
  "initial_value_or demo_stod (joints demo_hw ! 0) ''position'' NaN = NaN"
  "initial_value_or demo_stod (joints demo_hw ! 0) ''load'' NaN = Fin 2"
  "parameters (joints demo_hw ! 0) ''mimic'' = None"
  "hardware_parameters demo_hw ''position_state_following_offset'' = Some ''0.5''"
  "hardware_parameters demo_hw ''custom_interface_with_following_offset'' = Some ''missing''"
  by (simp_all add: demo_hw_def initial_parameter_def initial_value_or_def demo_stod_def)

lemma demo_hw_no_failure: "\<not> initial_value_fails demo_stod (joints demo_hw ! 0) ifc"
  by (simp add: demo_hw_def initial_value_fails_def initial_parameter_def demo_stod_def)

lemma constructed_backend_fields:
  "constructed constructed_backend"
  "standard_interfaces constructed_backend = [''position'', ''velocity'', ''acceleration'', ''effort'']"
  "2 \<le> length (standard_interfaces constructed_backend)"
  by (simp_all add: constructed_backend_def constructed_def)

lemma demo_configured_succeeds: "\<exists>lg s. demo_configured = Inr (lg, s)"
  unfolding demo_configured_def
proof (rule configure_succeeds)
  show "constructed constructed_backend"
    by (rule constructed_backend_fields)
  show "demo_configure_default demo_hw = OK"
    by (simp add: demo_configure_default_def)
  show "following_offset_parameters demo_stod demo_hw \<noteq> None"
    by (simp add: following_offset_parameters_def demo_hw_fields demo_stod_def)
  show "\<forall>joint \<in> set (joints demo_hw). \<forall>ifc. \<not> initial_value_fails demo_stod joint ifc"
    by (simp add: demo_hw_fields(4) demo_hw_no_failure)
  show "\<forall>joint \<in> set (joints demo_hw). parameters joint ''mimic'' = None"
    by (simp add: demo_hw_fields(4,9))
qed

theorem configure_storage_slots_witness:
  "constructed constructed_backend \<and> 2 \<le> length (standard_interfaces constructed_backend) \<and>
   \<not> isl demo_configured \<and> 0 < length (joints demo_hw) \<and>
   has_slot (snd (projr demo_configured)) 0 ''load'' \<and>
   command_cell (snd (projr demo_configured)) 0 ''load'' = Some NaN \<and>
   state_cell (snd (projr demo_configured)) 0 ''load'' = Some (Fin 2) \<and>
   command_cell (snd (projr demo_configured)) 0 ''velocity'' = Some (Fin 0) \<and>
   command_cell (snd (projr demo_configured)) 0 ''effort'' = Some NaN \<and>
   \<not> has_slot (snd (projr demo_configured)) 0 ''force''"
proof -
  from demo_configured_succeeds obtain lg s where r: "demo_configured = Inr (lg, s)"
    by blast
  then have cfg: "configure demo_stod demo_configure_default 0 demo_hw constructed_backend
                  = Inr (lg, s)"
    by (simp add: demo_configured_def)
  have i: "0 < length (joints demo_hw)"
    by (simp add: demo_hw_fields)
  note T = configure_storage_slots[OF constructed_backend_fields(1,3) cfg i]
  have dl: "\<exists>joint \<in> set (joints demo_hw).
              ''load'' \<in> set (command_interfaces joint) \<union> set (state_interfaces joint)"
    by (simp add: demo_hw_fields)
  have df: "\<not> (\<exists>joint \<in> set (joints demo_hw).
              ''force'' \<in> set (command_interfaces joint) \<union> set (state_interfaces joint))"
    by (simp add: demo_hw_fields)
  from T[of "''load''"] dl have l: "has_slot s 0 ''load''"
    "command_cell s 0 ''load'' = Some NaN" "state_cell s 0 ''load'' = Some (Fin 2)"
    by (simp_all add: constructed_backend_fields(2) demo_hw_fields)
  from T[of "''velocity''"] have v: "command_cell s 0 ''velocity'' = Some (Fin 0)"
    by (simp add: constructed_backend_fields(2) VELOCITY_INTERFACE_INDEX_def)
  from T[of "''effort''"] have e: "command_cell s 0 ''effort'' = Some NaN"
    by (simp add: constructed_backend_fields(2) VELOCITY_INTERFACE_INDEX_def)
  from T[of "''force''"] df have f: "\<not> has_slot s 0 ''force''"
    by (simp add: constructed_backend_fields(2))
  from constructed_backend_fields(1,3) i l v e f show ?thesis
    by (simp add: r)
qed

theorem configure_undeclared_slot_counterexample:
  "\<not> isl demo_configured \<and> 0 < length (joints demo_hw) \<and>
   ''velocity'' \<notin> set (command_interfaces (joints demo_hw ! 0)) \<and>
   ''velocity'' \<notin> set (state_interfaces (joints demo_hw ! 0)) \<and>
   has_slot (snd (projr demo_configured)) 0 ''velocity'' \<and>
   initial_parameter (joints demo_hw ! 0) ''position'' = None \<and>
   state_cell (snd (projr demo_configured)) 0 ''position'' = Some (Fin 0) \<and>
   state_cell (snd (projr demo_configured)) 0 ''position'' \<noteq> Some NaN \<and>
   command_cell (snd (projr demo_configured)) 0 ''velocity'' = Some (Fin 0)"
proof -
  from demo_configured_succeeds obtain lg s where r: "demo_configured = Inr (lg, s)"
    by blast
  then have cfg: "configure demo_stod demo_configure_default 0 demo_hw constructed_backend
                  = Inr (lg, s)"
    by (simp add: demo_configured_def)
  have i: "0 < length (joints demo_hw)"
    by (simp add: demo_hw_fields)
  have mv: "''velocity'' \<in> set (standard_interfaces constructed_backend)"
    and mp: "''position'' \<in> set (standard_interfaces constructed_backend)"
    by (simp_all add: constructed_backend_fields(2))
  note V = standard_interface_slot[OF constructed_backend_fields(1,3) cfg i mv]
  note P = standard_interface_slot[OF constructed_backend_fields(1,3) cfg i mp]
  from V have v: "has_slot s 0 ''velocity''"
    "command_cell s 0 ''velocity'' = Some (Fin 0)"
    by (simp_all add: has_slot_def constructed_backend_fields(2) VELOCITY_INTERFACE_INDEX_def)
  from P(2) have p: "state_cell s 0 ''position'' = Some (Fin 0)"
    by (simp add: demo_hw_fields)
  from i v p show ?thesis
    by (simp add: r demo_hw_fields)
qed

section \<open>A following offset bound to a missing custom interface\<close>

lemma perform_frame [simp]:
  "info (snd (perform_command_mode_switch a b s)) = info s"
  "custom_interface_with_following_offset (snd (perform_command_mode_switch a b s)) =
     custom_interface_with_following_offset s"
  "index_custom_interface_with_following_offset (snd (perform_command_mode_switch a b s)) =
     index_custom_interface_with_following_offset s"
  "position_state_following_offset (snd (perform_command_mode_switch a b s)) =
     position_state_following_offset s"
  "other_interfaces (snd (perform_command_mode_switch a b s)) = other_interfaces s"
  "other_commands (snd (perform_command_mode_switch a b s)) = other_commands s"
  "other_states (snd (perform_command_mode_switch a b s)) = other_states s"
  "mimic_joints (snd (perform_command_mode_switch a b s)) = mimic_joints s"
  "command_propagation_disabled (snd (perform_command_mode_switch a b s)) =
     command_propagation_disabled s"
  by (simp_all add: perform_command_mode_switch_def Let_def)

lemma prepare_binding [simp]:
  "custom_interface_with_following_offset (snd (prepare_command_mode_switch a b s)) =
     custom_interface_with_following_offset s"
  "index_custom_interface_with_following_offset (snd (prepare_command_mode_switch a b s)) =
     index_custom_interface_with_following_offset s"
  by (simp_all add: prepare_command_mode_switch_def Let_def)

lemma perform_position_hold:
  assumes wf: "well_formed s" and m: "HW_IF_POSITION \<in> set (start_modes s)"
    and j: "j < length (joints (info s))"
  shows "position_controller_running (snd (perform_command_mode_switch a b s))"
    and "joint_commands (snd (perform_command_mode_switch a b s)) ! 0 ! j = joint_states s ! 0 ! j"
proof -
  from m have ne: "start_modes s \<noteq> []"
    by auto
  note wc = well_formed_commands[OF wf]
  show "position_controller_running (snd (perform_command_mode_switch a b s))"
    using m ne by (simp add: perform_command_mode_switch_def Let_def)
  show "joint_commands (snd (perform_command_mode_switch a b s)) ! 0 ! j = joint_states s ! 0 ! j"
    using m ne j seed_position_cells[OF wc(1), of "joint_states s"] wc(3)
    by (simp add: perform_command_mode_switch_def Let_def)
qed

lemma read_position_state:
  assumes wf: "well_formed t" and ex: "modes_exclusive t"
    and run: "position_controller_running t" "\<not> command_propagation_disabled t"
    and j: "j < length (joints (info t))"
    and set: "\<not> isnan (joint_commands t ! 0 ! j)" and nf: "\<not> is_follower t j"
  shows "joint_states (snd (read now t)) ! 0 ! j =
           dadd (joint_commands t ! 0 ! j)
             (if custom_interface_with_following_offset t = []
              then position_state_following_offset t else Fin 0)"
proof -
  from ex run(1) have nv: "\<not> velocity_controller_running t"
    by (auto simp: modes_exclusive_def)
  show ?thesis
    using run j set nv
    by (simp add: read_states_non_follower[OF wf nf] propagation_cells(3)[OF wf])
qed

lemma configure_missing_custom:
  assumes con: "constructed s0" and two: "2 \<le> length (standard_interfaces s0)"
    and steps: "other_steps_succeed stod cd hw s0"
    and off: "hardware_parameters hw ''position_state_following_offset'' = Some v"
             "stod v = Some off"
    and nm: "hardware_parameters hw ''custom_interface_with_following_offset'' = Some nm"
            "nm \<noteq> []"
    and miss: "nm \<notin> set (discover_other_interfaces (standard_interfaces s0) (joints hw) [])"
  shows "\<exists>s. configure stod cd now hw s0 = Inr ([LogWarnCustomMissing nm], s) \<and>
             well_formed s \<and>
             custom_interface_with_following_offset s = nm \<and>
             index_custom_interface_with_following_offset s = SIZE_MAX \<and>
             position_state_following_offset s = off"
proof -
  let ?others = "discover_other_interfaces (standard_interfaces s0) (joints hw) []"
  from con have c: "joint_commands s0 = []" "joint_states s0 = []" "other_commands s0 = []"
    "other_states s0 = []" "sensor_fake_commands s0 = []" "sensor_states s0 = []"
    "mimic_joints s0 = []" "other_interfaces s0 = []" "sensor_interfaces s0 = []"
    by (simp_all add: constructed_def)
  from steps obtain r1 ms r2 r3 where ok: "cd hw = OK"
    and i1: "initialize_storage_vectors stod (joints hw) (standard_interfaces s0) [] [] = Some r1"
    and sm: "search_mimic_joints stod (joints hw) [] = Inr ms"
    and i2: "initialize_storage_vectors stod (joints hw) ?others [] [] = Some r2"
    and i3: "initialize_storage_vectors stod (joints hw)
               (discover_sensor_interfaces (sensors hw) []) [] [] = Some r3"
    by (cases "search_mimic_joints stod (joints hw) []")
       (auto simp: other_steps_succeed_def c)
  have fo: "following_offset_parameters stod hw = Some (off, nm)"
    by (simp add: following_offset_parameters_def off nm)
  from miss have "first_index (\<lambda>x. x = nm) ?others = None"
    by (auto simp: first_index_None)
  then have fc: "find_custom_interface nm ?others = (SIZE_MAX, [LogWarnCustomMissing nm])"
    using nm(2) by (simp add: find_custom_interface_def)
  obtain s where s: "configure stod cd now hw s0 = Inr ([LogWarnCustomMissing nm], s)"
    and f: "custom_interface_with_following_offset s = nm"
           "index_custom_interface_with_following_offset s = SIZE_MAX"
           "position_state_following_offset s = off"
    by (cases r1; cases r2; cases r3)
       (simp add: configure_def Let_def ok fo c i1 sm i2 i3 fc)
  from configure_well_formed(1)[OF con two s] s f show ?thesis
    by blast
qed

text \<open>
  C10. If the description names a custom interface for the following offset and that
  name is not among the discovered other interfaces, then, provided every other step of
  configure succeeds, configure succeeds and logs only the warning; the binding index
  stays at its sentinel and the name is kept. Thereafter, in every well-formed state
  with this binding, the step applies the offset nowhere: every other interface gets
  its ordinary loopback, and the position state of a position-controlled joint (not a
  mimic follower) gets its command plus zero.
\<close>

theorem missing_custom_interface_ignored:
  assumes "constructed s0" and "2 \<le> length (standard_interfaces s0)"
    and "other_steps_succeed stod cd hw s0"
    and "hardware_parameters hw ''position_state_following_offset'' = Some v"
    and "stod v = Some off"
    and "hardware_parameters hw ''custom_interface_with_following_offset'' = Some nm"
    and "nm \<noteq> []"
    and "nm \<notin> set (discover_other_interfaces (standard_interfaces s0) (joints hw) [])"
  shows "\<exists>s. configure stod cd now hw s0 = Inr ([LogWarnCustomMissing nm], s) \<and>
             well_formed s \<and>
             custom_interface_with_following_offset s = nm \<and>
             index_custom_interface_with_following_offset s = SIZE_MAX \<and>
             position_state_following_offset s = off \<and>
             (\<forall>t now'.
                well_formed t \<and> custom_interface_with_following_offset t = nm \<and>
                index_custom_interface_with_following_offset t = SIZE_MAX \<and>
                length (other_interfaces t) \<le> SIZE_MAX \<longrightarrow>
                (\<forall>i j. i < length (other_interfaces t) \<and> j < length (joints (info t)) \<longrightarrow>
                   other_states (snd (read now' t)) ! i ! j =
                     (if \<not> isnan (other_commands t ! i ! j) then other_commands t ! i ! j
                      else other_states t ! i ! j)) \<and>
                (\<forall>j. modes_exclusive t \<and> position_controller_running t \<and>
                     \<not> command_propagation_disabled t \<and> j < length (joints (info t)) \<and>
                     \<not> isnan (joint_commands t ! POSITION_INTERFACE_INDEX ! j) \<and>
                     \<not> is_follower t j \<longrightarrow>
                   joint_states (snd (read now' t)) ! POSITION_INTERFACE_INDEX ! j =
                     dadd (joint_commands t ! POSITION_INTERFACE_INDEX ! j) (Fin 0)))"
proof -
  from configure_missing_custom[OF assms, of now] obtain s where
    s: "configure stod cd now hw s0 = Inr ([LogWarnCustomMissing nm], s)" "well_formed s"
       "custom_interface_with_following_offset s = nm"
       "index_custom_interface_with_following_offset s = SIZE_MAX"
       "position_state_following_offset s = off"
    by blast
  have later: "(\<forall>i j. i < length (other_interfaces t) \<and> j < length (joints (info t)) \<longrightarrow>
                   other_states (snd (read now' t)) ! i ! j =
                     (if \<not> isnan (other_commands t ! i ! j) then other_commands t ! i ! j
                      else other_states t ! i ! j)) \<and>
                (\<forall>j. modes_exclusive t \<and> position_controller_running t \<and>
                     \<not> command_propagation_disabled t \<and> j < length (joints (info t)) \<and>
                     \<not> isnan (joint_commands t ! POSITION_INTERFACE_INDEX ! j) \<and>
                     \<not> is_follower t j \<longrightarrow>
                   joint_states (snd (read now' t)) ! POSITION_INTERFACE_INDEX ! j =
                     dadd (joint_commands t ! POSITION_INTERFACE_INDEX ! j) (Fin 0))"
    if t: "well_formed t" "custom_interface_with_following_offset t = nm"
          "index_custom_interface_with_following_offset t = SIZE_MAX"
          "length (other_interfaces t) \<le> SIZE_MAX"
    for t now'
  proof (intro conjI allI impI)
    fix i j
    assume ij: "i < length (other_interfaces t) \<and> j < length (joints (info t))"
    with t(3,4) have "index_custom_interface_with_following_offset t \<noteq> i"
      by simp
    with ij show "other_states (snd (read now' t)) ! i ! j =
                     (if \<not> isnan (other_commands t ! i ! j) then other_commands t ! i ! j
                      else other_states t ! i ! j)"
      using read_other_loopback[OF t(1)] by blast
  next
    fix j
    assume h: "modes_exclusive t \<and> position_controller_running t \<and>
                     \<not> command_propagation_disabled t \<and> j < length (joints (info t)) \<and>
                     \<not> isnan (joint_commands t ! POSITION_INTERFACE_INDEX ! j) \<and>
                     \<not> is_follower t j"
    then have "joint_states (snd (read now' t)) ! 0 ! j =
           dadd (joint_commands t ! 0 ! j)
             (if custom_interface_with_following_offset t = []
              then position_state_following_offset t else Fin 0)"
      by (intro read_position_state[OF t(1)]) (simp_all add: POSITION_INTERFACE_INDEX_def)
    then show "joint_states (snd (read now' t)) ! POSITION_INTERFACE_INDEX ! j =
                     dadd (joint_commands t ! POSITION_INTERFACE_INDEX ! j) (Fin 0)"
      using t(2) assms(7) by (simp add: POSITION_INTERFACE_INDEX_def)
  qed
  from s later show ?thesis
    by blast
qed

lemma demo_discovered:
  "discover_other_interfaces (standard_interfaces constructed_backend) (joints demo_hw) []
     = [''load'']"
  by (simp add: discover_other_interfaces_def add_other_interface_def demo_hw_def
                constructed_backend_fields(2))

lemma demo_other_steps_succeed:
  "other_steps_succeed demo_stod demo_configure_default demo_hw constructed_backend"
proof -
  have nf: "\<And>ifs. \<forall>joint \<in> set (joints demo_hw). \<forall>ifc \<in> set ifs.
                      \<not> initial_value_fails demo_stod joint ifc"
    by (simp add: demo_hw_fields(4) demo_hw_no_failure)
  have nm: "\<forall>joint \<in> set (joints demo_hw). parameters joint ''mimic'' = None"
    by (simp add: demo_hw_fields(4,9))
  from constructed_backend_fields(1)
  have c: "joint_commands constructed_backend = []" "joint_states constructed_backend = []"
    "other_commands constructed_backend = []" "other_states constructed_backend = []"
    "sensor_fake_commands constructed_backend = []" "sensor_states constructed_backend = []"
    "mimic_joints constructed_backend = []" "other_interfaces constructed_backend = []"
    "sensor_interfaces constructed_backend = []"
    by (simp_all add: constructed_def)
  show ?thesis
    unfolding other_steps_succeed_def c
    using initialize_storage_vectors_succeeds[OF nf] search_mimic_joints_none[OF nm]
    by (auto simp: demo_configure_default_def)
qed

theorem missing_custom_interface_ignored_witness:
  "constructed constructed_backend \<and>
   2 \<le> length (standard_interfaces constructed_backend) \<and>
   other_steps_succeed demo_stod demo_configure_default demo_hw constructed_backend \<and>
   hardware_parameters demo_hw ''position_state_following_offset'' = Some ''0.5'' \<and>
   demo_stod ''0.5'' = Some (Fin (1 / 2)) \<and>
   hardware_parameters demo_hw ''custom_interface_with_following_offset'' = Some ''missing'' \<and>
   ''missing'' \<notin> set (discover_other_interfaces (standard_interfaces constructed_backend)
                          (joints demo_hw) []) \<and>
   fst (projr demo_configured) = [LogWarnCustomMissing ''missing''] \<and>
   index_custom_interface_with_following_offset (snd (projr demo_configured)) = SIZE_MAX \<and>
   position_state_following_offset (snd (projr demo_configured)) = Fin (1 / 2) \<and>
   other_states (snd (read 7000000 (snd (projr demo_configured)))) ! 0 ! 0 = Fin 2 \<and>
   position_controller_running
     (snd (perform_command_mode_switch [] [] (snd (projr demo_configured)))) \<and>
   joint_states (snd (read 7000000
      (snd (perform_command_mode_switch [] [] (snd (projr demo_configured))))))
     ! POSITION_INTERFACE_INDEX ! 0 = Fin 0"
proof -
  have h: "hardware_parameters demo_hw ''position_state_following_offset'' = Some ''0.5''"
    "demo_stod ''0.5'' = Some (Fin (1 / 2))"
    "hardware_parameters demo_hw ''custom_interface_with_following_offset'' = Some ''missing''"
    "''missing'' \<noteq> []"
    "''missing'' \<notin> set (discover_other_interfaces (standard_interfaces constructed_backend)
                          (joints demo_hw) [])"
    by (simp_all add: demo_hw_fields demo_stod_def demo_discovered)
  from missing_custom_interface_ignored[OF constructed_backend_fields(1,3)
         demo_other_steps_succeed h, of 0]
  obtain s where cfg: "configure demo_stod demo_configure_default 0 demo_hw constructed_backend
                       = Inr ([LogWarnCustomMissing ''missing''], s)"
    and wf: "well_formed s"
    and b: "custom_interface_with_following_offset s = ''missing''"
           "index_custom_interface_with_following_offset s = SIZE_MAX"
           "position_state_following_offset s = Fin (1 / 2)"
    and later: "\<And>t now'.
                well_formed t \<Longrightarrow> custom_interface_with_following_offset t = ''missing'' \<Longrightarrow>
                index_custom_interface_with_following_offset t = SIZE_MAX \<Longrightarrow>
                length (other_interfaces t) \<le> SIZE_MAX \<Longrightarrow>
                (\<forall>i j. i < length (other_interfaces t) \<and> j < length (joints (info t)) \<longrightarrow>
                   other_states (snd (read now' t)) ! i ! j =
                     (if \<not> isnan (other_commands t ! i ! j) then other_commands t ! i ! j
                      else other_states t ! i ! j)) \<and>
                (\<forall>j. modes_exclusive t \<and> position_controller_running t \<and>
                     \<not> command_propagation_disabled t \<and> j < length (joints (info t)) \<and>
                     \<not> isnan (joint_commands t ! POSITION_INTERFACE_INDEX ! j) \<and>
                     \<not> is_follower t j \<longrightarrow>
                   joint_states (snd (read now' t)) ! POSITION_INTERFACE_INDEX ! j =
                     dadd (joint_commands t ! POSITION_INTERFACE_INDEX ! j) (Fin 0))"
    by blast
  have r: "demo_configured = Inr ([LogWarnCustomMissing ''missing''], s)"
    by (simp add: demo_configured_def cfg)
  have i: "0 < length (joints demo_hw)"
    by (simp add: demo_hw_fields)
  note cc = configure_cells[OF constructed_backend_fields(1,3) cfg i]
  from configure_InrD[OF cfg] constructed_backend_fields(1)
  have oi: "other_interfaces s = [''load'']"
    and sm: "start_modes s = replicate 6 HW_IF_POSITION"
    and dis: "command_propagation_disabled s = flag_parameter demo_hw ''disable_commands''"
    and ms: "search_mimic_joints demo_stod (joints demo_hw) [] = Inr (mimic_joints s)"
    by (auto simp: constructed_def demo_discovered)
  have nm: "\<forall>joint \<in> set (joints demo_hw). parameters joint ''mimic'' = None"
    by (simp add: demo_hw_fields(4,9))
  from ms search_mimic_joints_none[OF nm, of demo_stod "[]"] have mj: "mimic_joints s = []"
    by simp
  have nd: "\<not> command_propagation_disabled s"
    by (simp add: dis flag_parameter_def demo_hw_def)
  have sz: "length (other_interfaces s) \<le> SIZE_MAX"
    by (simp add: oi SIZE_MAX_def)
  have oc: "other_commands s ! 0 ! 0 = NaN" and os: "other_states s ! 0 ! 0 = Fin 2"
    using cc(6)[of 0] cc(7)[of 0] by (simp_all add: oi demo_hw_fields)
  from later[OF wf b(1,2) sz, of 7000000]
  have "other_states (snd (read 7000000 s)) ! 0 ! 0 =
          (if \<not> isnan (other_commands s ! 0 ! 0) then other_commands s ! 0 ! 0
           else other_states s ! 0 ! 0)"
    using i by (simp add: oi cc(1))
  then have w1: "other_states (snd (read 7000000 s)) ! 0 ! 0 = Fin 2"
    by (simp add: oc os)
  let ?t = "snd (perform_command_mode_switch [] [] s)"
  have wt: "well_formed ?t"
    using wf by (rule perform_well_formed)
  have pm: "HW_IF_POSITION \<in> set (start_modes s)"
    by (simp add: sm)
  have js: "joint_states s ! 0 ! 0 = Fin 0"
    using cc(5)[of 0] by (simp add: constructed_backend_fields(2) demo_hw_fields)
  have i': "0 < length (joints (info s))"
    using i by (simp add: cc(1))
  note ph = perform_position_hold[OF wf pm i', of "[]" "[]"]
  have ct: "joint_commands ?t ! POSITION_INTERFACE_INDEX ! 0 = Fin 0"
    using ph(2) by (simp add: js POSITION_INTERFACE_INDEX_def)
  have szt: "length (other_interfaces ?t) \<le> SIZE_MAX"
    using sz by simp
  have nft: "\<not> is_follower ?t 0"
    by (simp add: is_follower_def mj)
  from later[of ?t 7000000] wt b(1,2) szt
  have "modes_exclusive ?t \<and> position_controller_running ?t \<and>
        \<not> command_propagation_disabled ?t \<and> 0 < length (joints (info ?t)) \<and>
        \<not> isnan (joint_commands ?t ! POSITION_INTERFACE_INDEX ! 0) \<and> \<not> is_follower ?t 0 \<longrightarrow>
        joint_states (snd (read 7000000 ?t)) ! POSITION_INTERFACE_INDEX ! 0 =
          dadd (joint_commands ?t ! POSITION_INTERFACE_INDEX ! 0) (Fin 0)"
    by simp
  then have w2: "joint_states (snd (read 7000000 ?t)) ! POSITION_INTERFACE_INDEX ! 0 = Fin 0"
    using perform_modes_exclusive[of "[]" "[]" s] ph(1) nd i' nft by (simp add: ct)
  from constructed_backend_fields(1,3) demo_other_steps_succeed h b w1 ph(1) w2 show ?thesis
    by (simp add: r)
qed

section \<open>Safety of the double-buffered controller list\<close>


















end
